(* ===== verification/Prelude.thy ===== *)
theory Prelude
  imports Complex_Main "HOL-Library.Sublist"
begin

text \<open>
  What every component of the development shares: the outcome of a Go call, state passing
  over an explicit world, and generic facts on lists.

  A Go function returns a value and an \<open>error\<close>, and it may also panic or not return at all.
  The type \<open>result\<close> has a constructor for each of the four outcomes, so a model never hides
  one behind an unspecified value. A function that reads or changes shared state takes the
  state (the world) and returns it, possibly changed, with its outcome: the type \<open>op\<close>.
\<close>

section \<open>Collections of facts\<close>

named_theorems op_simps \<open>equations that run an operation on a world\<close>
named_theorems preserves_intros \<open>rules that prove an invariant is kept by an operation\<close>

section \<open>Outcomes of a call\<close>

datatype ('e, 'a) outcome = Ok 'a | Err 'e | Panic string | Diverge

type_synonym ('w, 'e, 'a) op = "'w \<Rightarrow> ('e, 'a) outcome \<times> 'w"

definition ret :: "'a \<Rightarrow> ('w, 'e, 'a) op" where
  "ret x w = (Ok x, w)"

definition fail :: "'e \<Rightarrow> ('w, 'e, 'a) op" where
  "fail e w = (Err e, w)"

definition panic :: "string \<Rightarrow> ('w, 'e, 'a) op" where
  "panic m w = (Panic m, w)"

definition diverge :: "('w, 'e, 'a) op" where
  "diverge w = (Diverge, w)"

text \<open>\<open>x, err := m; if err != nil { return g err }; f x\<close>\<close>

definition handle :: "('w, 'e, 'a) op \<Rightarrow> ('a \<Rightarrow> ('w, 'e, 'b) op) \<Rightarrow> ('e \<Rightarrow> ('w, 'e, 'b) op) \<Rightarrow> ('w, 'e, 'b) op" where
  "handle m f g w =
     (case m w of
        (Ok x, w') \<Rightarrow> f x w'
      | (Err e, w') \<Rightarrow> g e w'
      | (Panic p, w') \<Rightarrow> (Panic p, w')
      | (Diverge, w') \<Rightarrow> (Diverge, w'))"

text \<open>\<open>x, err := m; if err != nil { return err }; f x\<close>\<close>

definition andThen :: "('w, 'e, 'a) op \<Rightarrow> ('a \<Rightarrow> ('w, 'e, 'b) op) \<Rightarrow> ('w, 'e, 'b) op" where
  "andThen m f = handle m f fail"

text \<open>A pure outcome used as an operation, and the result of an operation on a world.\<close>

definition lift :: "('e, 'a) outcome \<Rightarrow> ('w, 'e, 'a) op" where
  "lift r w = (r, w)"

definition update :: "('w \<Rightarrow> 'w) \<Rightarrow> ('w, 'e, unit) op" where
  "update f w = (Ok (), f w)"

definition gets :: "('w \<Rightarrow> 'a) \<Rightarrow> ('w, 'e, 'a) op" where
  "gets f w = (Ok (f w), w)"

lemma ret_run [op_simps]: "ret x w = (Ok x, w)"
  by (simp add: ret_def)

lemma fail_run [op_simps]: "fail e w = (Err e, w)"
  by (simp add: fail_def)

lemma panic_run [op_simps]: "panic m w = (Panic m, w)"
  by (simp add: panic_def)

lemma diverge_run [op_simps]: "diverge w = (Diverge, w)"
  by (simp add: diverge_def)

lemma lift_run [op_simps]: "lift r w = (r, w)"
  by (simp add: lift_def)

lemma update_run [op_simps]: "update f w = (Ok (), f w)"
  by (simp add: update_def)

lemma gets_run [op_simps]: "gets f w = (Ok (f w), w)"
  by (simp add: gets_def)

lemma handle_run [op_simps]:
  "m w = (Ok x, w') \<Longrightarrow> handle m f g w = f x w'"
  "m w = (Err e, w') \<Longrightarrow> handle m f g w = g e w'"
  "m w = (Panic p, w') \<Longrightarrow> handle m f g w = (Panic p, w')"
  "m w = (Diverge, w') \<Longrightarrow> handle m f g w = (Diverge, w')"
  by (simp_all add: handle_def)

lemma andThen_run [op_simps]:
  "m w = (Ok x, w') \<Longrightarrow> andThen m f w = f x w'"
  "m w = (Err e, w') \<Longrightarrow> andThen m f w = (Err e, w')"
  "m w = (Panic p, w') \<Longrightarrow> andThen m f w = (Panic p, w')"
  "m w = (Diverge, w') \<Longrightarrow> andThen m f w = (Diverge, w')"
  by (simp_all add: andThen_def handle_def fail_def)

lemma andThen_OkE:
  assumes "andThen m f w = (Ok y, w')"
  obtains x w1 where "m w = (Ok x, w1)" and "f x w1 = (Ok y, w')"
  using assms by (auto simp: andThen_def handle_def fail_def split: prod.splits outcome.splits)

lemma handle_OkE:
  assumes "handle m f g w = (Ok y, w')"
  obtains (ok) x w1 where "m w = (Ok x, w1)" and "f x w1 = (Ok y, w')"
        | (err) e w1 where "m w = (Err e, w1)" and "g e w1 = (Ok y, w')"
  using assms by (auto simp: handle_def split: prod.splits outcome.splits)

text \<open>The same sequencing for outcomes without a world, and errors passed through \<open>fmt.Errorf\<close>.\<close>

fun chain :: "('e, 'a) outcome \<Rightarrow> ('a \<Rightarrow> ('e, 'b) outcome) \<Rightarrow> ('e, 'b) outcome" where
  "chain (Ok x) f = f x"
| "chain (Err e) f = Err e"
| "chain (Panic p) f = Panic p"
| "chain Diverge f = Diverge"

fun map_error :: "('e \<Rightarrow> 'e) \<Rightarrow> ('e, 'a) outcome \<Rightarrow> ('e, 'a) outcome" where
  "map_error g (Err e) = Err (g e)"
| "map_error g r = r"

text \<open>\<open>x, err := m; if err != nil { return wrap(err) }; return x\<close>\<close>

definition wrap_error :: "('e \<Rightarrow> 'e) \<Rightarrow> ('w, 'e, 'a) op \<Rightarrow> ('w, 'e, 'a) op" where
  "wrap_error g m w = (case m w of (r, w') \<Rightarrow> (map_error g r, w'))"

lemma chain_Ok [simp]: "chain r f = Ok y \<longleftrightarrow> (\<exists>x. r = Ok x \<and> f x = Ok y)"
  by (cases r) auto

lemma map_error_Ok [simp]: "map_error g r = Ok y \<longleftrightarrow> r = Ok y"
  by (cases r) auto

lemma wrap_error_run [op_simps]: "m w = (r, w') \<Longrightarrow> wrap_error g m w = (map_error g r, w')"
  by (simp add: wrap_error_def)

lemma wrap_error_Ok: "wrap_error g m w = (Ok y, w') \<longleftrightarrow> m w = (Ok y, w')"
  by (auto simp: wrap_error_def split: prod.splits)

subsection \<open>Outcomes that return\<close>

text \<open>A call returns when it neither panics nor runs for ever.\<close>

fun returns :: "('e, 'a) outcome \<Rightarrow> bool" where
  "returns (Ok x) = True"
| "returns (Err e) = True"
| "returns (Panic p) = False"
| "returns Diverge = False"

definition safe_op :: "('w, 'e, 'a) op \<Rightarrow> bool" where
  "safe_op m \<longleftrightarrow> (\<forall>w. returns (fst (m w)))"

lemma safe_opI [intro]: "(\<And>w. returns (fst (m w))) \<Longrightarrow> safe_op m"
  by (simp add: safe_op_def)

lemma safe_opD: "safe_op m \<Longrightarrow> returns (fst (m w))"
  by (simp add: safe_op_def)

lemma safe_handle:
  "safe_op m \<Longrightarrow> (\<And>x. safe_op (f x)) \<Longrightarrow> (\<And>e. safe_op (g e)) \<Longrightarrow> safe_op (handle m f g)"
  by (auto simp: safe_op_def handle_def split: prod.splits outcome.splits)
     (metis fst_conv returns.simps(3,4))+

lemma safe_prims [simp]:
  "safe_op (ret x)" "safe_op (fail e)" "safe_op (update h)" "safe_op (gets k)"
  by (simp_all add: safe_op_def ret_def fail_def update_def gets_def)

lemma safe_lift [simp]: "safe_op (lift r) = returns r"
  by (simp add: safe_op_def lift_def)

lemma safe_andThen: "safe_op m \<Longrightarrow> (\<And>x. safe_op (f x)) \<Longrightarrow> safe_op (andThen m f)"
  by (simp add: andThen_def safe_handle)

lemma safe_if: "(b \<Longrightarrow> safe_op m) \<Longrightarrow> (\<not> b \<Longrightarrow> safe_op n) \<Longrightarrow> safe_op (if b then m else n)"
  by simp

subsection \<open>Invariants kept by an operation\<close>

definition preserves :: "('w \<Rightarrow> bool) \<Rightarrow> ('w, 'e, 'a) op \<Rightarrow> bool" where
  "preserves I m \<longleftrightarrow> (\<forall>w. I w \<longrightarrow> I (snd (m w)))"

lemma preservesI [intro]: "(\<And>w. I w \<Longrightarrow> I (snd (m w))) \<Longrightarrow> preserves I m"
  by (simp add: preserves_def)

lemma preservesD: "preserves I m \<Longrightarrow> I w \<Longrightarrow> I (snd (m w))"
  by (simp add: preserves_def)

lemma preserves_handle [preserves_intros]:
  assumes "preserves I m" and "\<And>x. preserves I (f x)" and "\<And>e. preserves I (g e)"
  shows "preserves I (handle m f g)"
proof
  fix w assume "I w"
  with assms(1) have "I (snd (m w))" by (rule preservesD)
  then show "I (snd (handle m f g w))"
    using assms(2,3) by (auto simp: handle_def preserves_def split: prod.splits outcome.splits)
qed

lemma preserves_prims [preserves_intros]:
  "preserves I (ret x)" "preserves I (fail e)" "preserves I (panic p)" "preserves I diverge"
  "preserves I (lift r)" "preserves I (gets k)"
  by (simp_all add: preserves_def ret_def fail_def panic_def diverge_def lift_def gets_def)

lemma preserves_andThen [preserves_intros]:
  "preserves I m \<Longrightarrow> (\<And>x. preserves I (f x)) \<Longrightarrow> preserves I (andThen m f)"
  by (simp add: andThen_def preserves_handle preserves_prims)

lemma preserves_update [preserves_intros]:
  "(\<And>w. I w \<Longrightarrow> I (h w)) \<Longrightarrow> preserves I (update h)"
  by (simp add: preserves_def update_def)

lemma preserves_if [preserves_intros]:
  "(b \<Longrightarrow> preserves I m) \<Longrightarrow> (\<not> b \<Longrightarrow> preserves I n) \<Longrightarrow> preserves I (if b then m else n)"
  by simp

lemma preserves_wrap [preserves_intros]: "preserves I m \<Longrightarrow> preserves I (wrap_error g m)"
  by (auto simp: preserves_def wrap_error_def split: prod.splits)

lemma safe_wrap: "safe_op m \<Longrightarrow> safe_op (wrap_error g m)"
proof
  fix w assume "safe_op m"
  then show "returns (fst (wrap_error g m w))"
    by (cases "m w"; cases "fst (m w)") (auto simp: wrap_error_def dest: safe_opD [of m w])
qed

section \<open>Slices\<close>

text \<open>
  \<open>text[a:b]\<close> on a string or slice. Go panics unless \<open>0 \<le> a \<le> b \<le> len\<close>; the callers
  in the model stay in range, which their bounds lemmas show.
\<close>

definition slice :: "'a list \<Rightarrow> int \<Rightarrow> int \<Rightarrow> 'a list" where
  "slice xs a b = take (nat (b - a)) (drop (nat a) xs)"

lemma length_slice:
  "0 \<le> a \<Longrightarrow> a \<le> b \<Longrightarrow> b \<le> int (length xs) \<Longrightarrow> int (length (slice xs a b)) = b - a"
  by (simp add: slice_def nat_diff_distrib)

lemma slice_nat: "slice xs (int a) (int b) = take (b - a) (drop a xs)"
  by (simp add: slice_def nat_diff_distrib')

section \<open>Machine integers\<close>

text \<open>The conversion \<open>int32(x)\<close>: the low 32 bits, read as two's complement.\<close>

definition to_int32 :: "int \<Rightarrow> int" where
  "to_int32 x = (x + 2 ^ 31) mod 2 ^ 32 - 2 ^ 31"

definition is_int32 :: "int \<Rightarrow> bool" where
  "is_int32 x \<longleftrightarrow> - (2 ^ 31) \<le> x \<and> x < 2 ^ 31"

lemma to_int32_id: "is_int32 x \<Longrightarrow> to_int32 x = x"
  by (simp add: to_int32_def is_int32_def)

lemma is_int32_to_int32: "is_int32 (to_int32 x)"
  using pos_mod_bound [of "2 ^ 32" "x + 2 ^ 31"] pos_mod_sign [of "2 ^ 32" "x + 2 ^ 31"]
  by (simp add: to_int32_def is_int32_def)

section \<open>Subsequences\<close>

lemma subseq_drop: "subseq (drop n xs) xs"
  by (metis append_take_drop_id list_emb_append2 subseq_order.order_refl)

lemma subseq_concat_map:
  "(\<And>x. x \<in> set xs \<Longrightarrow> subseq (f x) x) \<Longrightarrow> subseq (concat (map f xs)) (concat xs)"
  by (induction xs) (auto intro: list_emb_append_mono)

end
