(* ===== verification/Go_Float.thy ===== *)
theory Go_Float
  imports Prelude
begin

text \<open>
  Go's \<open>float32\<close> as the services use it: vectors, similarity scores, thresholds and the
  weights of a hybrid search. A value is an IEEE-754 value in sign and magnitude form, so
  that the two zeros are different values and a NaN compares with nothing. The operations
  of the language that the code applies are comparison, addition and division; the two
  last round to the nearest float32, ties to even, with gradual underflow and overflow to
  an infinity.
\<close>

section \<open>Values and comparisons\<close>

datatype fp = NaN | Inf bool | Fin bool rat

fun IsNaN :: "fp \<Rightarrow> bool" where
  "IsNaN NaN = True"
| "IsNaN _ = False"

fun IsInf :: "fp \<Rightarrow> bool" where
  "IsInf (Inf _) = True"
| "IsInf _ = False"

fun signed :: "bool \<Rightarrow> rat \<Rightarrow> rat" where
  "signed s m = (if s then - m else m)"

fun fp_less :: "fp \<Rightarrow> fp \<Rightarrow> bool" where
  "fp_less (Inf s) (Inf t) = (s \<and> \<not> t)"
| "fp_less (Inf s) (Fin _ _) = s"
| "fp_less (Fin _ _) (Inf t) = (\<not> t)"
| "fp_less (Fin s x) (Fin t y) = (signed s x < signed t y)"
| "fp_less _ _ = False"

fun fp_eq :: "fp \<Rightarrow> fp \<Rightarrow> bool" where
  "fp_eq (Inf s) (Inf t) = (s = t)"
| "fp_eq (Fin s x) (Fin t y) = (signed s x = signed t y)"
| "fp_eq _ _ = False"

text \<open>The operators \<open><\<close> and \<open><=\<close> of the language, as the library's order symbols.\<close>

instantiation fp :: ord
begin

definition less_fp :: "fp \<Rightarrow> fp \<Rightarrow> bool" where
  "less_fp x y = fp_less x y"

definition less_eq_fp :: "fp \<Rightarrow> fp \<Rightarrow> bool" where
  "less_eq_fp x y = (fp_less x y \<or> fp_eq x y)"

instance ..

end

lemmas fp_order = less_fp_def less_eq_fp_def

text \<open>The constants of the source: \<open>0.0\<close>, \<open>1.0\<close>, \<open>0.5\<close>.\<close>

definition f_zero :: fp where "f_zero = Fin False 0"
definition f_one :: fp where "f_one = Fin False 1"
definition f_half :: fp where "f_half = Fin False (1 / 2)"

lemma nan_never_less [simp]: "\<not> NaN < x" "\<not> x < NaN"
  by (cases x; simp add: fp_order)+

section \<open>Rounding\<close>

text \<open>Round to the nearest integer, ties to even.\<close>

definition round_even :: "rat \<Rightarrow> int" where
  "round_even q =
     (let f = \<lfloor>q\<rfloor>; d = q - of_int f in
      if d < 1 / 2 then f else if 1 / 2 < d then f + 1 else if even f then f else f + 1)"

lemma round_even_ge:
  assumes "of_int k \<le> q" shows "k \<le> round_even q"
proof -
  have "k \<le> \<lfloor>q\<rfloor>" using assms by (simp add: le_floor_iff)
  then show ?thesis by (auto simp: round_even_def Let_def)
qed

lemma round_even_le:
  assumes "q \<le> of_int k" shows "round_even q \<le> k"
proof (cases "q = of_int k")
  case True
  then show ?thesis by (simp add: round_even_def)
next
  case False
  with assms have "\<lfloor>q\<rfloor> < k" by (simp add: floor_less_iff)
  then show ?thesis by (auto simp: round_even_def Let_def)
qed

lemma round_even_int [simp]: "round_even (of_int k) = k"
  by (simp add: round_even_def)

text \<open>
  The exponent of a magnitude: the largest \<open>e\<close> from -126 to 127 with \<open>2\<^sup>e \<le> q\<close>, and -126
  (the exponent of the subnormal numbers) when there is none. The spacing of the float32
  values around \<open>q\<close> is \<open>2\<^sup>e\<^sup>-\<^sup>2\<^sup>3\<close>.
\<close>

definition f32_exp :: "rat \<Rightarrow> int" where
  "f32_exp q = (case find (\<lambda>e. 2 powi e \<le> q) (rev [-126..127]) of Some e \<Rightarrow> e | None \<Rightarrow> -126)"

definition f32_ulp :: "rat \<Rightarrow> rat" where
  "f32_ulp q = 2 powi (f32_exp q - 23)"

definition f32_mag :: "rat \<Rightarrow> rat" where
  "f32_mag q = of_int (round_even (q / f32_ulp q)) * f32_ulp q"

definition f32_round :: "bool \<Rightarrow> rat \<Rightarrow> fp" where
  "f32_round s q = (if 2 ^ 128 \<le> f32_mag q then Inf s else Fin s (f32_mag q))"

text \<open>A float32 value: a magnitude below \<open>2\<^sup>1\<^sup>2\<^sup>8\<close> that rounding leaves alone.\<close>

fun is_f32 :: "fp \<Rightarrow> bool" where
  "is_f32 (Fin s m) = (0 \<le> m \<and> m < 2 ^ 128 \<and> f32_mag m = m)"
| "is_f32 _ = True"

section \<open>Arithmetic\<close>

fun f32_add :: "fp \<Rightarrow> fp \<Rightarrow> fp" where
  "f32_add NaN _ = NaN"
| "f32_add _ NaN = NaN"
| "f32_add (Inf s) (Inf t) = (if s = t then Inf s else NaN)"
| "f32_add (Inf s) (Fin _ _) = Inf s"
| "f32_add (Fin _ _) (Inf t) = Inf t"
| "f32_add (Fin s x) (Fin t y) =
     (let r = signed s x + signed t y in
      if r = 0 then Fin (s \<and> t) 0 else f32_round (r < 0) \<bar>r\<bar>)"

fun f32_div :: "fp \<Rightarrow> fp \<Rightarrow> fp" where
  "f32_div NaN _ = NaN"
| "f32_div _ NaN = NaN"
| "f32_div (Inf _) (Inf _) = NaN"
| "f32_div (Inf s) (Fin t _) = Inf (s \<noteq> t)"
| "f32_div (Fin s _) (Inf t) = Fin (s \<noteq> t) 0"
| "f32_div (Fin s x) (Fin t y) =
     (if y = 0 then (if x = 0 then NaN else Inf (s \<noteq> t)) else f32_round (s \<noteq> t) (x / y))"

section \<open>Facts on rounding\<close>

lemma find_descending:
  fixes P :: "int \<Rightarrow> bool"
  assumes "\<And>i j. i \<le> j \<Longrightarrow> P j \<Longrightarrow> P i"
  shows "case find P (rev [a..b]) of
           Some e \<Rightarrow> a \<le> e \<and> e \<le> b \<and> P e \<and> (\<forall>j. e < j \<longrightarrow> j \<le> b \<longrightarrow> \<not> P j)
         | None \<Rightarrow> \<forall>j. a \<le> j \<longrightarrow> j \<le> b \<longrightarrow> \<not> P j"
proof (induction "nat (b - a + 1)" arbitrary: b)
  case 0
  then show ?case by simp
next
  case (Suc n)
  then have ab: "a \<le> b" by simp
  then have l: "rev [a..b] = b # rev [a..b - 1]"
    by (metis append.simps(1,2) rev.simps(2) rev_append rev_rev_ident upto_rec2)
  have n: "n = nat (b - 1 - a + 1)" using Suc.hyps(2) by simp
  show ?case
  proof (cases "P b")
    case True
    with ab show ?thesis by (simp add: l)
  next
    case False
    with Suc.hyps(1) [OF n] show ?thesis
      by (auto simp: l split: option.splits)
  qed
qed

lemma powi_mono_int: "(i :: int) \<le> j \<Longrightarrow> (2 :: rat) powi i \<le> 2 powi j"
  by (rule power_int_increasing) auto

lemma powi_pos [simp]: "(0 :: rat) < 2 powi i"
  by simp

lemma f32_exp_spec:
  "-126 \<le> f32_exp q \<and> f32_exp q \<le> 127 \<and> (-126 < f32_exp q \<longrightarrow> 2 powi f32_exp q \<le> q) \<and>
   (\<forall>j. f32_exp q < j \<longrightarrow> j \<le> 127 \<longrightarrow> q < 2 powi j)"
proof -
  have "case find (\<lambda>e. 2 powi e \<le> q) (rev [-126..127]) of
           Some e \<Rightarrow> -126 \<le> e \<and> e \<le> 127 \<and> 2 powi e \<le> q \<and> (\<forall>j. e < j \<longrightarrow> j \<le> 127 \<longrightarrow> \<not> 2 powi j \<le> q)
         | None \<Rightarrow> \<forall>j. -126 \<le> j \<longrightarrow> j \<le> 127 \<longrightarrow> \<not> 2 powi j \<le> q"
    by (rule find_descending) (blast intro: order_trans powi_mono_int)
  then show ?thesis
    by (auto simp: f32_exp_def not_le split: option.splits)
qed

lemma f32_exp_mono: "x \<le> y \<Longrightarrow> f32_exp x \<le> f32_exp y"
  using f32_exp_spec [of x] f32_exp_spec [of y]
  by (metis dual_order.strict_trans2 leD leI order_trans)

lemma f32_ulp_pos [simp]: "0 < f32_ulp q"
  by (simp add: f32_ulp_def)

lemma scaled_powi: "2 powi j / 2 powi (e - 23) = (of_int (2 ^ nat (j - e + 23)) :: rat)" if "e - 23 \<le> j"
proof -
  have "(2 :: rat) powi j / 2 powi (e - 23) = 2 powi (j - (e - 23))"
    by (simp add: power_int_diff)
  also have "\<dots> = 2 ^ nat (j - e + 23)"
    using that by (simp add: power_int_def algebra_simps)
  finally show ?thesis by simp
qed

text \<open>Rounding does not cross a float32 value: from above, and from below.\<close>

lemma f32_mag_ge:
  assumes "f32_mag y = y" and "y \<le> x"
  shows "y \<le> f32_mag x"
proof (cases "f32_exp y = f32_exp x")
  case True
  let ?U = "f32_ulp x"
  have U: "f32_ulp y = ?U" using True by (simp add: f32_ulp_def)
  let ?k = "round_even (y / ?U)"
  have k: "y = of_int ?k * ?U" using assms(1) by (simp add: f32_mag_def U)
  have "of_int ?k \<le> x / ?U"
    using assms(2) k by (simp add: pos_le_divide_eq)
  then have "?k \<le> round_even (x / ?U)" by (rule round_even_ge)
  then have "of_int ?k * ?U \<le> of_int (round_even (x / ?U)) * ?U"
    by (intro mult_right_mono) (auto simp: less_imp_le)
  then show ?thesis using k by (simp add: f32_mag_def)
next
  case False
  let ?e = "f32_exp x" and ?U = "f32_ulp x"
  have lt: "f32_exp y < ?e" using False f32_exp_mono [OF assms(2)] by simp
  then have y: "y < 2 powi ?e" and x: "2 powi ?e \<le> x"
    using f32_exp_spec [of y] f32_exp_spec [of x] by auto
  have "of_int (2 ^ 23) \<le> x / ?U"
    using x scaled_powi [of ?e ?e] by (simp add: f32_ulp_def pos_le_divide_eq divide_eq_eq)
  then have "2 ^ 23 \<le> round_even (x / ?U)" by (rule round_even_ge)
  then have "of_int (2 ^ 23) * ?U \<le> f32_mag x"
    unfolding f32_mag_def by (intro mult_right_mono) (auto simp: less_imp_le)
  moreover have "of_int (2 ^ 23) * ?U = 2 powi ?e"
    using scaled_powi [of ?e ?e] by (simp add: f32_ulp_def divide_eq_eq)
  ultimately show ?thesis using y by simp
qed

lemma f32_mag_le:
  assumes "f32_mag y = y" and "x \<le> y"
  shows "f32_mag x \<le> y"
proof (cases "f32_exp x = f32_exp y")
  case True
  let ?U = "f32_ulp y"
  have U: "f32_ulp x = ?U" using True by (simp add: f32_ulp_def)
  let ?k = "round_even (y / ?U)"
  have k: "y = of_int ?k * ?U" using assms(1) by (simp add: f32_mag_def)
  have "x / ?U \<le> of_int ?k"
    using assms(2) k by (simp add: pos_divide_le_eq)
  then have "round_even (x / ?U) \<le> ?k" by (rule round_even_le)
  then have "of_int (round_even (x / ?U)) * ?U \<le> of_int ?k * ?U"
    by (intro mult_right_mono) (auto simp: less_imp_le)
  then show ?thesis using k by (simp add: f32_mag_def U)
next
  case False
  let ?e = "f32_exp x" and ?U = "f32_ulp x"
  have lt: "?e < f32_exp y" using False f32_exp_mono [OF assms(2)] by simp
  then have "2 powi f32_exp y \<le> y" and "?e + 1 \<le> 127"
    using f32_exp_spec [of y] f32_exp_spec [of x] by auto
  then have x: "x < 2 powi (?e + 1)" and y: "2 powi (?e + 1) \<le> y"
    using f32_exp_spec [of x] lt powi_mono_int [of "?e + 1" "f32_exp y"] by (auto intro: order_trans)
  have eq: "of_int (2 ^ 24) * ?U = 2 powi (?e + 1)"
    using scaled_powi [of ?e "?e + 1"] by (simp add: f32_ulp_def divide_eq_eq)
  have "x / ?U \<le> of_int (2 ^ 24)"
    using x eq by (simp add: pos_divide_le_eq)
  then have "round_even (x / ?U) \<le> 2 ^ 24" by (rule round_even_le)
  then have "f32_mag x \<le> of_int (2 ^ 24) * ?U"
    unfolding f32_mag_def by (intro mult_right_mono) (auto simp: less_imp_le)
  then show ?thesis using eq y by simp
qed

lemma f32_mag_0 [simp]: "f32_mag 0 = 0"
  by (simp add: f32_mag_def round_even_def)

lemma f32_mag_1 [simp]: "f32_mag 1 = 1"
proof -
  note spec = f32_exp_spec [of 1]
  have "\<not> f32_exp 1 < 0" using spec by auto
  moreover have "\<not> 0 < f32_exp 1"
  proof
    assume "0 < f32_exp 1"
    then have "(2 :: rat) powi 1 \<le> 2 powi f32_exp 1" by (intro powi_mono_int) simp
    with spec \<open>0 < f32_exp 1\<close> show False by auto
  qed
  ultimately have "f32_exp 1 = 0" by simp
  then have u: "f32_ulp 1 = 1 / 2 ^ 23" by (simp add: f32_ulp_def power_int_def power_one_over)
  have "1 / f32_ulp 1 = of_int (2 ^ 23)" by (simp add: u)
  then have "f32_mag 1 = of_int (2 ^ 23) * f32_ulp 1" unfolding f32_mag_def by (simp only: round_even_int)
  then show ?thesis by (simp add: u)
qed

lemma f32_mag_nonneg: "0 \<le> x \<Longrightarrow> 0 \<le> f32_mag x"
  using f32_mag_ge [of 0 x] by simp

text \<open>A quotient of float32 values whose magnitude is at most one rounds to at most one.\<close>

lemma f32_round_unit:
  assumes "0 \<le> q" and "q \<le> 1"
  shows "\<exists>m. f32_round False q = Fin False m \<and> 0 \<le> m \<and> m \<le> 1"
  using f32_mag_le [of 1 q] f32_mag_nonneg [of q] assms by (auto simp: f32_round_def)

text \<open>Rounding is idempotent, so what it yields is a float32 value.\<close>

lemma f32_exp_unique:
  assumes "-126 \<le> e" and "e \<le> 127" and "e = -126 \<or> 2 powi e \<le> q" and "e = 127 \<or> q < 2 powi (e + 1)"
  shows "f32_exp q = e"
proof -
  note spec = f32_exp_spec [of q]
  have "\<not> f32_exp q < e"
  proof
    assume lt: "f32_exp q < e"
    then have "2 powi e \<le> q" using assms(3) spec by auto
    then show False using spec lt assms(2) by fastforce
  qed
  moreover have "\<not> e < f32_exp q"
  proof
    assume lt: "e < f32_exp q"
    then have "2 powi f32_exp q \<le> q" "q < 2 powi (e + 1)" using spec assms(1,4) by auto
    moreover have "(2 :: rat) powi (e + 1) \<le> 2 powi f32_exp q" using lt by (intro powi_mono_int) simp
    ultimately show False by simp
  qed
  ultimately show ?thesis by simp
qed

lemma f32_mag_idem:
  assumes "0 \<le> q"
  shows "f32_mag (f32_mag q) = f32_mag q"
proof -
  let ?e = "f32_exp q" and ?U = "f32_ulp q" and ?k = "round_even (q / f32_ulp q)"
  note spec = f32_exp_spec [of q]
  have y: "f32_mag q = of_int ?k * ?U" by (simp add: f32_mag_def)
  have top: "of_int (2 ^ 24) * ?U = 2 powi (?e + 1)" and bot: "of_int (2 ^ 23) * ?U = 2 powi ?e"
    using scaled_powi [of ?e "?e + 1"] scaled_powi [of ?e ?e] by (simp_all add: f32_ulp_def divide_eq_eq)
  have same: "f32_mag (f32_mag q) = f32_mag q" if "f32_exp (f32_mag q) = ?e"
  proof -
    have "f32_ulp (f32_mag q) = ?U" using that by (simp add: f32_ulp_def)
    then show ?thesis by (simp add: f32_mag_def [of "f32_mag q"]) (simp add: y)
  qed
  show ?thesis
  proof (cases "?k < 2 ^ 24 \<or> ?e = 127")
    case True
    have lo: "?e = -126 \<or> 2 powi ?e \<le> f32_mag q"
    proof (cases "?e = -126")
      case False
      then have "2 powi ?e \<le> q" using spec by auto
      then have "of_int (2 ^ 23) \<le> q / ?U" using bot by (simp add: pos_le_divide_eq)
      then have "2 ^ 23 \<le> ?k" by (rule round_even_ge)
      then have "of_int (2 ^ 23) * ?U \<le> of_int ?k * ?U"
        by (intro mult_right_mono) (simp_all only: of_int_le_iff f32_ulp_pos less_imp_le)
      then show ?thesis unfolding bot y by blast
    qed simp
    have hi: "?e = 127 \<or> f32_mag q < 2 powi (?e + 1)"
    proof (cases "?e = 127")
      case False
      with True have "?k < 2 ^ 24" by blast
      then have "of_int ?k * ?U < of_int (2 ^ 24) * ?U"
        by (intro mult_strict_right_mono) (simp_all only: of_int_less_iff f32_ulp_pos)
      then show ?thesis unfolding y top [symmetric] by blast
    qed simp
    show ?thesis by (rule same, rule f32_exp_unique) (use spec lo hi in auto)
  next
    case False
    then have e: "?e < 127" using spec by auto
    then have "q < 2 powi (?e + 1)" using spec by auto
    then have "q / ?U \<le> of_int (2 ^ 24)" using top by (simp add: pos_divide_le_eq)
    then have "?k \<le> 2 ^ 24" by (rule round_even_le)
    with False have "?k = 2 ^ 24" by simp
    then have v: "f32_mag q = 2 powi (?e + 1)" using top y by simp
    have "f32_exp (2 powi (?e + 1)) = ?e + 1"
      by (rule f32_exp_unique) (use spec e in \<open>auto simp: power_int_strict_increasing\<close>)
    then have u: "f32_ulp (f32_mag q) = 2 powi (?e + 1 - 23)" by (simp add: v f32_ulp_def)
    have r: "f32_mag q / f32_ulp (f32_mag q) = of_int (2 ^ 23)"
      unfolding u using scaled_powi [of "?e + 1" "?e + 1"] by (simp only: v) simp
    have "f32_mag (f32_mag q) = of_int (2 ^ 23) * f32_ulp (f32_mag q)"
      unfolding f32_mag_def [of "f32_mag q"] r by (simp only: round_even_int)
    also have "\<dots> = f32_mag q"
      using r f32_ulp_pos [of "f32_mag q"] by (simp only: divide_eq_eq)
    finally show ?thesis .
  qed
qed

lemma f32_round_is_f32: "0 \<le> q \<Longrightarrow> is_f32 (f32_round s q)"
  by (simp add: f32_round_def f32_mag_idem f32_mag_nonneg)

end
