(* ===== verification/Go_Strings.thy ===== *)
theory Go_Strings
  imports Go_Float
begin

text \<open>
  Go strings are byte sequences: a model string is a list of 8-bit characters, and \<open>length\<close>
  counts bytes as Go's \<open>len\<close> does. Below are the functions of the packages \<open>strings\<close>,
  \<open>strconv\<close> and \<open>fmt\<close> that the program calls, with the laws the components rest on.
\<close>

section \<open>Searching and trimming\<close>

text \<open>\<open>strings.HasPrefix\<close> is \<open>prefix\<close> with its arguments swapped; \<open>strings.Contains\<close>
  looks for the pattern at every position, the end included.\<close>

fun strings_Contains :: "string \<Rightarrow> string \<Rightarrow> bool" where
  "strings_Contains [] sub = (sub = [])"
| "strings_Contains (c # cs) sub = (prefix sub (c # cs) \<or> strings_Contains cs sub)"

lemma strings_Contains_sublist: "strings_Contains s sub = sublist sub s"
  by (induction s) (auto simp: sublist_Cons_right)

definition strings_TrimPrefix :: "string \<Rightarrow> string \<Rightarrow> string" where
  "strings_TrimPrefix s p = (if prefix p s then drop (length p) s else s)"

definition strings_TrimSuffix :: "string \<Rightarrow> string \<Rightarrow> string" where
  "strings_TrimSuffix s p = (if suffix p s then take (length s - length p) s else s)"

lemma TrimPrefix_append [simp]: "strings_TrimPrefix (p @ s) p = s"
  by (simp add: strings_TrimPrefix_def)

lemma TrimSuffix_append [simp]: "strings_TrimSuffix (s @ p) p = s"
  by (simp add: strings_TrimSuffix_def suffixI)

text \<open>
  \<open>strings.TrimSpace\<close> drops the characters for which \<open>unicode.IsSpace\<close> holds from both ends.
  The space characters, each as its UTF-8 bytes: six of ASCII, U+0085, U+00A0, U+1680,
  U+2000 to U+200A, U+2028, U+2029, U+202F, U+205F and U+3000. Only the bytes of such a
  character decode to it, so dropping a character is dropping its bytes.
\<close>

definition bytes :: "nat list \<Rightarrow> string" where
  "bytes ns = map char_of ns"

definition unicode_spaces :: "string list" where
  "unicode_spaces =
     map (\<lambda>n. bytes [n]) [9, 10, 11, 12, 13, 32] @
     [bytes [194, 133], bytes [194, 160], bytes [225, 154, 128]] @
     map (\<lambda>n. bytes [226, 128, n]) [128 ..< 139] @
     [bytes [226, 128, 168], bytes [226, 128, 169], bytes [226, 128, 175],
      bytes [226, 129, 159], bytes [227, 128, 128]]"

function trim_left_of :: "string list \<Rightarrow> string \<Rightarrow> string" where
  "trim_left_of ws s =
     (case find (\<lambda>w. w \<noteq> [] \<and> prefix w s) ws of
        None \<Rightarrow> s
      | Some w \<Rightarrow> trim_left_of ws (drop (length w) s))"
  by pat_completeness auto
termination
  by (relation "measure (\<lambda>(ws, s). length s)") (auto simp: find_Some_iff prefix_def)

declare trim_left_of.simps [simp del]

definition strings_TrimSpace :: "string \<Rightarrow> string" where
  "strings_TrimSpace s =
     rev (trim_left_of (map rev unicode_spaces) (rev (trim_left_of unicode_spaces s)))"

lemma trim_left_of_suffix: "suffix (trim_left_of ws s) s"
proof (induction ws s rule: trim_left_of.induct)
  case (1 ws s)
  show ?case
  proof (cases "find (\<lambda>w. w \<noteq> [] \<and> prefix w s) ws")
    case None
    then show ?thesis by (subst trim_left_of.simps) simp
  next
    case (Some w)
    have "suffix (trim_left_of ws (drop (length w) s)) (drop (length w) s)"
      by (rule "1.IH" [OF Some])
    then have "suffix (trim_left_of ws (drop (length w) s)) s"
      by (metis suffix_drop suffix_order.trans)
    with Some show ?thesis by (subst trim_left_of.simps) simp
  qed
qed

text \<open>What is left is a contiguous part of the string.\<close>

lemma TrimSpace_sublist: "sublist (strings_TrimSpace s) s"
proof -
  let ?t = "trim_left_of unicode_spaces s"
  have "suffix (trim_left_of (map rev unicode_spaces) (rev ?t)) (rev ?t)"
    by (rule trim_left_of_suffix)
  then have "prefix (strings_TrimSpace s) ?t"
    by (simp add: strings_TrimSpace_def suffix_to_prefix)
  then show ?thesis
    using trim_left_of_suffix [of unicode_spaces s]
    by (meson prefix_imp_sublist sublist_order.order_trans suffix_imp_sublist)
qed

lemma TrimSpace_length: "length (strings_TrimSpace s) \<le> length s"
  by (rule sublist_length_le [OF TrimSpace_sublist])

lemma TrimSpace_subseq: "subseq (strings_TrimSpace s) s"
  by (rule sublist_imp_subseq [OF TrimSpace_sublist])

section \<open>Lower case\<close>

text \<open>
  \<open>strings.ToLower\<close>. The program compares the result with ASCII names only. A letter outside
  ASCII has a lower case letter outside ASCII, but for U+0130, which becomes \<open>i\<close>, and
  U+212A, which becomes \<open>k\<close>; so the other bytes from 128 on may be copied: a string that
  holds one is different from every ASCII name either way.
\<close>

definition lower_char :: "char \<Rightarrow> char" where
  "lower_char c = (if 65 \<le> (of_char c :: nat) \<and> (of_char c :: nat) \<le> 90
                   then char_of (of_char c + 32 :: nat) else c)"

fun strings_ToLower :: "string \<Rightarrow> string" where
  "strings_ToLower [] = []"
| "strings_ToLower (c # cs) =
     (if c = char_of (196 :: nat) \<and> prefix (bytes [176]) cs then CHR ''i'' # strings_ToLower (drop 1 cs)
      else if c = char_of (226 :: nat) \<and> prefix (bytes [132, 170]) cs then CHR ''k'' # strings_ToLower (drop 2 cs)
      else lower_char c # strings_ToLower cs)"

section \<open>Splitting and joining\<close>

fun strings_Join :: "string list \<Rightarrow> string \<Rightarrow> string" where
  "strings_Join [] sep = []"
| "strings_Join [x] sep = x"
| "strings_Join (x # y # ys) sep = x @ sep @ strings_Join (y # ys) sep"

text \<open>
  \<open>strings.Split\<close> for a separator that is not empty: cut at the leftmost occurrence and go
  on behind it. \<open>cur\<close> is the piece read so far. (For the empty separator Go splits into
  characters; the program never passes one, and the model then returns the string whole.)
\<close>

function split_from :: "string \<Rightarrow> string \<Rightarrow> string \<Rightarrow> string list" where
  "split_from sep cur s =
     (if sep \<noteq> [] \<and> prefix sep s then cur # split_from sep [] (drop (length sep) s)
      else case s of [] \<Rightarrow> [cur] | c # cs \<Rightarrow> split_from sep (cur @ [c]) cs)"
  by pat_completeness auto
termination
  by (relation "measure (\<lambda>(sep, cur, s). length s)") (auto simp: prefix_def)

declare split_from.simps [simp del]

definition strings_Split :: "string \<Rightarrow> string \<Rightarrow> string list" where
  "strings_Split s sep = split_from sep [] s"

lemma split_from_Nil [simp]: "split_from sep cur [] = [cur]"
  by (subst split_from.simps) (auto simp: prefix_def)

lemma split_from_step:
  "split_from sep cur (c # cs) =
     (if sep \<noteq> [] \<and> prefix sep (c # cs) then cur # split_from sep [] (drop (length sep) (c # cs))
      else split_from sep (cur @ [c]) cs)"
  by (subst split_from.simps) simp

lemma split_from_not_Nil [simp]: "split_from sep cur s \<noteq> []"
proof (induction sep cur s rule: split_from.induct)
  case (1 sep cur s)
  then show ?case by (cases s) (auto simp: split_from_step)
qed

lemma Join_Cons [simp]: "ys \<noteq> [] \<Longrightarrow> strings_Join (x # ys) sep = x @ sep @ strings_Join ys sep"
  by (cases ys) auto

lemma Join_split_from:
  "strings_Join (split_from sep cur s) sep = cur @ s"
proof (induction sep cur s rule: split_from.induct)
  case (1 sep cur s)
  show ?case
  proof (cases "sep \<noteq> [] \<and> prefix sep s")
    case True
    then have s: "s \<noteq> []" and d: "sep @ drop (length sep) s = s"
      by (auto simp: prefix_def)
    have "split_from sep cur s = cur # split_from sep [] (drop (length sep) s)"
      using True s by (cases s) (auto simp: split_from_step)
    then show ?thesis using "1.IH"(1) [OF True] d by simp
  next
    case False
    then show ?thesis using "1.IH"(2) [OF False] by (cases s) (auto simp: split_from_step)
  qed
qed

text \<open>Joining what was split gives the string back.\<close>

lemma Join_Split [simp]: "strings_Join (strings_Split s sep) sep = s"
  by (simp add: strings_Split_def Join_split_from)

lemma Split_not_Nil [simp]: "strings_Split s sep \<noteq> []"
  by (simp add: strings_Split_def)

text \<open>Splitting what was joined with a character that no piece holds gives the pieces back.\<close>

lemma split_from_piece:
  "c \<notin> set x \<Longrightarrow> split_from [c] cur (x @ c # s) = (cur @ x) # split_from [c] [] s"
proof (induction x arbitrary: cur)
  case Nil
  show ?case by (simp add: split_from_step)
next
  case (Cons a x)
  then show ?case by (simp add: split_from_step)
qed

lemma split_from_last: "c \<notin> set x \<Longrightarrow> split_from [c] cur x = [cur @ x]"
  by (induction x arbitrary: cur) (auto simp: split_from_step)

lemma Split_Join:
  "ps \<noteq> [] \<Longrightarrow> (\<And>p. p \<in> set ps \<Longrightarrow> c \<notin> set p) \<Longrightarrow> strings_Split (strings_Join ps [c]) [c] = ps"
proof (induction ps)
  case Nil
  then show ?case by simp
next
  case (Cons p ps)
  show ?case
  proof (cases "ps = []")
    case True
    then show ?thesis using Cons.prems by (simp add: strings_Split_def split_from_last)
  next
    case False
    then show ?thesis using Cons by (simp add: strings_Split_def split_from_piece)
  qed
qed

lemma length_Join:
  "ds \<noteq> [] \<Longrightarrow> length (strings_Join ds sep) = sum_list (map length ds) + (length ds - 1) * length sep"
proof (induction ds)
  case Nil
  then show ?case by simp
next
  case (Cons d ds)
  then show ?case by (cases ds) auto
qed

lemma Join_snoc: "ds \<noteq> [] \<Longrightarrow> strings_Join (ds @ [d]) sep = strings_Join ds sep @ sep @ d"
proof (induction ds)
  case Nil
  then show ?case by simp
next
  case (Cons x ds)
  then show ?case by (cases ds) auto
qed

lemma Join_append:
  "xs \<noteq> [] \<Longrightarrow> ys \<noteq> [] \<Longrightarrow>
     strings_Join (xs @ ys) sep = strings_Join xs sep @ sep @ strings_Join ys sep"
proof (induction xs)
  case (Cons x xs)
  then show ?case by (cases "xs = []") auto
qed simp

lemma sublist_Join: "d \<in> set ds \<Longrightarrow> sublist d (strings_Join ds sep)"
proof (induction ds)
  case Nil
  then show ?case by simp
next
  case (Cons x ds)
  show ?case
  proof (cases "d = x")
    case True
    then show ?thesis by (cases ds) auto
  next
    case False
    then have "sublist d (strings_Join ds sep)" and "ds \<noteq> []" using Cons by auto
    then show ?thesis by (auto simp: sublist_append)
  qed
qed

section \<open>Numbers and formats\<close>

definition digit :: "nat \<Rightarrow> char" where
  "digit d = char_of (48 + d)"

definition is_digit :: "char \<Rightarrow> bool" where
  "is_digit c = (48 \<le> (of_char c :: nat) \<and> (of_char c :: nat) \<le> 57)"

fun decimal :: "nat \<Rightarrow> string" where
  "decimal n = (if n < 10 then [digit n] else decimal (n div 10) @ [digit (n mod 10)])"

declare decimal.simps [simp del]

definition strconv_Itoa :: "int \<Rightarrow> string" where
  "strconv_Itoa i = (if i < 0 then CHR ''-'' # decimal (nat (- i)) else decimal (nat i))"

definition digits_value :: "string \<Rightarrow> nat" where
  "digits_value s = foldl (\<lambda>v c. 10 * v + (of_char c - 48)) 0 s"

lemma of_char_digit: "d < 10 \<Longrightarrow> of_char (digit d) = 48 + d"
  by (simp add: digit_def)

lemma is_digit_digit [simp]: "d < 10 \<Longrightarrow> is_digit (digit d)"
  by (simp add: is_digit_def of_char_digit)

lemma decimal_digits: "c \<in> set (decimal n) \<Longrightarrow> is_digit c"
proof (induction n rule: decimal.induct)
  case (1 n)
  show ?case
  proof (cases "n < 10")
    case True
    with "1.prems" show ?thesis by (simp add: decimal.simps [of n])
  next
    case False
    with "1.prems" have "c \<in> set (decimal (n div 10)) \<or> c = digit (n mod 10)"
      by (auto simp: decimal.simps [of n])
    with "1.IH" [OF False] show ?thesis by auto
  qed
qed

lemma decimal_not_Nil [simp]: "decimal n \<noteq> []"
  by (simp add: decimal.simps [of n])

lemma digits_value_decimal [simp]: "digits_value (decimal n) = n"
proof (induction n rule: decimal.induct)
  case (1 n)
  show ?case
  proof (cases "n < 10")
    case True
    then show ?thesis by (simp add: decimal.simps [of n] digits_value_def of_char_digit)
  next
    case False
    from "1.IH" [OF False] have "foldl (\<lambda>v c. 10 * v + (of_char c - 48)) 0 (decimal (n div 10)) = n div 10"
      by (simp add: digits_value_def)
    with False show ?thesis
      by (simp add: decimal.simps [of n] digits_value_def of_char_digit)
  qed
qed

lemma decimal_inject [simp]: "decimal m = decimal n \<longleftrightarrow> m = n"
  by (metis digits_value_decimal)

text \<open>The arguments of \<open>fmt.Errorf\<close> and \<open>fmt.Sprintf\<close>: strings, integers, floats.\<close>

datatype fmt_arg = FStr string | FInt int | FFloat fp

text \<open>
  \<open>%q\<close>: a quoted string. Quotes, backslashes and ASCII control characters are escaped; bytes
  from 128 on are copied, as Go does for printable characters.
\<close>

definition hex_digit :: "nat \<Rightarrow> char" where
  "hex_digit d = (if d < 10 then digit d else char_of (87 + d))"

definition quote_char :: "char \<Rightarrow> string" where
  "quote_char c =
     (let n = of_char c :: nat; bs = char_of (92 :: nat) in
      if n = 34 \<or> n = 92 then [bs, c]
      else if n = 7 then [bs, CHR ''a''] else if n = 8 then [bs, CHR ''b'']
      else if n = 9 then [bs, CHR ''t''] else if n = 10 then [bs, CHR ''n'']
      else if n = 11 then [bs, CHR ''v''] else if n = 12 then [bs, CHR ''f'']
      else if n = 13 then [bs, CHR ''r'']
      else if n < 32 \<or> n = 127 then [bs, CHR ''x'', hex_digit (n div 16), hex_digit (n mod 16)]
      else [c])"

definition strconv_Quote :: "string \<Rightarrow> string" where
  "strconv_Quote s = CHR 0x22 # concat (map quote_char s) @ [CHR 0x22]"

text \<open>\<open>%f\<close>: six digits behind the point, the exact value rounded to nearest, ties to even.\<close>

definition pad_left :: "nat \<Rightarrow> string \<Rightarrow> string" where
  "pad_left k s = replicate (k - length s) (CHR ''0'') @ s"

fun format_f :: "fp \<Rightarrow> string" where
  "format_f NaN = ''NaN''"
| "format_f (Inf s) = (if s then ''-Inf'' else ''+Inf'')"
| "format_f (Fin s m) =
     (let n = nat (round_even (m * 1000000)) in
      (if s then ''-'' else '''') @ decimal (n div 1000000) @ ''.'' @ pad_left 6 (decimal (n mod 1000000)))"

fun render :: "char \<Rightarrow> fmt_arg \<Rightarrow> string" where
  "render v (FStr s) = (if v = CHR ''q'' then strconv_Quote s else s)"
| "render v (FInt i) = strconv_Itoa i"
| "render v (FFloat x) = format_f x"

fun fmt_Sprintf :: "string \<Rightarrow> fmt_arg list \<Rightarrow> string" where
  "fmt_Sprintf [] as = []"
| "fmt_Sprintf [c] as = [c]"
| "fmt_Sprintf (c # v # f) as =
     (if c = CHR ''%'' then
        (case as of [] \<Rightarrow> c # v # fmt_Sprintf f [] | a # as' \<Rightarrow> render v a @ fmt_Sprintf f as')
      else c # fmt_Sprintf (v # f) as)"

section \<open>Errors\<close>

text \<open>
  A Go error: the sentinel \<open>sql.ErrNoRows\<close>, \<open>errors.New(text)\<close> (also the form in which errors
  of code outside the repository arrive), \<open>fmt.Errorf\<close> with a format and its arguments, and
  \<open>fmt.Errorf\<close> whose last argument wraps another error with \<open>%w\<close>. The comparison
  \<open>err == sql.ErrNoRows\<close> of the source is equality with \<open>ErrNoRows\<close>.
\<close>

datatype gerror =
    ErrNoRows
  | ErrNew string
  | ErrFmt string "fmt_arg list"
  | ErrWrap string "fmt_arg list" gerror

primrec error_text :: "gerror \<Rightarrow> string" where
  "error_text ErrNoRows = ''sql: no rows in result set''"
| "error_text (ErrNew s) = s"
| "error_text (ErrFmt f as) = fmt_Sprintf f as"
| "error_text (ErrWrap f as e) = fmt_Sprintf f (as @ [FStr (error_text e)])"

type_synonym 'a result = "(gerror, 'a) outcome"

end
