(* ===== verification/Chunker_Fixed.thy ===== *)
theory Chunker_Fixed
  imports Go_Strings
begin

text \<open>
  The fixed-size chunker of \<open>internal/chunker/chunker.go\<close>. Its loop may run for ever when
  the overlap is not smaller than the chunk size, so the loop is a partial function into
  \<open>option\<close> (\<open>None\<close>: it does not return); the guards at the top of \<open>Chunk\<close> exclude that,
  which is the first thing proved. The result is then compared with a closed form.
\<close>

section \<open>The code\<close>

text \<open>The three guards with which every \<open>Chunk\<close> method starts. The size is positive where it
  is halved, so Go's division and \<open>div\<close> agree.\<close>

definition normalizeParams :: "int \<Rightarrow> int \<Rightarrow> int \<times> int" where
  "normalizeParams sz overlap =
     (let sz = (if sz \<le> 0 then 500 else sz);
          overlap = (if overlap < 0 then 0 else overlap);
          overlap = (if overlap \<ge> sz then sz div 2 else overlap)
      in (sz, overlap))"

partial_function (option) fixedLoop :: "string \<Rightarrow> int \<Rightarrow> int \<Rightarrow> int \<Rightarrow> string list \<Rightarrow> string list option" where
  "fixedLoop text sz overlap start chunks =
     (if start < int (length text) then
        let e = start + sz;
            e = (if e > int (length text) then int (length text) else e);
            chunks = chunks @ [slice text start e]
        in if e = int (length text) then Some chunks
           else fixedLoop text sz overlap (e - overlap) chunks
      else Some chunks)"

declare fixedLoop.simps [code]

definition FixedSizeChunker_Chunk :: "string \<Rightarrow> int \<Rightarrow> int \<Rightarrow> string list option" where
  "FixedSizeChunker_Chunk text sz overlap =
     (case normalizeParams sz overlap of
        (sz, overlap) \<Rightarrow>
          (if length text = 0 then Some [] else fixedLoop text sz overlap 0 []))"

section \<open>Parameters\<close>

lemma normalizeParams_bounds:
  "normalizeParams sz overlap = (s, ov) \<Longrightarrow> 0 < s \<and> 0 \<le> ov \<and> ov < s"
  by (auto simp: normalizeParams_def Let_def split: if_splits)

lemma normalizeParams_id [simp]:
  "0 < s \<Longrightarrow> 0 \<le> ov \<Longrightarrow> ov < s \<Longrightarrow> normalizeParams s ov = (s, ov)"
  by (simp add: normalizeParams_def)

lemma normalizeParams_cases:
  obtains s ov where "normalizeParams sz overlap = (int s, int ov)" and "ov < s"
proof -
  obtain a b where ab: "normalizeParams sz overlap = (a, b)" by fastforce
  then have "0 < a \<and> 0 \<le> b \<and> b < a" by (rule normalizeParams_bounds)
  then show ?thesis using ab that [of "nat a" "nat b"] by simp
qed

section \<open>The closed form\<close>

text \<open>
  With size \<open>s\<close> and overlap \<open>ov\<close> the chunks start at the multiples of \<open>s - ov\<close>, and there are
  just enough of them for the last one to reach the end of the text.
\<close>

definition fixed_count :: "nat \<Rightarrow> nat \<Rightarrow> nat \<Rightarrow> nat" where
  "fixed_count s ov n = (if n = 0 then 0 else Suc ((n - s + (s - ov) - 1) div (s - ov)))"

definition fixed_chunks :: "nat \<Rightarrow> nat \<Rightarrow> string \<Rightarrow> string list" where
  "fixed_chunks s ov text =
     map (\<lambda>i. take s (drop (i * (s - ov)) text)) [0 ..< fixed_count s ov (length text)]"

lemma fixed_count_pos: "0 < n \<Longrightarrow> 0 < fixed_count s ov n"
  by (simp add: fixed_count_def)

lemma ceil_div_bounds:
  fixes x step :: nat
  assumes "0 < step"
  shows "x \<le> ((x + step - 1) div step) * step" and "((x + step - 1) div step) * step < x + step"
proof -
  have "(x + step - 1) div step * step + (x + step - 1) mod step = x + step - 1" by simp
  moreover have "(x + step - 1) mod step < step" using assms by simp
  ultimately show "x \<le> ((x + step - 1) div step) * step"
    and "((x + step - 1) div step) * step < x + step"
    using assms by linarith+
qed

text \<open>A chunk reaches the end of the text exactly when it is the last one.\<close>

lemma fixed_last:
  assumes "ov < s" and "0 < n" and "i < fixed_count s ov n"
  shows "n \<le> i * (s - ov) + s \<longleftrightarrow> Suc i = fixed_count s ov n" and "i * (s - ov) < n"
proof -
  let ?step = "s - ov" and ?k = "(n - s + (s - ov) - 1) div (s - ov)"
  have step: "0 < ?step" using assms(1) by simp
  note b = ceil_div_bounds [OF step, of "n - s"]
  have c: "fixed_count s ov n = Suc ?k" using assms(2) by (simp add: fixed_count_def)
  have ik: "i \<le> ?k" using assms(3) unfolding c by (simp only: less_Suc_eq_le)
  then have le: "i * ?step \<le> ?k * ?step" by (rule mult_le_mono1)
  show "i * ?step < n"
  proof (cases "n \<le> s")
    case True
    then have "?k = 0" using step by simp
    then show ?thesis using ik assms(2) by simp
  next
    case False
    then show ?thesis using le b(2) assms(1) by linarith
  qed
  show "n \<le> i * ?step + s \<longleftrightarrow> Suc i = fixed_count s ov n"
  proof
    assume "n \<le> i * ?step + s"
    then have "n - s \<le> i * ?step" by simp
    show "Suc i = fixed_count s ov n"
    proof (rule ccontr)
      assume "Suc i \<noteq> fixed_count s ov n"
      then have "Suc i \<le> ?k" using ik c by simp
      then have "i * ?step + ?step \<le> ?k * ?step"
        by (metis add.commute mult_Suc mult_le_mono1)
      with b(2) \<open>n - s \<le> i * ?step\<close> show False by linarith
    qed
  next
    assume "Suc i = fixed_count s ov n"
    then have "i = ?k" using c by simp
    show "n \<le> i * ?step + s" using b(1) unfolding \<open>i = ?k\<close> by linarith
  qed
qed

lemma fixedLoop_closed:
  assumes "ov < s" and "text \<noteq> []" and "i < fixed_count s ov (length text)"
  shows "fixedLoop text (int s) (int ov) (int (i * (s - ov))) acc =
         Some (acc @ map (\<lambda>i. take s (drop (i * (s - ov)) text)) [i ..< fixed_count s ov (length text)])"
  using assms(3)
proof (induction "fixed_count s ov (length text) - i" arbitrary: i acc)
  case 0
  then show ?case by simp
next
  case (Suc m)
  let ?n = "length text" and ?c = "fixed_count s ov (length text)" and ?a = "i * (s - ov)"
  have n: "0 < ?n" using assms(2) by simp
  note last = fixed_last [OF assms(1) n Suc.prems]
  have upt: "[i ..< ?c] = i # [Suc i ..< ?c]" using Suc.prems by (rule upt_conv_Cons)
  show ?case
  proof (cases "Suc i = ?c")
    case True
    then have "?n \<le> ?a + s" using last(1) by simp
    then have "(if int ?a + int s > int ?n then int ?n else int ?a + int s) = int ?n"
      by (auto simp del: of_nat_mult of_nat_diff)
    moreover have "slice text (int ?a) (int ?n) = take s (drop ?a text)"
      using \<open>?n \<le> ?a + s\<close> by (simp only: slice_nat) simp
    ultimately show ?thesis
      using last(2) True by (subst fixedLoop.simps) (simp add: upt Let_def del: of_nat_mult of_nat_diff)
  next
    case False
    then have lt: "?a + s < ?n" using last(1) by simp
    have ci: "Suc i < ?c" using Suc.prems False by simp
    have nxt: "int ?a + int s - int ov = int (Suc i * (s - ov))" using assms(1) by simp
    have sl: "slice text (int ?a) (int ?a + int s) = take s (drop ?a text)"
      using slice_nat [of "text" ?a "?a + s"] by simp
    have m: "m = ?c - Suc i" using Suc.hyps(2) by simp
    note IH = Suc.hyps(1) [OF m ci, of "acc @ [take s (drop ?a text)]"]
    have "fixedLoop text (int s) (int ov) (int ?a) acc =
          fixedLoop text (int s) (int ov) (int ?a + int s - int ov) (acc @ [take s (drop ?a text)])"
      using lt sl by (subst fixedLoop.simps) (simp add: Let_def del: of_nat_mult of_nat_diff)
    also have "\<dots> = fixedLoop text (int s) (int ov) (int (Suc i * (s - ov))) (acc @ [take s (drop ?a text)])"
      by (simp only: nxt)
    also note IH
    finally show ?thesis by (simp add: upt)
  qed
qed

lemma fixed_chunks_Nil [simp]: "fixed_chunks s ov [] = []"
  by (simp add: fixed_chunks_def fixed_count_def)

lemma Fixed_closed:
  assumes "normalizeParams sz overlap = (int s, int ov)" and "ov < s"
  shows "FixedSizeChunker_Chunk text sz overlap = Some (fixed_chunks s ov text)"
proof (cases "text = []")
  case True
  then show ?thesis using assms(1) by (simp add: FixedSizeChunker_Chunk_def)
next
  case False
  then have "0 < fixed_count s ov (length text)" by (simp add: fixed_count_pos)
  from fixedLoop_closed [OF assms(2) False this, of "[]"] False show ?thesis
    by (simp add: FixedSizeChunker_Chunk_def assms(1) fixed_chunks_def)
qed

section \<open>Consequences\<close>

lemma fixed_chunk_nth:
  "i < length (fixed_chunks s ov text) \<Longrightarrow> fixed_chunks s ov text ! i = take s (drop (i * (s - ov)) text)"
  by (simp add: fixed_chunks_def)

lemma length_fixed_chunks [simp]: "length (fixed_chunks s ov text) = fixed_count s ov (length text)"
  by (simp add: fixed_chunks_def)

text \<open>Sizes: no chunk is longer than the limit or empty, and all but the last have its length.\<close>

lemma fixed_chunk_sizes:
  assumes "ov < s" and "i < fixed_count s ov (length text)"
  shows "fixed_chunks s ov text ! i \<noteq> []"
    and "length (fixed_chunks s ov text ! i) \<le> s"
    and "Suc i < fixed_count s ov (length text) \<Longrightarrow> length (fixed_chunks s ov text ! i) = s"
proof -
  have n: "0 < length text" using assms(2) by (auto simp: fixed_count_def split: if_splits)
  note last = fixed_last [OF assms(1) n assms(2)]
  have nth: "fixed_chunks s ov text ! i = take s (drop (i * (s - ov)) text)"
    using assms(2) by (simp add: fixed_chunk_nth)
  show "fixed_chunks s ov text ! i \<noteq> []" using last(2) assms(1) by (simp add: nth)
  show "length (fixed_chunks s ov text ! i) \<le> s" by (simp add: nth)
  show "length (fixed_chunks s ov text ! i) = s" if "Suc i < fixed_count s ov (length text)"
    using last(1) that by (auto simp: nth)
qed

text \<open>Overlap: a chunk starts with the last \<open>ov\<close> bytes of the chunk before it.\<close>

lemma fixed_chunk_overlap:
  assumes "ov < s" and "Suc i < fixed_count s ov (length text)"
  shows "take ov (fixed_chunks s ov text ! Suc i) = drop (s - ov) (fixed_chunks s ov text ! i)"
proof -
  have "drop (s - ov) (take s (drop (i * (s - ov)) text)) =
        take (s - (s - ov)) (drop (s - ov) (drop (i * (s - ov)) text))"
    by (rule drop_take)
  then show ?thesis
    using assms by (simp add: fixed_chunk_nth min_def add.commute)
qed

text \<open>The first chunks without their overlaps are a prefix of the text; all of them are the text.\<close>

lemma take_drop_append: "take a xs @ take b (drop a xs) = take (a + b) xs"
  by (simp add: take_add)

lemma fixed_prefix:
  assumes "ov < s" and "m \<le> fixed_count s ov (length text)" and "0 < m"
  shows "hd (fixed_chunks s ov text) @
           concat (map (drop ov) (tl (take m (fixed_chunks s ov text)))) =
         take ((m - 1) * (s - ov) + s) text"
  using assms(2,3)
proof (induction m)
  case 0
  then show ?case by simp
next
  case (Suc m)
  let ?cs = "fixed_chunks s ov text"
  have ne: "?cs \<noteq> []" using Suc.prems by (metis length_fixed_chunks less_le_trans list.size(3) not_less0 zero_less_Suc)
  show ?case
  proof (cases "m = 0")
    case True
    then show ?thesis using ne Suc.prems fixed_chunk_nth [of 0 s ov "text"]
      by (cases ?cs) auto
  next
    case False
    have m: "m < length ?cs" using Suc.prems by simp
    have nth: "?cs ! m = take s (drop (m * (s - ov)) text)" using m by (rule fixed_chunk_nth)
    have eq: "m * (s - ov) + ov = (m - 1) * (s - ov) + s"
      using assms(1) False by (cases m) auto
    have "drop ov (?cs ! m) = take (s - ov) (drop ((m - 1) * (s - ov) + s) text)"
      by (simp add: nth drop_take add.commute [of ov] eq)
    moreover have "tl (take (Suc m) ?cs) = tl (take m ?cs) @ [?cs ! m]"
      using m False ne by (simp add: take_Suc_conv_app_nth)
    ultimately have "hd ?cs @ concat (map (drop ov) (tl (take (Suc m) ?cs))) =
        take ((m - 1) * (s - ov) + s) text @ take (s - ov) (drop ((m - 1) * (s - ov) + s) text)"
      using Suc.IH Suc.prems False by simp
    also have "\<dots> = take ((m - 1) * (s - ov) + s + (s - ov)) text" by (rule take_drop_append)
    also have "(m - 1) * (s - ov) + s + (s - ov) = m * (s - ov) + s"
      using False by (cases m) auto
    finally show ?thesis by simp
  qed
qed

lemma fixed_reassembly:
  assumes "ov < s"
  shows "(case fixed_chunks s ov text of [] \<Rightarrow> [] | c # cs \<Rightarrow> c @ concat (map (drop ov) cs)) = text"
proof (cases "text = []")
  case True
  then show ?thesis by simp
next
  case False
  let ?c = "fixed_count s ov (length text)" and ?cs = "fixed_chunks s ov text"
  have c: "0 < ?c" using False by (simp add: fixed_count_pos)
  then have ne: "?cs \<noteq> []" by (metis length_fixed_chunks less_numeral_extra(3) list.size(3))
  have "length text \<le> (?c - 1) * (s - ov) + s"
    using fixed_last(1) [OF assms, of "length text" "?c - 1"] False c by simp
  then have "hd ?cs @ concat (map (drop ov) (tl ?cs)) = text"
    using fixed_prefix [OF assms order_refl c] by (simp add: take_all [of ?cs])
  then show ?thesis using ne by (cases ?cs) auto
qed

lemma fixed_subseq:
  assumes "ov < s"
  shows "subseq text (concat (fixed_chunks s ov text))"
proof (cases "fixed_chunks s ov text")
  case Nil
  then show ?thesis using fixed_reassembly [OF assms, of "text"] by simp
next
  case (Cons c cs)
  have "subseq (concat (map (drop ov) cs)) (concat cs)"
    by (rule subseq_concat_map) (rule subseq_drop)
  then have "subseq (c @ concat (map (drop ov) cs)) (c @ concat cs)"
    by (rule list_emb_append_mono [OF subseq_order.order_refl])
  then show ?thesis using fixed_reassembly [OF assms, of "text"] Cons by simp
qed

text \<open>Without overlap the chunks are the text cut into pieces.\<close>

lemma fixed_concat:
  assumes "0 < s"
  shows "concat (fixed_chunks s 0 text) = text"
proof -
  have "drop 0 = (\<lambda>x :: string. x)" by auto
  then show ?thesis using fixed_reassembly [OF assms, of "text"] by (simp split: list.splits)
qed

end
