(* ===== verification/Chunker_Sentence.thy ===== *)
theory Chunker_Sentence
  imports Chunker_Fixed
begin

text \<open>
  The sentence chunker of \<open>internal/chunker/chunker.go\<close>: the regular expression that finds
  the sentences, with Go's leftmost and greedy matching, and the loop that packs sentences
  into chunks. The lemmas show which strings the matcher accepts, that the chunks are the
  sentences in order, how long a chunk may be, and when no text is lost.
\<close>

section \<open>The regular expression\<close>

text \<open>
  \<^verbatim>\<open>[^.!?]+([.!?]+(\s+|$)|$)\<close>. The stops are ASCII characters and so are the characters of
  \<^verbatim>\<open>\s\<close> (tab, line feed, form feed, carriage return, space); a character outside ASCII and an
  invalid byte both match \<^verbatim>\<open>[^.!?]\<close>. Matching bytes is therefore matching characters.
\<close>

definition re_stop :: "char \<Rightarrow> bool" where
  "re_stop c = (c = CHR ''.'' \<or> c = CHR ''!'' \<or> c = CHR ''?'')"

definition re_space :: "char \<Rightarrow> bool" where
  "re_space c = ((of_char c :: nat) \<in> {9, 10, 12, 13, 32})"

lemma stop_not_space: "re_stop c \<Longrightarrow> \<not> re_space c"
  by (auto simp: re_stop_def re_space_def)

text \<open>
  The match at the start of \<open>s\<close>, with what follows it. The first group cannot give back
  characters with success: behind a shorter run stands a character that is no stop and not
  the end of the text. The same holds for the stops, so greedy matching needs no backtracking.
\<close>

definition sentence_at :: "string \<Rightarrow> (string \<times> string) option" where
  "sentence_at s =
     (let a = takeWhile (\<lambda>c. \<not> re_stop c) s; s1 = dropWhile (\<lambda>c. \<not> re_stop c) s;
          p = takeWhile re_stop s1; s2 = dropWhile re_stop s1;
          w = takeWhile re_space s2; s3 = dropWhile re_space s2 in
      if a = [] then None
      else if p = [] then Some (a, s1)
      else if w \<noteq> [] \<or> s2 = [] then Some (a @ p @ w, s3)
      else None)"

lemma sentence_at_decomp:
  assumes "sentence_at s = Some (m, r)"
  shows "\<exists>a p w. s = a @ p @ w @ r \<and> m = a @ p @ w \<and> a \<noteq> [] \<and> (\<forall>c\<in>set a. \<not> re_stop c) \<and>
           (\<forall>c\<in>set p. re_stop c) \<and> (\<forall>c\<in>set w. re_space c) \<and>
           (if p = [] then w = [] \<and> r = [] else w \<noteq> [] \<or> r = [])"
proof -
  obtain a s1 where a: "takeWhile (\<lambda>c. \<not> re_stop c) s = a" "dropWhile (\<lambda>c. \<not> re_stop c) s = s1" by blast
  obtain p s2 where p: "takeWhile re_stop s1 = p" "dropWhile re_stop s1 = s2" by blast
  obtain w s3 where w: "takeWhile re_space s2 = w" "dropWhile re_space s2 = s3" by blast
  have s: "s = a @ s1" "s1 = p @ s2" "s2 = w @ s3"
    using a p w takeWhile_dropWhile_id by metis+
  have sets: "\<forall>c\<in>set a. \<not> re_stop c" "\<forall>c\<in>set p. re_stop c" "\<forall>c\<in>set w. re_space c"
    using a(1) p(1) w(1) by (auto dest: set_takeWhileD)
  have stop: "s1 = [] \<or> re_stop (hd s1)"
    using a(2) hd_dropWhile [of "\<lambda>c. \<not> re_stop c" s] by (metis dropWhile_eq_Nil_conv)
  have "p = [] \<Longrightarrow> s1 = []" using stop p(1) by (cases s1) auto
  moreover have "a \<noteq> []" and "(p = [] \<and> m = a \<and> r = s1) \<or> (p \<noteq> [] \<and> m = a @ p @ w \<and> r = s3 \<and> (w \<noteq> [] \<or> s2 = []))"
    using assms by (auto simp: sentence_at_def Let_def a p w split: if_splits)
  ultimately show ?thesis using s sets
    by (intro exI [of _ a] exI [of _ p] exI [of _ w]) auto
qed

lemma sentence_at_split: "sentence_at s = Some (m, r) \<Longrightarrow> s = m @ r"
  by (auto dest: sentence_at_decomp)

lemma sentence_at_shorter: "sentence_at s = Some (m, r) \<Longrightarrow> length r < length s"
  by (auto dest!: sentence_at_decomp)

text \<open>\<open>re.FindAllString(text, -1)\<close>: where there is no match, the search moves on by one byte.\<close>

function FindAllString :: "string \<Rightarrow> string list" where
  "FindAllString s =
     (case sentence_at s of
        Some (m, r) \<Rightarrow> m # FindAllString r
      | None \<Rightarrow> (case s of [] \<Rightarrow> [] | c # cs \<Rightarrow> FindAllString cs))"
  by pat_completeness auto
termination
  by (relation "measure length") (auto dest: sentence_at_shorter)

declare FindAllString.simps [simp del]

section \<open>The chunker\<close>

text \<open>The loop over the matches; its state is the list of finished chunks and the builder.\<close>

fun sentenceLoop :: "int \<Rightarrow> string list \<Rightarrow> string list \<Rightarrow> string \<Rightarrow> string list \<times> string" where
  "sentenceLoop sz [] chunks cur = (chunks, cur)"
| "sentenceLoop sz (m # ms) chunks cur =
     (let sentence = strings_TrimSpace m in
      if sentence = [] then sentenceLoop sz ms chunks cur
      else
        let (chunks, cur) =
              (if int (length cur) + int (length sentence) > sz \<and> length cur > 0
               then (chunks @ [cur], []) else (chunks, cur));
            cur = (if length cur > 0 then cur @ '' '' else cur)
        in sentenceLoop sz ms chunks (cur @ sentence))"

definition SentenceChunker_Chunk :: "string \<Rightarrow> int \<Rightarrow> int \<Rightarrow> string list" where
  "SentenceChunker_Chunk text sz overlap =
     (case normalizeParams sz overlap of
        (sz, overlap) \<Rightarrow>
          (let matches = FindAllString text in
           if matches = [] then (if length text > 0 then [text] else [])
           else
             let (chunks, cur) = sentenceLoop sz matches [] [] in
             if length cur > 0 then chunks @ [cur] else chunks))"

section \<open>The matcher\<close>

text \<open>
  What the expression accepts at the start of \<open>m @ r\<close>, read off its text: a run of other
  characters, then either stops followed by white space or by the end, or the end.
\<close>

definition re_accepts :: "string \<Rightarrow> string \<Rightarrow> bool" where
  "re_accepts m r \<longleftrightarrow>
     (\<exists>a p w. m = a @ p @ w \<and> a \<noteq> [] \<and> (\<forall>c\<in>set a. \<not> re_stop c) \<and>
        (\<forall>c\<in>set p. re_stop c) \<and> (\<forall>c\<in>set w. re_space c) \<and>
        (if p = [] then w = [] \<and> r = [] else w \<noteq> [] \<or> r = []))"

lemma sentence_at_accepts:
  assumes "sentence_at s = Some (m, r)"
  shows "re_accepts m r"
proof -
  from sentence_at_decomp [OF assms] obtain a p w where "m = a @ p @ w \<and> a \<noteq> [] \<and>
      (\<forall>c\<in>set a. \<not> re_stop c) \<and> (\<forall>c\<in>set p. re_stop c) \<and> (\<forall>c\<in>set w. re_space c) \<and>
      (if p = [] then w = [] \<and> r = [] else w \<noteq> [] \<or> r = [])" by metis
  then show ?thesis unfolding re_accepts_def by blast
qed

lemma span_append:
  assumes "\<forall>c\<in>set a. P c" and "r = [] \<or> \<not> P (hd r)"
  shows "takeWhile P (a @ r) = a" and "dropWhile P (a @ r) = r"
  using assms by (cases r; simp add: takeWhile_append dropWhile_append)+

lemma sentence_at_complete:
  assumes "re_accepts m r"
  shows "\<exists>m' r'. sentence_at (m @ r) = Some (m', r') \<and> prefix m m'"
proof -
  from assms obtain a p w where m: "m = a @ p @ w" and a: "a \<noteq> []"
    and na: "\<forall>c\<in>set a. \<not> re_stop c" and sp: "\<forall>c\<in>set p. re_stop c" and sw: "\<forall>c\<in>set w. re_space c"
    and fin: "if p = [] then w = [] \<and> r = [] else w \<noteq> [] \<or> r = []"
    unfolding re_accepts_def by blast
  have "p @ w @ r = [] \<or> re_stop (hd (p @ w @ r))"
    using sp fin by (cases p) auto
  then have 1: "takeWhile (\<lambda>c. \<not> re_stop c) (a @ p @ w @ r) = a"
    "dropWhile (\<lambda>c. \<not> re_stop c) (a @ p @ w @ r) = p @ w @ r"
    using span_append [of a "\<lambda>c. \<not> re_stop c" "p @ w @ r"] na by auto
  show ?thesis
  proof (cases "p = []")
    case True
    then have e: "p = []" "w = []" "r = []" using fin by auto
    have t: "takeWhile (\<lambda>c. \<not> re_stop c) a = a" and d: "dropWhile (\<lambda>c. \<not> re_stop c) a = []"
      using na by (auto simp: takeWhile_eq_all_conv)
    have "sentence_at (m @ r) = Some (a, [])"
      unfolding sentence_at_def Let_def m e append_Nil append_Nil2 t d by (simp add: a)
    then show ?thesis by (simp add: m e)
  next
    case False
    have "w @ r = [] \<or> \<not> re_stop (hd (w @ r))"
      using False fin sw stop_not_space by (cases w) auto
    then have 2: "takeWhile re_stop (p @ w @ r) = p" "dropWhile re_stop (p @ w @ r) = w @ r"
      using span_append [of p re_stop "w @ r"] sp by auto
    have "takeWhile re_space (w @ r) = w @ takeWhile re_space r"
      using sw by (simp add: takeWhile_append)
    then have "sentence_at (m @ r) = Some (a @ p @ w @ takeWhile re_space r, dropWhile re_space (w @ r))"
      using 1 2 a False fin unfolding m by (auto simp: sentence_at_def)
    then show ?thesis by (simp add: m)
  qed
qed

lemma FindAllString_subseq: "subseq (concat (FindAllString s)) s"
proof (induction s rule: FindAllString.induct)
  case (1 s)
  show ?case
  proof (cases "sentence_at s")
    case None
    show ?thesis
    proof (cases s)
      case Nil
      then show ?thesis using None by (simp add: FindAllString.simps [of "[]"])
    next
      case (Cons c cs)
      then have "subseq (concat (FindAllString cs)) cs" using "1.IH" None by simp
      then show ?thesis using None Cons by (subst FindAllString.simps) auto
    qed
  next
    case (Some x)
    obtain m r where x: "x = (m, r)" by fastforce
    then have "subseq (concat (FindAllString r)) r" using "1.IH" Some by simp
    moreover have "s = m @ r" using Some x sentence_at_split by blast
    ultimately show ?thesis
      using Some x by (subst FindAllString.simps) (simp add: list_emb_append_mono)
  qed
qed

text \<open>Ordinary sentences: a start that is no space, stops, white space.\<close>

definition is_sentence :: "string \<Rightarrow> bool" where
  "is_sentence s \<longleftrightarrow>
     (\<exists>a p w. s = a @ p @ w \<and> a \<noteq> [] \<and> (\<forall>c\<in>set a. \<not> re_stop c) \<and> \<not> re_space (hd a) \<and>
        p \<noteq> [] \<and> (\<forall>c\<in>set p. re_stop c) \<and> w \<noteq> [] \<and> (\<forall>c\<in>set w. re_space c))"

lemma sentence_at_sentence:
  assumes "is_sentence s" and "r = [] \<or> \<not> re_space (hd r)"
  shows "sentence_at (s @ r) = Some (s, r)"
proof -
  from assms(1) obtain a p w where s: "s = a @ p @ w" and a: "a \<noteq> []"
    and na: "\<forall>c\<in>set a. \<not> re_stop c" and p: "p \<noteq> []" and sp: "\<forall>c\<in>set p. re_stop c"
    and w: "w \<noteq> []" and sw: "\<forall>c\<in>set w. re_space c"
    unfolding is_sentence_def by blast
  have "re_stop (hd (p @ w @ r))" and "\<not> re_stop (hd (w @ r))"
    using p sp w sw stop_not_space by (cases p; cases w; auto)+
  then show ?thesis
    using span_append [of a "\<lambda>c. \<not> re_stop c" "p @ w @ r"] span_append [of p re_stop "w @ r"]
      span_append [of w re_space r] na sp sw assms(2) a p w
    by (simp add: sentence_at_def s)
qed

lemma is_sentence_hd: "is_sentence s \<Longrightarrow> s \<noteq> [] \<and> \<not> re_space (hd s)"
  by (auto simp: is_sentence_def)

lemma FindAllString_sentences:
  "(\<And>s. s \<in> set ss \<Longrightarrow> is_sentence s) \<Longrightarrow> FindAllString (concat ss) = ss"
proof (induction ss)
  case Nil
  show ?case by (subst FindAllString.simps) (simp add: sentence_at_def)
next
  case (Cons s ss)
  have "concat ss = [] \<or> \<not> re_space (hd (concat ss))"
    using Cons.prems is_sentence_hd by (cases ss) auto
  then have "sentence_at (s @ concat ss) = Some (s, concat ss)"
    using Cons.prems by (intro sentence_at_sentence) auto
  then show ?case using Cons by (subst FindAllString.simps) simp
qed

section \<open>The loop\<close>

text \<open>The sentences the loop packs: the matches trimmed, without the empty ones.\<close>

definition sentences :: "string list \<Rightarrow> string list" where
  "sentences ms = filter (\<lambda>s. s \<noteq> []) (map strings_TrimSpace ms)"

lemma sentences_simps [simp]:
  "sentences [] = []"
  "sentences (m # ms) =
     (if strings_TrimSpace m = [] then sentences ms else strings_TrimSpace m # sentences ms)"
  by (simp_all add: sentences_def)

lemma sentences_not_Nil: "s \<in> set (sentences ms) \<Longrightarrow> s \<noteq> []"
  by (auto simp: sentences_def)

abbreviation join_space :: "string list \<Rightarrow> string" where
  "join_space ss \<equiv> strings_Join ss '' ''"

lemma join_space_eq_Nil: "(\<And>s. s \<in> set g \<Longrightarrow> s \<noteq> []) \<Longrightarrow> join_space g = [] \<longleftrightarrow> g = []"
  by (cases g rule: remdups_adj.cases) auto

text \<open>The finished chunks and the builder are groups of consecutive sentences, joined.\<close>

lemma sentenceLoop_groups:
  assumes "\<And>s. s \<in> set g \<Longrightarrow> s \<noteq> []" and "[] \<notin> set gs"
  shows "\<exists>gs' g'. sentenceLoop sz ms (map join_space gs) (join_space g) = (map join_space gs', join_space g') \<and>
           concat gs' @ g' = concat gs @ g @ sentences ms \<and> [] \<notin> set gs' \<and> (\<forall>s\<in>set g'. s \<noteq> [])"
  using assms
proof (induction ms arbitrary: gs g)
  case Nil
  then show ?case by (intro exI [of _ gs] exI [of _ g]) auto
next
  case (Cons m ms)
  let ?s = "strings_TrimSpace m"
  have nil: "join_space g = [] \<longleftrightarrow> g = []" using Cons.prems(1) by (rule join_space_eq_Nil)
  consider (blank) "?s = []"
    | (flush) "?s \<noteq> []" "int (length (join_space g)) + int (length ?s) > sz" "g \<noteq> []"
    | (grow) "?s \<noteq> []" "\<not> (int (length (join_space g)) + int (length ?s) > sz \<and> g \<noteq> [])"
    by blast
  then show ?case
  proof cases
    case blank
    then show ?thesis using Cons.IH [OF Cons.prems] by simp
  next
    case flush
    then have "sentenceLoop sz (m # ms) (map join_space gs) (join_space g) =
        sentenceLoop sz ms (map join_space (gs @ [g])) (join_space [?s])"
      using nil by (simp add: Let_def)
    moreover have "\<forall>s\<in>set [?s]. s \<noteq> []" "[] \<notin> set (gs @ [g])" using flush Cons.prems(2) by auto
    ultimately show ?thesis using Cons.IH [of "[?s]" "gs @ [g]"] flush by simp
  next
    case grow
    then have "sentenceLoop sz (m # ms) (map join_space gs) (join_space g) =
        sentenceLoop sz ms (map join_space gs) (join_space (g @ [?s]))"
      using nil by (auto simp: Let_def Join_snoc)
    moreover have "\<And>s. s \<in> set (g @ [?s]) \<Longrightarrow> s \<noteq> []" using grow Cons.prems(1) by auto
    ultimately show ?thesis using Cons.IH [of "g @ [?s]" gs] Cons.prems(2) grow by auto
  qed
qed

text \<open>A chunk is a sentence of its own or at most one byte longer than the limit.\<close>

definition fits :: "int \<Rightarrow> string list \<Rightarrow> string \<Rightarrow> bool" where
  "fits sz ms c \<longleftrightarrow> c \<in> set (sentences ms) \<or> int (length c) \<le> sz + 1"

lemma sentenceLoop_fits:
  assumes "sentenceLoop sz ms chunks cur = (chunks', cur')"
    and "\<forall>c\<in>set chunks. fits sz all c" and "fits sz all cur"
    and "set (sentences ms) \<subseteq> set (sentences all)"
  shows "(\<forall>c\<in>set chunks'. fits sz all c) \<and> fits sz all cur'"
  using assms
proof (induction ms arbitrary: chunks cur)
  case Nil
  then show ?case by auto
next
  case (Cons m ms)
  let ?s = "strings_TrimSpace m"
  have sub: "set (sentences ms) \<subseteq> set (sentences all)"
    using Cons.prems(4) by (auto split: if_splits)
  show ?case
  proof (cases "?s = []")
    case True
    then show ?thesis using Cons.IH [of chunks cur] Cons.prems sub by simp
  next
    case False
    let ?big = "int (length cur) + int (length ?s) > sz \<and> length cur > 0"
    let ?chunks = "if ?big then chunks @ [cur] else chunks"
    let ?cur = "if ?big then ?s else (if length cur > 0 then cur @ '' '' else cur) @ ?s"
    have run: "sentenceLoop sz ms ?chunks ?cur = (chunks', cur')"
      using Cons.prems(1) False by (auto simp: Let_def split: if_splits)
    have in_all: "?s \<in> set (sentences all)" using Cons.prems(4) False by auto
    have fc: "\<forall>c\<in>set ?chunks. fits sz all c" using Cons.prems(2,3) by auto
    have fb: "fits sz all ?cur" using in_all by (auto simp: fits_def)
    show ?thesis by (rule Cons.IH [OF run fc fb sub])
  qed
qed

section \<open>Facts about the chunker\<close>

lemma Sentence_groups:
  assumes "FindAllString text \<noteq> []"
  shows "\<exists>gs. SentenceChunker_Chunk text sz ov = map join_space gs \<and>
           concat gs = sentences (FindAllString text) \<and> [] \<notin> set gs"
proof -
  obtain s o' where n: "normalizeParams sz ov = (s, o')" by fastforce
  obtain gs g where run: "sentenceLoop s (FindAllString text) [] [] = (map join_space gs, join_space g)"
    and c: "concat gs @ g = sentences (FindAllString text)" and gs: "[] \<notin> set gs" and g: "\<forall>x\<in>set g. x \<noteq> []"
    using sentenceLoop_groups [of "[]" "[]" s "FindAllString text"] by auto
  have "join_space g = [] \<longleftrightarrow> g = []" using g by (intro join_space_eq_Nil) auto
  then have "SentenceChunker_Chunk text sz ov = map join_space (if g = [] then gs else gs @ [g])"
    using assms n run by (auto simp: SentenceChunker_Chunk_def)
  moreover have "concat (if g = [] then gs else gs @ [g]) = sentences (FindAllString text)"
    and "[] \<notin> set (if g = [] then gs else gs @ [g])" using c gs by auto
  ultimately show ?thesis by blast
qed

lemma Sentence_fits:
  assumes "normalizeParams sz ov = (s, ov')" and "c \<in> set (SentenceChunker_Chunk text sz ov)"
    and "FindAllString text \<noteq> []"
  shows "fits s (FindAllString text) c"
proof -
  obtain chunks cur where run: "sentenceLoop s (FindAllString text) [] [] = (chunks, cur)" by fastforce
  have "0 < s" using normalizeParams_bounds [OF assms(1)] by simp
  then have "fits s (FindAllString text) []" by (simp add: fits_def)
  from sentenceLoop_fits [OF run _ this] have "\<forall>c\<in>set chunks. fits s (FindAllString text) c"
    and "fits s (FindAllString text) cur" by auto
  then show ?thesis using assms run
    by (auto simp: SentenceChunker_Chunk_def split: if_splits)
qed

lemma Sentence_overlap: "SentenceChunker_Chunk text sz ov = SentenceChunker_Chunk text sz ov'"
proof -
  obtain s a b where "normalizeParams sz ov = (s, a)" and "normalizeParams sz ov' = (s, b)"
    by (simp add: normalizeParams_def Let_def)
  then show ?thesis by (simp add: SentenceChunker_Chunk_def)
qed

end
