(* ===== verification/Chunker_Recursive.thy ===== *)
theory Chunker_Recursive
  imports Chunker_Fixed
begin

text \<open>
  The recursive character chunker of \<open>internal/chunker/chunker.go\<close>: \<open>mergeDocs\<close> packs pieces
  into chunks and keeps pieces for the overlap, \<open>splitText\<close> cuts a text at the coarsest
  separator it contains and goes on with finer ones inside the pieces that are too long.
  The lemmas show that it always returns, that it never loses or invents text, and, for
  texts without adjacent separators, how long a chunk may be.
\<close>

section \<open>The code\<close>

text \<open>The inner loop of \<open>mergeDocs\<close>: drop pieces from the front while too long for the overlap.\<close>

fun trimBlock :: "string \<Rightarrow> int \<Rightarrow> string list \<Rightarrow> int \<Rightarrow> string list \<times> int" where
  "trimBlock sep overlap [] currentLen = ([], currentLen)"
| "trimBlock sep overlap (removed # block) currentLen =
     (if currentLen > overlap
      then trimBlock sep overlap block (currentLen - (int (length removed) + int (length sep)))
      else (removed # block, currentLen))"

fun mergeLoop :: "string \<Rightarrow> int \<Rightarrow> int \<Rightarrow> string list \<Rightarrow> string list \<Rightarrow> string list \<Rightarrow> int \<Rightarrow> string list" where
  "mergeLoop sep sz overlap [] merged block currentLen =
     (if block \<noteq> [] then merged @ [strings_Join block sep] else merged)"
| "mergeLoop sep sz overlap (doc # docs) merged block currentLen =
     (let docLen = int (length doc);
          (merged, block, currentLen) =
            (if currentLen + docLen + int (length sep) > sz \<and> block \<noteq> []
             then (case trimBlock sep overlap block currentLen of
                     (block', currentLen') \<Rightarrow> (merged @ [strings_Join block sep], block', currentLen'))
             else (merged, block, currentLen));
          block = block @ [doc];
          currentLen = (if currentLen = 0 then docLen else currentLen + (docLen + int (length sep)))
      in mergeLoop sep sz overlap docs merged block currentLen)"

definition mergeDocs :: "string list \<Rightarrow> string \<Rightarrow> int \<Rightarrow> int \<Rightarrow> string list" where
  "mergeDocs docs sep sz overlap = mergeLoop sep sz overlap docs [] [] 0"

text \<open>The first separator that the text contains, with the separators behind it.\<close>

fun findSeparator :: "string \<Rightarrow> string list \<Rightarrow> string \<times> string list" where
  "findSeparator text [] = ([], [])"
| "findSeparator text (sep # seps) =
     (if strings_Contains text sep then (sep, seps) else findSeparator text seps)"

lemma findSeparator_spec:
  "findSeparator text seps = (sep, rest) \<Longrightarrow> sep \<noteq> [] \<Longrightarrow>
     sep \<in> set seps \<and> set rest \<subseteq> set seps \<and> length rest < length seps \<and> sublist sep text"
  by (induction seps) (auto simp: strings_Contains_sublist split: if_splits)

text \<open>\<open>splitText\<close>, and its loop over the pieces with the finished chunks and the pieces that wait.\<close>

function splitText :: "string \<Rightarrow> string list \<Rightarrow> int \<Rightarrow> int \<Rightarrow> string list option"
  and splitParts :: "string list \<Rightarrow> string \<Rightarrow> string list \<Rightarrow> int \<Rightarrow> int \<Rightarrow>
     string list \<Rightarrow> string list \<Rightarrow> string list option"
where
  "splitText text seps sz overlap =
     (if int (length text) \<le> sz then Some [text]
      else case findSeparator text seps of
        (separator, nextSeparators) \<Rightarrow>
          (if separator = [] then FixedSizeChunker_Chunk text sz overlap
           else splitParts (strings_Split text separator) separator nextSeparators sz overlap [] []))"
| "splitParts [] separator nextSeparators sz overlap finalChunks currentDocs =
     Some (if currentDocs \<noteq> [] then finalChunks @ mergeDocs currentDocs separator sz overlap
           else finalChunks)"
| "splitParts (part # parts) separator nextSeparators sz overlap finalChunks currentDocs =
     (if int (length part) > sz then
        (let finalChunks = (if currentDocs \<noteq> []
                            then finalChunks @ mergeDocs currentDocs separator sz overlap
                            else finalChunks)
         in case splitText part nextSeparators sz overlap of
              None \<Rightarrow> None
            | Some recursiveChunks \<Rightarrow>
                splitParts parts separator nextSeparators sz overlap (finalChunks @ recursiveChunks) [])
      else splitParts parts separator nextSeparators sz overlap finalChunks (currentDocs @ [part]))"
  by pat_completeness auto
termination
  by (relation "measures
       [\<lambda>x. case x of Inl (t, seps, _, _) \<Rightarrow> 2 * length seps | Inr (_, _, next, _) \<Rightarrow> 2 * length next + 1,
        \<lambda>x. case x of Inl _ \<Rightarrow> 0 | Inr (parts, _) \<Rightarrow> length parts]")
     (auto dest: findSeparator_spec [OF sym])

declare splitText.simps [simp del]

definition recursive_separators :: "string list" where
  "recursive_separators = [[CHR 0x0A, CHR 0x0A], [CHR 0x0A], '' '', []]"

definition RecursiveCharacterChunker_Chunk :: "string list \<Rightarrow> string \<Rightarrow> int \<Rightarrow> int \<Rightarrow> string list option" where
  "RecursiveCharacterChunker_Chunk separators text sz overlap =
     (case normalizeParams sz overlap of (sz, overlap) \<Rightarrow> splitText text separators sz overlap)"

section \<open>White space\<close>

text \<open>The characters the separators are made of, and the rest of a text.\<close>

definition is_sep_char :: "char \<Rightarrow> bool" where
  "is_sep_char c = (c = CHR 0x0A \<or> c = CHR 0x20)"

definition ink :: "string \<Rightarrow> string" where
  "ink s = filter (\<lambda>c. \<not> is_sep_char c) s"

definition blank :: "string \<Rightarrow> bool" where
  "blank s = (\<forall>c\<in>set s. is_sep_char c)"

lemma ink_simps [simp]:
  "ink [] = []" "ink (s @ t) = ink s @ ink t" "ink (concat ss) = concat (map ink ss)"
  by (simp_all add: ink_def [abs_def] filter_concat)

lemma ink_blank: "blank s \<Longrightarrow> ink s = []"
  by (auto simp: blank_def ink_def filter_empty_conv)

lemma ink_Join: "blank sep \<Longrightarrow> ink (strings_Join ds sep) = concat (map ink ds)"
proof (induction ds)
  case Nil
  then show ?case by simp
next
  case (Cons d ds)
  then show ?case by (cases ds) (auto simp: ink_blank)
qed

lemma blank_recursive_separators: "sep \<in> set recursive_separators \<Longrightarrow> blank sep"
  by (auto simp: recursive_separators_def blank_def is_sep_char_def)

lemma subseq_ink: "subseq s t \<Longrightarrow> subseq (ink s) (ink t)"
  unfolding ink_def by (rule subseq_filter)

lemma suffix_subseq_ink: "suffix B block \<Longrightarrow> subseq (concat (map ink B)) (concat (map ink block))"
  by (auto simp: suffix_def)

section \<open>Packing pieces\<close>

lemma trimBlock_suffix: "trimBlock sep ov block len = (block', len') \<Longrightarrow> suffix block' block"
proof (induction sep ov block len rule: trimBlock.induct)
  case (1 sep ov len)
  then show ?case by simp
next
  case (2 sep ov d ds len)
  then show ?case by (auto split: if_splits intro: suffix_ConsI)
qed

declare mergeLoop.simps(2) [simp del]

text \<open>One round of the loop: the block is flushed or not, and then grows by the next piece.\<close>

lemma mergeLoop_cases:
  obtains (flush) block' len' len'' where "block \<noteq> []" "len + int (length d) + int (length sep) > sz"
      "trimBlock sep ov block len = (block', len')"
      "len'' = (if len' = 0 then int (length d) else len' + (int (length d) + int (length sep)))"
      "mergeLoop sep sz ov (d # ds) merged block len =
       mergeLoop sep sz ov ds (merged @ [strings_Join block sep]) (block' @ [d]) len''"
    | (grow) len'' where "block = [] \<or> len + int (length d) + int (length sep) \<le> sz"
      "len'' = (if len = 0 then int (length d) else len + (int (length d) + int (length sep)))"
      "mergeLoop sep sz ov (d # ds) merged block len = mergeLoop sep sz ov ds merged (block @ [d]) len''"
proof (cases "len + int (length d) + int (length sep) > sz \<and> block \<noteq> []")
  case True
  obtain block' len' where t: "trimBlock sep ov block len = (block', len')" by fastforce
  show ?thesis by (rule flush [OF _ _ t refl]) (use True t in \<open>auto simp: Let_def mergeLoop.simps(2)\<close>)
next
  case False
  show ?thesis by (rule grow [OF _ refl]) (use False in \<open>auto simp: Let_def mergeLoop.simps(2)\<close>)
qed

text \<open>Nothing is lost, whatever the sizes and the overlap.\<close>

lemma mergeLoop_no_loss:
  assumes "blank sep" and "suffix B block"
  shows "subseq (ink (concat merged) @ ink (concat B) @ ink (concat ds))
                (ink (concat (mergeLoop sep sz ov ds merged block len)))"
  using assms(2)
proof (induction ds arbitrary: merged block len B)
  case Nil
  then show ?case
    using suffix_subseq_ink [OF Nil]
    by (auto simp: ink_Join [OF assms(1)] intro: list_emb_append_mono)
next
  case (Cons d ds)
  show ?case
  proof (cases rule: mergeLoop_cases [where block = block and len = len and d = d and sep = sep and sz = sz and ov = ov and ds = ds and merged = merged])
    case (flush block' len' len'')
    have "suffix [d] (block' @ [d])" by simp
    from Cons.IH [OF this, of "merged @ [strings_Join block sep]" len'']
    have IH: "subseq ((ink (concat merged) @ concat (map ink block)) @ ink d @ ink (concat ds))
        (ink (concat (mergeLoop sep sz ov (d # ds) merged block len)))"
      by (simp add: flush(5) ink_Join [OF assms(1)])
    have "subseq (ink (concat merged) @ ink (concat B)) (ink (concat merged) @ concat (map ink block))"
      using suffix_subseq_ink [OF Cons.prems] by (simp add: list_emb_append_mono)
    then have "subseq ((ink (concat merged) @ ink (concat B)) @ ink d @ ink (concat ds))
        ((ink (concat merged) @ concat (map ink block)) @ ink d @ ink (concat ds))"
      by (rule list_emb_append_mono) simp
    from subseq_order.order_trans [OF this IH] show ?thesis by simp
  next
    case (grow len'')
    have "suffix (B @ [d]) (block @ [d])" using Cons.prems by (auto simp: suffix_def)
    from Cons.IH [OF this, of merged len''] show ?thesis by (simp add: grow(3))
  qed
qed

lemma mergeDocs_no_loss:
  "blank sep \<Longrightarrow> subseq (ink (concat ds)) (ink (concat (mergeDocs ds sep sz ov)))"
  using mergeLoop_no_loss [of sep "[]" "[]" "[]" ds sz ov 0] by (simp add: mergeDocs_def)

text \<open>Nothing is invented: a chunk is a run of consecutive pieces, joined.\<close>

lemma sublist_Join_run: "sublist (strings_Join b sep) (strings_Join (a @ b @ c) sep)"
proof (cases "b = []")
  case False
  have "prefix (strings_Join b sep) (strings_Join (b @ c) sep)"
    using False by (cases "c = []") (simp_all add: Join_append)
  moreover have "suffix (strings_Join (b @ c) sep) (strings_Join (a @ b @ c) sep)"
    using False by (cases "a = []") (auto simp: Join_append suffix_def)
  ultimately show ?thesis
    by (meson sublist_order.order_trans suffix_imp_sublist prefix_imp_sublist)
qed simp


lemma mergeLoop_runs:
  assumes "c \<in> set (mergeLoop sep sz ov ds merged block len)" and "suffix block before"
  shows "c \<in> set merged \<or> (\<exists>a b d. before @ ds = a @ b @ d \<and> c = strings_Join b sep)"
  using assms
proof (induction ds arbitrary: merged block len before)
  case Nil
  then obtain a where "before = a @ block" by (auto simp: suffix_def)
  then have "\<exists>x b d. before @ [] = x @ b @ d \<and> strings_Join block sep = strings_Join b sep"
    by (intro exI [of _ a] exI [of _ block] exI [of _ "[]"]) simp
  then show ?case using Nil(1) by (auto split: if_splits)
next
  case (Cons d ds)
  obtain a where a: "before = a @ block" using Cons.prems(2) by (auto simp: suffix_def)
  show ?case
  proof (cases rule: mergeLoop_cases [where block = block and len = len and d = d and sep = sep
        and sz = sz and ov = ov and ds = ds and merged = merged])
    case (flush block' len' len'')
    have "suffix (block' @ [d]) (before @ [d])"
      using trimBlock_suffix [OF flush(3)] Cons.prems(2) by (auto simp: suffix_def)
    from Cons.IH [OF Cons.prems(1) [unfolded flush(5)] this]
    consider "c \<in> set merged" | "c = strings_Join block sep"
      | "\<exists>x y z. before @ d # ds = x @ y @ z \<and> c = strings_Join y sep" by auto
    then show ?thesis
    proof cases
      case 2
      then show ?thesis using a by (intro disjI2 exI [of _ a] exI [of _ block] exI [of _ "d # ds"]) simp
    qed auto
  next
    case (grow len'')
    have "suffix (block @ [d]) (before @ [d])" using Cons.prems(2) by (auto simp: suffix_def)
    from Cons.IH [OF Cons.prems(1) [unfolded grow(3)] this] show ?thesis by auto
  qed
qed

lemma mergeDocs_sublist: "c \<in> set (mergeDocs ds sep sz ov) \<Longrightarrow> sublist c (strings_Join ds sep)"
  using mergeLoop_runs [of c sep sz ov ds "[]" "[]" 0 "[]"] sublist_Join_run
  by (fastforce simp: mergeDocs_def)

subsection \<open>Pieces that are not empty\<close>

text \<open>
  The running length of the loop is the length of the block, but only when no piece is empty:
  an empty piece at the start leaves it at zero, so the separators that follow are not counted.
\<close>

definition tracks :: "string \<Rightarrow> string list \<Rightarrow> int \<Rightarrow> bool" where
  "tracks sep block len =
     (if block = [] then len = 0 \<or> len = - int (length sep) else len = int (length (strings_Join block sep)))"

lemma tracks_trimBlock:
  assumes "trimBlock sep ov block len = (block', len')" and "tracks sep block len"
  shows "tracks sep block' len' \<and> (block' \<noteq> [] \<longrightarrow> len' \<le> ov)"
  using assms
proof (induction sep ov block len rule: trimBlock.induct)
  case (1 sep ov len)
  then show ?case by simp
next
  case (2 sep ov d ds len)
  have "tracks sep ds (len - (int (length d) + int (length sep)))"
    using 2(3) by (cases "ds = []") (simp_all add: tracks_def)
  with 2 show ?case by (auto split: if_splits)
qed

lemma Join_length_pos: "ds \<noteq> [] \<Longrightarrow> [] \<notin> set ds \<Longrightarrow> 0 < length (strings_Join ds sep)"
  by (cases ds; cases "tl ds = []") auto

lemma tracks_grow:
  assumes "tracks sep block len" and "[] \<notin> set block"
  shows "tracks sep (block @ [d])
           (if len = 0 then int (length d) else len + (int (length d) + int (length sep)))"
proof (cases "block = []")
  case False
  then have "len \<noteq> 0" using assms Join_length_pos [of block sep] by (auto simp: tracks_def)
  then show ?thesis using assms False by (simp add: tracks_def Join_snoc)
qed (use assms in \<open>auto simp: tracks_def\<close>)

text \<open>How long a chunk of \<open>mergeDocs\<close> may be.\<close>

definition merge_bound :: "string \<Rightarrow> int \<Rightarrow> int \<Rightarrow> int" where
  "merge_bound sep sz ov = (if ov = 0 then sz else sz + ov + int (length sep))"

lemma mergeLoop_bound:
  assumes "\<And>d. d \<in> set ds \<Longrightarrow> d \<noteq> [] \<and> int (length d) \<le> sz" and "0 \<le> ov"
    and "tracks sep block len" and "[] \<notin> set block"
    and "int (length (strings_Join block sep)) \<le> merge_bound sep sz ov"
    and "\<And>c. c \<in> set merged \<Longrightarrow> int (length c) \<le> merge_bound sep sz ov"
    and "c \<in> set (mergeLoop sep sz ov ds merged block len)"
  shows "int (length c) \<le> merge_bound sep sz ov"
  using assms
proof (induction ds arbitrary: merged block len)
  case Nil
  then show ?case by (auto split: if_splits)
next
  case (Cons d ds)
  have d: "d \<noteq> []" "int (length d) \<le> sz" using Cons.prems(1) [of d] by auto
  show ?case
  proof (cases rule: mergeLoop_cases [where block = block and len = len and d = d and sep = sep
        and sz = sz and ov = ov and ds = ds and merged = merged])
    case (flush block' len' len'')
    have tr: "tracks sep block' len'" "block' \<noteq> [] \<longrightarrow> len' \<le> ov"
      using tracks_trimBlock [OF flush(3) Cons.prems(3)] by auto
    have ne: "[] \<notin> set block'" using trimBlock_suffix [OF flush(3)] Cons.prems(4)
      by (auto simp: suffix_def)
    have "int (length (strings_Join (block' @ [d]) sep)) \<le> merge_bound sep sz ov"
    proof (cases "block' = []")
      case True
      then show ?thesis using d Cons.prems(2) by (simp add: merge_bound_def)
    next
      case False
      then have "0 < length (strings_Join block' sep)" using ne by (rule Join_length_pos)
      then show ?thesis using tr False d
        by (cases "ov = 0") (auto simp: tracks_def Join_snoc merge_bound_def)
    qed
    then show ?thesis
      using Cons.prems(1,2,5,6,7) ne d tracks_grow [OF tr(1) ne, of d]
      by (intro Cons.IH [of "block' @ [d]" len'' "merged @ [strings_Join block sep]"])
         (auto simp: flush(4,5))
  next
    case (grow len'')
    have "int (length (strings_Join (block @ [d]) sep)) \<le> merge_bound sep sz ov"
    proof (cases "block = []")
      case True
      then show ?thesis using d Cons.prems(2) by (simp add: merge_bound_def)
    next
      case False
      then show ?thesis using grow(1) Cons.prems(2,3) by (simp add: tracks_def Join_snoc merge_bound_def)
    qed
    then show ?thesis
      using Cons.prems(1,2,4,6,7) d tracks_grow [OF Cons.prems(3,4), of d]
      by (intro Cons.IH [of "block @ [d]" len'' merged]) (auto simp: grow(2,3))
  qed
qed

lemma mergeDocs_bound:
  assumes "\<And>d. d \<in> set ds \<Longrightarrow> d \<noteq> [] \<and> int (length d) \<le> sz" and "0 \<le> ov" and "0 \<le> sz"
    and "c \<in> set (mergeDocs ds sep sz ov)"
  shows "int (length c) \<le> merge_bound sep sz ov"
  using assms mergeLoop_bound [of ds sz ov sep "[]" 0 "[]" c]
  by (auto simp: mergeDocs_def tracks_def merge_bound_def)

text \<open>Without overlap the chunks are the pieces, grouped: each piece is used once, in order.\<close>

lemma mergeLoop_partition:
  assumes "[] \<notin> set ds" and "tracks sep block len" and "[] \<notin> set block"
  shows "\<exists>gs. mergeLoop sep sz 0 ds merged block len = merged @ map (\<lambda>g. strings_Join g sep) gs \<and>
              concat gs = block @ ds \<and> [] \<notin> set gs"
  using assms
proof (induction ds arbitrary: merged block len)
  case Nil
  then show ?case by (cases "block = []") (auto intro!: exI [of _ "[]"] exI [of _ "[block]"])
next
  case (Cons d ds)
  show ?case
  proof (cases rule: mergeLoop_cases [where block = block and len = len and d = d and sep = sep
        and sz = sz and ov = 0 and ds = ds and merged = merged])
    case (flush block' len' len'')
    have tr: "tracks sep block' len'" "block' \<noteq> [] \<longrightarrow> len' \<le> 0"
      using tracks_trimBlock [OF flush(3) Cons.prems(2)] by auto
    have ne: "[] \<notin> set block'" using trimBlock_suffix [OF flush(3)] Cons.prems(3)
      by (auto simp: suffix_def)
    have "block' = []" using tr Join_length_pos [OF _ ne, of sep] by (auto simp: tracks_def)
    then have "tracks sep [d] len''" using tracks_grow [OF tr(1) ne, of d] flush(4) by simp
    from Cons.IH [OF _ this, of "merged @ [strings_Join block sep]"] Cons.prems(1)
    obtain gs where "mergeLoop sep sz 0 ds (merged @ [strings_Join block sep]) [d] len'' =
        (merged @ [strings_Join block sep]) @ map (\<lambda>g. strings_Join g sep) gs"
      and "concat gs = [d] @ ds" and "[] \<notin> set gs" by auto
    then show ?thesis using flush(1,5) \<open>block' = []\<close> by (intro exI [of _ "block # gs"]) simp
  next
    case (grow len'')
    from Cons.IH [of "block @ [d]" len'' merged] Cons.prems tracks_grow [OF Cons.prems(2,3), of d]
    show ?thesis by (auto simp: grow(2,3))
  qed
qed

lemma mergeDocs_partition:
  assumes "[] \<notin> set ds"
  shows "\<exists>gs. mergeDocs ds sep sz 0 = map (\<lambda>g. strings_Join g sep) gs \<and> concat gs = ds \<and> [] \<notin> set gs"
  using mergeLoop_partition [OF assms, of sep "[]" 0 sz "[]"] by (simp add: mergeDocs_def tracks_def)

lemma mergeDocs_ink:
  assumes "[] \<notin> set ds" and "blank sep"
  shows "ink (concat (mergeDocs ds sep sz 0)) = ink (concat ds)"
proof -
  from mergeDocs_partition [OF assms(1)] obtain gs
    where gs: "mergeDocs ds sep sz 0 = map (\<lambda>g. strings_Join g sep) gs" "concat gs = ds" by blast
  have "ink (concat (mergeDocs ds sep sz 0)) = concat (map (\<lambda>g. concat (map ink g)) gs)"
    by (simp add: gs(1) ink_Join [OF assms(2)] comp_def)
  also have "\<dots> = ink (concat (concat gs))" by (induction gs) simp_all
  finally show ?thesis by (simp add: gs(2))
qed

section \<open>Splitting\<close>

text \<open>It always returns: the loop of the fixed-size chunker is the only one that might not.\<close>

lemma splitText_total:
  "0 \<le> ov \<Longrightarrow> ov < sz \<Longrightarrow> splitText text seps sz ov \<noteq> None"
  "0 \<le> ov \<Longrightarrow> ov < sz \<Longrightarrow> splitParts parts sep next sz ov fin cur \<noteq> None"
proof (induction "text" seps sz ov and parts sep "next" sz ov fin cur rule: splitText_splitParts.induct)
  case (1 "text" seps sz ov)
  have "FixedSizeChunker_Chunk text sz ov \<noteq> None"
    using Fixed_closed [of sz ov "nat sz" "nat ov"] 1(2,3) by simp
  with 1 show ?case by (subst splitText.simps) (auto split: prod.splits)
next
  case (3 part parts sep "next" sz ov fin cur)
  then show ?case by (auto simp: Let_def split: option.splits)
qed simp

text \<open>It never invents text: a chunk is a contiguous part of the text.\<close>

lemma fixed_chunks_sublist: "c \<in> set (fixed_chunks s ov text) \<Longrightarrow> sublist c text"
  by (auto simp: fixed_chunks_def)
     (meson sublist_drop sublist_order.order_trans sublist_take)

lemma Fixed_sublist:
  assumes "FixedSizeChunker_Chunk text sz ov = Some cs" and "c \<in> set cs"
  shows "sublist c text"
proof -
  obtain s o' where "normalizeParams sz ov = (int s, int o')" and "o' < s" by (rule normalizeParams_cases)
  from Fixed_closed [OF this] assms show ?thesis by (auto intro: fixed_chunks_sublist)
qed

lemma splitText_sublist:
  "splitText text seps sz ov = Some cs \<Longrightarrow> c \<in> set cs \<Longrightarrow> sublist c text"
  "splitParts parts sep next sz ov fin cur = Some ds \<Longrightarrow> d \<in> set ds \<Longrightarrow>
     d \<in> set fin \<or> sublist d (strings_Join (cur @ parts) sep)"
proof (induction "text" seps sz ov and parts sep "next" sz ov fin cur
    arbitrary: cs c and ds d rule: splitText_splitParts.induct)
  case (1 "text" seps sz ov)
  obtain sep rest where f: "findSeparator text seps = (sep, rest)" by fastforce
  show ?case
  proof (cases "int (length text) \<le> sz \<or> sep = []")
    case True
    then show ?thesis using 1(2,3) f Fixed_sublist
      by (auto simp: splitText.simps [of "text"] split: if_splits)
  next
    case False
    then show ?thesis using 1(1) [OF _ f [symmetric], of cs c] 1(2,3) f
      by (auto simp: splitText.simps [of "text"])
  qed
next
  case (2 sep "next" sz ov fin cur)
  then show ?case using mergeDocs_sublist by (auto split: if_splits)
next
  case (3 part parts sep "next" sz ov fin cur)
  show ?case
  proof (cases "int (length part) > sz")
    case True
    then obtain rs where rs: "splitText part next sz ov = Some rs"
      using 3(4) by (auto simp: Let_def split: option.splits)
    let ?fin = "if cur \<noteq> [] then fin @ mergeDocs cur sep sz ov else fin"
    have "d \<in> set (?fin @ rs) \<or> sublist d (strings_Join ([] @ parts) sep)"
      using 3(2) [OF True refl rs] 3(4,5) True rs by (simp add: Let_def)
    moreover have "d \<in> set rs \<Longrightarrow> sublist d (strings_Join (cur @ [part] @ parts) sep)"
      using 3(1) [OF True refl rs] sublist_Join_run [of "[part]" sep cur parts]
      by (auto intro: sublist_order.order_trans)
    moreover have "d \<in> set (mergeDocs cur sep sz ov) \<Longrightarrow>
        sublist d (strings_Join (cur @ [part] @ parts) sep)"
      using mergeDocs_sublist [of d cur sep sz ov] sublist_Join_run [of cur sep "[]" "[part] @ parts"]
      by (auto intro: sublist_order.order_trans)
    moreover have "sublist d (strings_Join parts sep) \<Longrightarrow>
        sublist d (strings_Join (cur @ [part] @ parts) sep)"
      using sublist_Join_run [of parts sep "cur @ [part]" "[]"]
      by (auto intro: sublist_order.order_trans)
    ultimately show ?thesis by (auto split: if_splits)
  next
    case False
    then show ?thesis using 3(3) [OF False, of ds d] 3(4,5) by simp
  qed
qed

text \<open>It never loses text: every character that is not a separator is in the chunks, in order.\<close>

lemma Fixed_no_loss:
  assumes "FixedSizeChunker_Chunk text sz ov = Some cs"
  shows "subseq text (concat cs)"
proof -
  obtain s o' where "normalizeParams sz ov = (int s, int o')" and "o' < s" by (rule normalizeParams_cases)
  from Fixed_closed [OF this, of "text"] fixed_subseq [OF this(2), of "text"] assms show ?thesis by simp
qed

lemma splitText_no_loss:
  "(\<And>s. s \<in> set seps \<Longrightarrow> blank s) \<Longrightarrow> splitText text seps sz ov = Some cs \<Longrightarrow>
     subseq (ink text) (ink (concat cs))"
  "blank sep \<Longrightarrow> (\<And>s. s \<in> set next \<Longrightarrow> blank s) \<Longrightarrow>
     splitParts parts sep next sz ov fin cur = Some ds \<Longrightarrow>
     subseq (ink (concat fin) @ ink (concat cur) @ ink (concat parts)) (ink (concat ds))"
proof (induction "text" seps sz ov and parts sep "next" sz ov fin cur
    arbitrary: cs and ds rule: splitText_splitParts.induct)
  case (1 "text" seps sz ov)
  obtain sep rest where f: "findSeparator text seps = (sep, rest)" by fastforce
  show ?case
  proof (cases "int (length text) \<le> sz \<or> sep = []")
    case True
    then show ?thesis using 1(3) f Fixed_no_loss [THEN subseq_ink]
      by (auto simp: splitText.simps [of "text"] split: if_splits)
  next
    case False
    then have sep: "sep \<in> set seps" "set rest \<subseteq> set seps" using findSeparator_spec [OF f] by auto
    have "subseq (ink (concat []) @ ink (concat []) @ ink (concat (strings_Split text sep))) (ink (concat cs))"
      using False 1(2,3) f sep
      by (intro 1(1) [OF _ f [symmetric]]) (auto simp: splitText.simps [of "text"])
    moreover have "ink (concat (strings_Split text sep)) = ink text"
      using ink_Join [OF 1(2) [OF sep(1)], of "strings_Split text sep"] by simp
    ultimately show ?thesis by simp
  qed
next
  case (2 sep "next" sz ov fin cur)
  then show ?case using mergeDocs_no_loss [of sep cur sz ov]
    by (auto intro: list_emb_append_mono split: if_splits)
next
  case (3 part parts sep "next" sz ov fin cur)
  show ?case
  proof (cases "int (length part) > sz")
    case True
    then obtain rs where rs: "splitText part next sz ov = Some rs"
      using 3(6) by (auto simp: Let_def split: option.splits)
    let ?fin = "if cur \<noteq> [] then fin @ mergeDocs cur sep sz ov else fin"
    have fin: "subseq (ink (concat ?fin) @ ink (concat rs) @ ink (concat parts)) (ink (concat ds))"
      using 3(2) [OF True refl rs 3(4,5), of ds] 3(6) True rs by (simp add: Let_def)
    have "subseq (ink part) (ink (concat rs))" by (rule 3(1) [OF True refl 3(5) rs])
    moreover have "subseq (ink (concat fin) @ ink (concat cur)) (ink (concat ?fin))"
      using mergeDocs_no_loss [OF 3(4), of cur sz ov] by (auto intro: list_emb_append_mono)
    ultimately have "subseq ((ink (concat fin) @ ink (concat cur)) @ ink part @ ink (concat parts))
        (ink (concat ?fin) @ ink (concat rs) @ ink (concat parts))"
      by (blast intro: list_emb_append_mono subseq_order.order_refl)
    from subseq_order.order_trans [OF this fin]
    have "subseq ((ink (concat fin) @ ink (concat cur)) @ ink part @ ink (concat parts)) (ink (concat ds))" .
    then show ?thesis by simp
  next
    case False
    then show ?thesis using 3(3) [OF False 3(4,5), of ds] 3(6) by simp
  qed
qed

section \<open>Texts without adjacent separators\<close>

text \<open>
  A text is spaced when it is not empty, has no separator at its ends and no two separators
  in a row, for example words with one space between them. Its pieces are spaced too, so no
  piece is empty and the bounds of \<open>mergeDocs\<close> hold at every level of the recursion.
\<close>

fun no_gap :: "string \<Rightarrow> bool" where
  "no_gap (x # y # s) = (\<not> (is_sep_char x \<and> is_sep_char y) \<and> no_gap (y # s))"
| "no_gap s = True"

definition spaced :: "string \<Rightarrow> bool" where
  "spaced s = (s \<noteq> [] \<and> \<not> is_sep_char (hd s) \<and> \<not> is_sep_char (last s) \<and> no_gap s)"

lemma no_gap_append: "no_gap (a @ b) \<Longrightarrow> no_gap a \<and> no_gap b"
proof (induction a)
  case (Cons x a)
  then show ?case by (cases a; cases b) auto
qed simp

lemma no_gap_pair: "no_gap (a @ x # y # b) \<Longrightarrow> \<not> (is_sep_char x \<and> is_sep_char y)"
  using no_gap_append [of a "x # y # b"] by simp

lemma spaced_piece:
  assumes s: "spaced s" and p: "p \<in> set (strings_Split s [c])" and c: "is_sep_char c"
  shows "spaced p"
proof -
  obtain u v where "strings_Split s [c] = u @ p # v" using p by (auto simp: in_set_conv_decomp)
  then have "s = strings_Join (u @ p # v) [c]" by (metis Join_Split)
  moreover define a where "a = (if u = [] then [] else strings_Join u [c] @ [c])"
  moreover define b where "b = (if v = [] then [] else [c] @ strings_Join v [c])"
  ultimately have eq: "s = a @ p @ b" by (simp add: Join_append)
  have a: "a = [] \<or> (\<exists>a'. a = a' @ [c])" and b: "b = [] \<or> (\<exists>b'. b = c # b')"
    by (simp_all add: a_def b_def)
  have gap: "no_gap p" using s eq no_gap_append [of a "p @ b"] no_gap_append [of p b]
    by (simp add: spaced_def)
  have "p \<noteq> []"
  proof
    assume "p = []"
    show False
    proof (cases "a = [] \<or> b = []")
      case True
      then show ?thesis using eq a b s c \<open>p = []\<close> by (auto simp: spaced_def)
    next
      case False
      then obtain a' b' where "a = a' @ [c]" and "b = c # b'" using a b by blast
      then have "s = a' @ c # c # b'" using eq \<open>p = []\<close> by simp
      then show ?thesis using s c no_gap_pair by (auto simp: spaced_def)
    qed
  qed
  moreover have "\<not> is_sep_char (hd p)"
  proof (cases "a = []")
    case True
    then show ?thesis using s eq \<open>p \<noteq> []\<close> by (simp add: spaced_def)
  next
    case False
    then obtain a' where "s = a' @ c # hd p # (tl p @ b)" using a eq \<open>p \<noteq> []\<close> by auto
    then show ?thesis using s c no_gap_pair by (auto simp: spaced_def)
  qed
  moreover have "\<not> is_sep_char (last p)"
  proof (cases "b = []")
    case True
    then show ?thesis using s eq \<open>p \<noteq> []\<close> by (simp add: spaced_def)
  next
    case False
    then obtain b' where "s = a @ p @ c # b'" using b eq by auto
    then have "s = (a @ butlast p) @ last p # c # b'"
      using \<open>p \<noteq> []\<close> by (metis append_assoc append_Cons append_Nil append_butlast_last_id)
    then show ?thesis using s c no_gap_pair by (metis spaced_def)
  qed
  ultimately show ?thesis using gap by (simp add: spaced_def)
qed

text \<open>In a spaced text only the single-character separators are found.\<close>

lemma findSeparator_spaced:
  assumes "findSeparator text seps = (sep, rest)" and "set seps \<subseteq> set recursive_separators"
    and "spaced text" and "sep \<noteq> []"
  obtains c where "sep = [c]" and "is_sep_char c" and "set rest \<subseteq> set recursive_separators"
proof -
  have sep: "sep \<in> set recursive_separators" "set rest \<subseteq> set recursive_separators" "sublist sep text"
    using findSeparator_spec [OF assms(1,4)] assms(2) by auto
  have "sep \<noteq> [CHR 0x0A, CHR 0x0A]"
  proof
    assume "sep = [CHR 0x0A, CHR 0x0A]"
    then obtain a b where "text = a @ CHR 0x0A # CHR 0x0A # b" using sep(3) by (auto simp: sublist_def)
    then show False using assms(3) no_gap_pair [of a "CHR 0x0A" "CHR 0x0A" b]
      by (simp add: spaced_def is_sep_char_def)
  qed
  with sep assms(4) that show ?thesis by (auto simp: recursive_separators_def is_sep_char_def)
qed

lemma mergeDocs_spaced:
  assumes "\<forall>d\<in>set ds. spaced d \<and> int (length d) \<le> sz" and "0 \<le> ov" and "0 \<le> sz"
    and "c \<in> set (mergeDocs ds [sep] sz ov)"
  shows "int (length c) \<le> merge_bound [sep] sz ov"
  using assms by (intro mergeDocs_bound [of ds sz ov c]) (auto simp: spaced_def)

lemma Fixed_bound:
  assumes "FixedSizeChunker_Chunk text sz ov = Some cs" and "0 \<le> ov" and "ov < sz" and "c \<in> set cs"
  shows "int (length c) \<le> sz"
proof -
  have n: "normalizeParams sz ov = (int (nat sz), int (nat ov))" and "nat ov < nat sz"
    using assms(2,3) by simp_all
  then have cs: "cs = fixed_chunks (nat sz) (nat ov) text" using Fixed_closed [OF n] assms(1) by simp
  have "length c \<le> nat sz"
    using assms(4) fixed_chunk_sizes(2) [OF \<open>nat ov < nat sz\<close>] unfolding cs
    by (auto simp: in_set_conv_nth)
  then show ?thesis using assms(2,3) by linarith
qed

lemma splitText_bound:
  "spaced text \<Longrightarrow> set seps \<subseteq> set recursive_separators \<Longrightarrow> 0 \<le> ov \<Longrightarrow> ov < sz \<Longrightarrow>
     splitText text seps sz ov = Some cs \<Longrightarrow> c \<in> set cs \<Longrightarrow> int (length c) \<le> merge_bound [x] sz ov"
  "(\<forall>p\<in>set parts. spaced p) \<Longrightarrow> (\<forall>d\<in>set cur. spaced d \<and> int (length d) \<le> sz) \<Longrightarrow>
     (\<exists>y. sep = [y]) \<Longrightarrow> set next \<subseteq> set recursive_separators \<Longrightarrow> 0 \<le> ov \<Longrightarrow> ov < sz \<Longrightarrow>
     (\<forall>d\<in>set fin. int (length d) \<le> merge_bound [x] sz ov) \<Longrightarrow>
     splitParts parts sep next sz ov fin cur = Some ds \<Longrightarrow> d \<in> set ds \<Longrightarrow>
     int (length d) \<le> merge_bound [x] sz ov"
proof (induction "text" seps sz ov and parts sep "next" sz ov fin cur
    arbitrary: cs c and ds d rule: splitText_splitParts.induct)
  case (1 "text" seps sz ov)
  obtain sep rest where f: "findSeparator text seps = (sep, rest)" by fastforce
  show ?case
  proof (cases "int (length text) \<le> sz \<or> sep = []")
    case True
    then have "int (length c) \<le> sz" using 1(4-7) f Fixed_bound [of "text" sz ov cs c]
      by (auto simp: splitText.simps [of "text"] split: if_splits)
    then show ?thesis using 1(4) by (simp add: merge_bound_def)
  next
    case False
    then obtain y where "sep = [y]" "is_sep_char y" "set rest \<subseteq> set recursive_separators"
      using findSeparator_spaced [OF f 1(3,2)] by auto
    then show ?thesis using 1(1) [OF _ f [symmetric], of cs c] 1(2-7) f False spaced_piece [OF 1(2)]
      by (simp add: splitText.simps [of "text"])
  qed
next
  case (2 sep "next" sz ov fin cur)
  then show ?case using mergeDocs_spaced [of cur sz ov d]
    by (auto simp: merge_bound_def split: if_splits)
next
  case (3 part parts sep "next" sz ov fin cur)
  show ?case
  proof (cases "int (length part) > sz")
    case True
    then obtain rs where rs: "splitText part next sz ov = Some rs"
      using 3(11) by (auto simp: Let_def split: option.splits)
    let ?fin = "if cur \<noteq> [] then fin @ mergeDocs cur sep sz ov else fin"
    have "\<forall>d\<in>set (?fin @ rs). int (length d) \<le> merge_bound [x] sz ov"
      using 3(1) [OF True refl _ 3(7-9) rs] 3(4-10) mergeDocs_spaced [of cur sz ov]
      by (auto simp: merge_bound_def)
    then show ?thesis
      using 3(2) [OF True refl rs, of ds d] 3(4-12) True rs by (simp add: Let_def)
  next
    case False
    then show ?thesis using 3(3) [OF False, of ds d] 3(4-12) by simp
  qed
qed

text \<open>Without overlap nothing is repeated either.\<close>

lemma splitText_exact:
  "spaced text \<Longrightarrow> set seps \<subseteq> set recursive_separators \<Longrightarrow> ov = 0 \<Longrightarrow> 0 < sz \<Longrightarrow>
     splitText text seps sz ov = Some cs \<Longrightarrow> ink (concat cs) = ink text"
  "(\<forall>p\<in>set parts. spaced p) \<Longrightarrow> (\<forall>d\<in>set cur. spaced d) \<Longrightarrow>
     blank sep \<Longrightarrow> set next \<subseteq> set recursive_separators \<Longrightarrow> ov = 0 \<Longrightarrow> 0 < sz \<Longrightarrow>
     splitParts parts sep next sz ov fin cur = Some ds \<Longrightarrow>
     ink (concat ds) = ink (concat fin) @ ink (concat cur) @ ink (concat parts)"
proof (induction "text" seps sz ov and parts sep "next" sz ov fin cur
    arbitrary: cs and ds rule: splitText_splitParts.induct)
  case (1 "text" seps sz ov)
  obtain sep rest where f: "findSeparator text seps = (sep, rest)" by fastforce
  show ?case
  proof (cases "int (length text) \<le> sz \<or> sep = []")
    case True
    have "FixedSizeChunker_Chunk text sz 0 = Some (fixed_chunks (nat sz) 0 text)"
      using Fixed_closed [of sz 0 "nat sz" 0 "text"] 1(5) by simp
    then show ?thesis using True 1(4-6) f fixed_concat [of "nat sz" "text"]
      by (auto simp: splitText.simps [of "text"] simp del: ink_simps(3) split: if_splits)
  next
    case False
    then obtain y where y: "sep = [y]" "is_sep_char y" "set rest \<subseteq> set recursive_separators"
      using findSeparator_spaced [OF f 1(3,2)] by auto
    then have "blank sep" by (simp add: blank_def)
    then have "ink (concat (strings_Split text sep)) = ink text"
      using ink_Join [of sep "strings_Split text sep"] by simp
    then show ?thesis
      using 1(1) [OF _ f [symmetric], of cs] 1(2-6) f False y \<open>blank sep\<close> spaced_piece [OF 1(2)]
      by (simp add: splitText.simps [of "text"] del: ink_simps(3))
  qed
next
  case (2 sep "next" sz ov fin cur)
  then show ?case using mergeDocs_ink [of cur sep sz]
    by (auto simp: spaced_def split: if_splits)
next
  case (3 part parts sep "next" sz ov fin cur)
  show ?case
  proof (cases "int (length part) > sz")
    case True
    then obtain rs where rs: "splitText part next sz ov = Some rs"
      using 3(10) by (auto simp: Let_def split: option.splits)
    let ?fin = "if cur \<noteq> [] then fin @ mergeDocs cur sep sz ov else fin"
    have "ink (concat ?fin) = ink (concat fin) @ ink (concat cur)"
      using mergeDocs_ink [of cur sep sz] 3(5,6,8) by (auto simp: spaced_def)
    moreover have "ink (concat rs) = ink part" by (rule 3(1) [OF True refl _ 3(7-9) rs]) (use 3(4) in simp)
    moreover have "splitParts parts sep next sz ov (?fin @ rs) [] = Some ds"
      using 3(10) True rs by (simp add: Let_def)
    then have "ink (concat ds) = ink (concat (?fin @ rs)) @ ink (concat []) @ ink (concat parts)"
      using 3(4-9) by (intro 3(2) [OF True refl rs]) auto
    ultimately show ?thesis by simp
  next
    case False
    then show ?thesis using 3(3) [OF False, of ds] 3(4-10) by simp
  qed
qed

end
