(* ===== verification/Chunker.thy ===== *)
theory Chunker
  imports Chunker_Sentence Chunker_Recursive
begin

text \<open>
  The \<open>Chunker\<close> interface of \<open>internal/chunker/chunker.go\<close>, its three implementations and
  the factory \<open>GetChunker\<close>. What the ingestion pipeline relies on is the contract of the
  locale \<open>chunking\<close>: \<open>Chunk\<close> returns, normalises its parameters and invents no text.
  Stronger guarantees (nothing lost, sizes) differ between the implementations and are
  stated for each.
\<close>

section \<open>The interface\<close>

text \<open>The types that implement the interface; only the recursive one has a field.\<close>

datatype chunker = FixedSizeChunker | SentenceChunker | RecursiveCharacterChunker "string list"

definition NewRecursiveCharacterChunker :: chunker where
  "NewRecursiveCharacterChunker = RecursiveCharacterChunker recursive_separators"

fun Chunk :: "chunker \<Rightarrow> string \<Rightarrow> int \<Rightarrow> int \<Rightarrow> string list option" where
  "Chunk FixedSizeChunker text sz overlap = FixedSizeChunker_Chunk text sz overlap"
| "Chunk SentenceChunker text sz overlap = Some (SentenceChunker_Chunk text sz overlap)"
| "Chunk (RecursiveCharacterChunker seps) text sz overlap =
     RecursiveCharacterChunker_Chunk seps text sz overlap"

definition GetChunker :: "string \<Rightarrow> chunker" where
  "GetChunker strategy =
     (let s = strings_ToLower strategy in
      if s = ''fixed'' then FixedSizeChunker
      else if s = ''sentence'' then SentenceChunker
      else NewRecursiveCharacterChunker)"

section \<open>The contract\<close>

locale chunking =
  fixes chunk :: "string \<Rightarrow> int \<Rightarrow> int \<Rightarrow> string list option"
  assumes chunk_returns: "chunk text sz ov \<noteq> None"
    and chunk_normalizes: "normalizeParams sz ov = (s, ov') \<Longrightarrow> chunk text sz ov = chunk text s ov'"
    and chunk_invents_nothing: "chunk text sz ov = Some cs \<Longrightarrow> c \<in> set cs \<Longrightarrow> subseq (ink c) (ink text)"
begin

lemma total: "\<exists>cs. chunk text sz ov = Some cs"
  using chunk_returns by blast

lemma default_size: "sz \<le> 0 \<Longrightarrow> chunk text sz ov = chunk text 500 ov"
  using chunk_normalizes [of sz ov] chunk_normalizes [of 500 ov]
  by (simp add: normalizeParams_def Let_def)

lemma negative_overlap: "ov < 0 \<Longrightarrow> chunk text sz ov = chunk text sz 0"
  using chunk_normalizes [of sz ov] chunk_normalizes [of sz 0]
  by (simp add: normalizeParams_def Let_def)

lemma big_overlap: "0 < sz \<Longrightarrow> sz \<le> ov \<Longrightarrow> chunk text sz ov = chunk text sz (sz div 2)"
  using chunk_normalizes [of sz ov] chunk_normalizes [of sz "sz div 2"]
  by (simp add: normalizeParams_def Let_def split: if_splits)

lemma chunk_ink_length:
  assumes "chunk text sz ov = Some cs" and "c \<in> set cs"
  shows "length (ink c) \<le> length (ink text)"
  using chunk_invents_nothing [OF assms] by (rule list_emb_length)

lemma blank_text: "chunk text sz ov = Some cs \<Longrightarrow> ink text = [] \<Longrightarrow> c \<in> set cs \<Longrightarrow> ink c = []"
  using chunk_ink_length [of "text" sz ov cs c] by simp

end

lemma normalize_twice: "normalizeParams sz ov = (s, ov') \<Longrightarrow> normalizeParams s ov' = (s, ov')"
  using normalizeParams_bounds [of sz ov s ov'] by simp

lemma Fixed_normalizes:
  "normalizeParams sz ov = (s, ov') \<Longrightarrow> FixedSizeChunker_Chunk text sz ov = FixedSizeChunker_Chunk text s ov'"
  by (simp add: FixedSizeChunker_Chunk_def normalize_twice)

lemma Fixed_total: "FixedSizeChunker_Chunk text sz ov \<noteq> None"
  by (metis Fixed_closed normalizeParams_cases option.distinct(1))

lemma Fixed_invents_nothing:
  "FixedSizeChunker_Chunk text sz ov = Some cs \<Longrightarrow> c \<in> set cs \<Longrightarrow> subseq (ink c) (ink text)"
  by (intro subseq_ink sublist_imp_subseq Fixed_sublist)

interpretation fixed: chunking FixedSizeChunker_Chunk
  by unfold_locales (rule Fixed_total Fixed_normalizes Fixed_invents_nothing; assumption)+

text \<open>The chunks of the sentence chunker are runs of trimmed matches.\<close>

lemma ink_subseq_concat: "g \<in> set gs \<Longrightarrow> subseq (concat g) (concat (concat gs))"
  by (induction gs) (auto intro: list_emb_append2 subseq_order.order_trans)

lemma sentences_subseq: "subseq (concat (sentences ms)) (concat ms)"
  by (induction ms) (auto intro: list_emb_append_mono TrimSpace_subseq list_emb_append2)

lemma Sentence_invents_nothing:
  assumes "c \<in> set (SentenceChunker_Chunk text sz ov)"
  shows "subseq (ink c) (ink text)"
proof (cases "FindAllString text = []")
  case True
  then show ?thesis using assms
    by (auto simp: SentenceChunker_Chunk_def split: prod.splits if_splits)
next
  case False
  from Sentence_groups [OF this, of sz ov] assms obtain gs g
    where g: "g \<in> set gs" "c = join_space g" and gs: "concat gs = sentences (FindAllString text)" by auto
  have "subseq (concat g) text"
    using ink_subseq_concat [OF g(1)] sentences_subseq [of "FindAllString text"]
      FindAllString_subseq [of "text"] unfolding gs
    by (blast intro: subseq_order.order_trans)
  moreover have "ink c = ink (concat g)"
    using ink_Join [of "'' ''" g] g(2) by (simp add: blank_def is_sep_char_def)
  ultimately show ?thesis using subseq_ink by metis
qed

lemma Sentence_normalizes:
  "normalizeParams sz ov = (s, ov') \<Longrightarrow> SentenceChunker_Chunk text sz ov = SentenceChunker_Chunk text s ov'"
  by (simp add: SentenceChunker_Chunk_def normalize_twice)

interpretation sentence: chunking "\<lambda>text sz ov. Some (SentenceChunker_Chunk text sz ov)"
  by unfold_locales (auto intro: Sentence_normalizes Sentence_invents_nothing)

lemma Recursive_total: "RecursiveCharacterChunker_Chunk seps text sz ov \<noteq> None"
proof -
  obtain s o' where n: "normalizeParams sz ov = (s, o')" by fastforce
  show ?thesis using splitText_total(1) [of o' s "text" seps] normalizeParams_bounds [OF n]
    by (simp add: RecursiveCharacterChunker_Chunk_def n)
qed

lemma Recursive_normalizes:
  "normalizeParams sz ov = (s, ov') \<Longrightarrow>
     RecursiveCharacterChunker_Chunk seps text sz ov = RecursiveCharacterChunker_Chunk seps text s ov'"
  by (simp add: RecursiveCharacterChunker_Chunk_def normalize_twice)

lemma Recursive_sublist:
  "RecursiveCharacterChunker_Chunk seps text sz ov = Some cs \<Longrightarrow> c \<in> set cs \<Longrightarrow> sublist c text"
  by (cases "normalizeParams sz ov") (simp add: RecursiveCharacterChunker_Chunk_def splitText_sublist(1))

lemma Recursive_invents_nothing:
  "RecursiveCharacterChunker_Chunk seps text sz ov = Some cs \<Longrightarrow> c \<in> set cs \<Longrightarrow> subseq (ink c) (ink text)"
  by (intro subseq_ink sublist_imp_subseq Recursive_sublist)

interpretation recursive: chunking "RecursiveCharacterChunker_Chunk seps" for seps
  by unfold_locales (rule Recursive_total Recursive_normalizes Recursive_invents_nothing; assumption)+

interpretation chunker: chunking "Chunk c" for c
proof (unfold_locales)
  fix "text" sz ov s ov' cs d
  show "Chunk c text sz ov \<noteq> None"
    by (cases c) (simp_all add: Fixed_total Recursive_total)
  show "normalizeParams sz ov = (s, ov') \<Longrightarrow> Chunk c text sz ov = Chunk c text s ov'"
    by (cases c) (simp_all add: Fixed_normalizes Sentence_normalizes Recursive_normalizes)
  show "Chunk c text sz ov = Some cs \<Longrightarrow> d \<in> set cs \<Longrightarrow> subseq (ink d) (ink text)"
    by (cases c) (auto intro: Fixed_invents_nothing Sentence_invents_nothing Recursive_invents_nothing)
qed

section \<open>Properties of the chunkers\<close>

lemma GetChunker_simps:
  "strings_ToLower strategy = ''fixed'' \<Longrightarrow> GetChunker strategy = FixedSizeChunker"
  "strings_ToLower strategy = ''sentence'' \<Longrightarrow> GetChunker strategy = SentenceChunker"
  "strings_ToLower strategy \<notin> {''fixed'', ''sentence''} \<Longrightarrow>
     GetChunker strategy = RecursiveCharacterChunker recursive_separators"
  by (simp_all add: GetChunker_def NewRecursiveCharacterChunker_def)

lemma lower_names:
  "strings_ToLower ''Fixed'' = ''fixed''" "strings_ToLower ''fixed'' = ''fixed''"
  "strings_ToLower ''recursive'' = ''recursive''" "strings_ToLower ''sentence'' = ''sentence''"
  by code_simp+


text \<open>C26 The fixed chunker cuts the text into windows of the chunk size that start one step
  (size minus overlap) apart: the windows put together are the text, all but the last are
  full, and neighbours share exactly the overlap.\<close>

theorem fixed_chunker_windows:
  assumes "strings_ToLower strategy = ''fixed''" and "normalizeParams sz overlap = (int s, int ov)"
  shows "\<exists>cs. Chunk (GetChunker strategy) text sz overlap = Some cs \<and>
     (case cs of [] \<Rightarrow> [] | c # cs \<Rightarrow> c @ concat (map (drop ov) cs)) = text \<and>
     (\<forall>i < length cs. cs ! i = take s (drop (i * (s - ov)) text) \<and> cs ! i \<noteq> [] \<and> length (cs ! i) \<le> s) \<and>
     (\<forall>i. Suc i < length cs \<longrightarrow> length (cs ! i) = s \<and> take ov (cs ! Suc i) = drop (s - ov) (cs ! i))"
proof -
  have lt: "ov < s" using normalizeParams_bounds [OF assms(2)] by simp
  show ?thesis
    using Fixed_closed [OF assms(2) lt] fixed_reassembly [OF lt] fixed_chunk_sizes [OF lt]
      fixed_chunk_overlap [OF lt] fixed_chunk_nth
    by (intro exI [of _ "fixed_chunks s ov text"]) (simp add: GetChunker_simps(1) [OF assms(1)])
qed

lemma fixed_chunker_windows_witness:
  "\<exists>cs. Chunk (GetChunker ''Fixed'') ''abcdefgh'' 4 2 = Some cs \<and>
     (case cs of [] \<Rightarrow> [] | c # cs \<Rightarrow> c @ concat (map (drop 2) cs)) = ''abcdefgh''"
  using fixed_chunker_windows [OF lower_names(1), of 4 2 4 2 "''abcdefgh''"] by auto

text \<open>C23 The default chunker loses nothing but separators: every other character of the text is
  in the chunks, in order, and each chunk is a contiguous part of the text.\<close>

theorem recursive_chunker_no_loss:
  assumes "strings_ToLower strategy \<notin> {''fixed'', ''sentence''}"
  shows "\<exists>cs. Chunk (GetChunker strategy) text sz overlap = Some cs \<and>
     subseq (ink text) (ink (concat cs)) \<and> (\<forall>c\<in>set cs. sublist c text)"
proof -
  obtain cs where cs: "RecursiveCharacterChunker_Chunk recursive_separators text sz overlap = Some cs"
    using recursive.total by blast
  then have "subseq (ink text) (ink (concat cs))"
    using splitText_no_loss(1) [OF blank_recursive_separators]
    by (cases "normalizeParams sz overlap") (auto simp: RecursiveCharacterChunker_Chunk_def)
  then show ?thesis using cs Recursive_sublist [OF cs] by (simp add: GetChunker_simps(3) [OF assms])
qed

lemma recursive_chunker_no_loss_witness:
  "\<exists>cs. Chunk (GetChunker ''recursive'') ''one two three'' 5 1 = Some cs \<and>
     subseq (ink ''one two three'') (ink (concat cs))"
proof -
  have "strings_ToLower ''recursive'' \<notin> {''fixed'', ''sentence''}" unfolding lower_names by simp
  from recursive_chunker_no_loss [OF this, of "''one two three''" 5 1] show ?thesis by blast
qed





text \<open>Three texts on which the chunkers do something that their documentation excludes: a
  sentence is cut and its start dropped; a chunk is three times the size; a word is repeated
  with an overlap of zero.\<close>

lemma sentence_chunker_drops_text:
  "Chunk (GetChunker ''sentence'') ''Pi is 3.14 ok.'' 20 0 = Some [''14 ok.'']"
  by code_simp

lemma recursive_chunker_exceeds_size:
  "Chunk (GetChunker ''recursive'') (replicate 30 (CHR 0x20)) 10 0 = Some [replicate 30 (CHR 0x20)]"
  by code_simp

lemma recursive_chunker_repeats_word:
  "Chunk (GetChunker ''recursive'') ''   abc defghij'' 8 0 = Some [''   abc'', ''abc defghij'']"
  by code_simp

end
