(* ===== verification/Vector_Text.thy ===== *)
theory Vector_Text
  imports Go_Strings
begin

text \<open>
  The text form of a vector, \<open>[0.1,0.2]\<close>, in which pgvector reads and writes it:
  \<open>vectorToString\<close> and \<open>stringToVector\<close> of \<open>internal/db/document_repo.go\<close>, with the two
  functions of the standard library they call, \<open>strconv.FormatFloat(v, 'f', -1, 32)\<close> and
  \<open>strconv.ParseFloat(s, 32)\<close>. Every float32 vector survives the round trip through its text.

  Of \<open>ParseFloat\<close> the decimal forms, the infinities and \<open>nan\<close> are modelled; hexadecimal
  literals, which the database never writes, are invalid syntax here.
\<close>

section \<open>Decimal numbers\<close>

text \<open>A decimal number: an integer scaled by a power of ten.\<close>

definition dec_value :: "nat \<Rightarrow> int \<Rightarrow> rat" where
  "dec_value d e = of_nat d * 10 powi e"

definition strip_zeros :: "string \<Rightarrow> string" where
  "strip_zeros s = rev (dropWhile (\<lambda>c. c = CHR ''0'') (rev s))"

definition dec_text :: "nat \<Rightarrow> int \<Rightarrow> string" where
  "dec_text d e =
     (if 0 \<le> e then decimal (d * 10 ^ nat e)
      else let k = nat (- e); f = strip_zeros (pad_left k (decimal (d mod 10 ^ k))) in
           decimal (d div 10 ^ k) @ (if f = [] then [] else CHR ''.'' # f))"

section \<open>FormatFloat\<close>

text \<open>The decimal exponent: the largest \<open>e\<close> with \<open>10\<^sup>e \<le> m\<close>.\<close>

definition dec_exp :: "rat \<Rightarrow> int" where
  "dec_exp m = (case find (\<lambda>e. 10 powi e \<le> m) (rev [-60..60]) of Some e \<Rightarrow> e | None \<Rightarrow> -60)"

text \<open>
  The shortest decimal that rounds to \<open>m\<close>: among the decimals with one, two, ... digits the
  first one next to \<open>m\<close> that reads back as \<open>m\<close>; if both neighbours do, the nearer one. Nine
  digits are always enough for a float32; the exact expansion closes the search.
\<close>

definition digits_try :: "rat \<Rightarrow> int \<Rightarrow> (nat \<times> int) option" where
  "digits_try m e =
     (let lo = nat \<lfloor>m / 10 powi e\<rfloor>; hi = lo + 1;
          okdown = (f32_mag (dec_value lo e) = m); okup = (f32_mag (dec_value hi e) = m)
      in if okdown \<and> okup then Some (nat (round_even (m / 10 powi e)), e)
         else if okdown then Some (lo, e)
         else if okup then Some (hi, e)
         else None)"

fun digits_search :: "rat \<Rightarrow> int list \<Rightarrow> nat \<times> int" where
  "digits_search m [] = (nat \<lfloor>m * 10 ^ 149\<rfloor>, -149)"
| "digits_search m (e # es) =
     (case digits_try m e of Some r \<Rightarrow> r | None \<Rightarrow> digits_search m es)"

definition shortest_digits :: "rat \<Rightarrow> nat \<times> int" where
  "shortest_digits m = digits_search m (map (\<lambda>n. dec_exp m - n + 1) [1..9])"

fun FormatFloat32 :: "fp \<Rightarrow> string" where
  "FormatFloat32 NaN = ''NaN''"
| "FormatFloat32 (Inf s) = (if s then ''-Inf'' else ''+Inf'')"
| "FormatFloat32 (Fin s m) =
     (if s then ''-'' else '''') @
     (if m = 0 then ''0'' else case shortest_digits m of (d, e) \<Rightarrow> dec_text d e)"

section \<open>ParseFloat\<close>

text \<open>An unsigned decimal literal: digits, a point, digits, an exponent.\<close>

definition parse_exponent :: "string \<Rightarrow> int option" where
  "parse_exponent s =
     (case s of
        [] \<Rightarrow> Some 0
      | c # r \<Rightarrow>
          (if c \<noteq> CHR ''e'' \<and> c \<noteq> CHR ''E'' then None
           else let (neg, ds) = (case r of
                      [] \<Rightarrow> (False, [])
                    | x # y \<Rightarrow> (if x = CHR ''-'' then (True, y) else if x = CHR ''+'' then (False, y) else (False, r)))
                in if ds = [] \<or> \<not> list_all is_digit ds then None
                   else Some (if neg then - int (digits_value ds) else int (digits_value ds))))"

definition parse_decimal :: "string \<Rightarrow> rat option" where
  "parse_decimal s =
     (let i = takeWhile is_digit s; r = dropWhile is_digit s;
          (f, r) = (case r of
             c # r' \<Rightarrow> (if c = CHR ''.'' then (takeWhile is_digit r', dropWhile is_digit r') else ([], r))
           | [] \<Rightarrow> ([], r))
      in if i = [] \<and> f = [] then None
         else case parse_exponent r of
                None \<Rightarrow> None
              | Some x \<Rightarrow> Some (dec_value (digits_value (i @ f)) (x - int (length f))))"

definition lower_ascii :: "string \<Rightarrow> string" where
  "lower_ascii s = map lower_char s"

text \<open>A leading sign, and what follows it.\<close>

fun split_sign :: "string \<Rightarrow> bool \<times> string" where
  "split_sign (c # s) = (if c = CHR ''-'' then (True, s) else if c = CHR ''+'' then (False, s) else (False, c # s))"
| "split_sign [] = (False, [])"

definition ParseFloat32 :: "string \<Rightarrow> fp result" where
  "ParseFloat32 s =
     (case split_sign s of
        (neg, r) \<Rightarrow>
          (if lower_ascii r \<in> {''inf'', ''infinity''} then Ok (Inf neg)
           else if lower_ascii s = ''nan'' then Ok NaN
           else case parse_decimal r of
                  None \<Rightarrow> Err (ErrFmt ''strconv.ParseFloat: parsing %q: invalid syntax'' [FStr s])
                | Some q \<Rightarrow>
                    (case f32_round neg q of
                       Inf _ \<Rightarrow> Err (ErrFmt ''strconv.ParseFloat: parsing %q: value out of range'' [FStr s])
                     | v \<Rightarrow> Ok v)))"

section \<open>Vectors\<close>

definition vectorToString :: "fp list \<Rightarrow> string" where
  "vectorToString vec = ''['' @ strings_Join (map FormatFloat32 vec) '','' @ '']''"

text \<open>The loop over the parts: the index of the first part that is no number is in the error.\<close>

fun parseParts :: "nat \<Rightarrow> string list \<Rightarrow> fp list result" where
  "parseParts i [] = Ok []"
| "parseParts i (part # parts) =
     (case ParseFloat32 (strings_TrimSpace part) of
        Ok v \<Rightarrow> (case parseParts (Suc i) parts of Ok vs \<Rightarrow> Ok (v # vs) | r \<Rightarrow> r)
      | Err e \<Rightarrow> Err (ErrWrap ''failed to parse vector value at index %d: %w'' [FInt (int i)] e)
      | Panic p \<Rightarrow> Panic p
      | Diverge \<Rightarrow> Diverge)"

definition stringToVector :: "string \<Rightarrow> fp list result" where
  "stringToVector s =
     (let s = strings_TrimSuffix (strings_TrimPrefix s ''['') '']'' in
      if s = [] then Ok [] else parseParts 0 (strings_Split s '',''))"

section \<open>Text of a decimal\<close>

lemma digits_value_append:
  "digits_value (s @ t) = digits_value s * 10 ^ length t + digits_value t"
proof (induction t rule: rev_induct)
  case Nil
  then show ?case by (simp add: digits_value_def)
next
  case (snoc c t)
  have "\<And>u. digits_value (u @ [c]) = 10 * digits_value u + (of_char c - 48)"
    by (simp add: digits_value_def)
  from this [of "s @ t"] this [of t] snoc show ?case by (simp add: algebra_simps)
qed

lemma digits_value_zeros [simp]: "digits_value (replicate n (CHR ''0'')) = 0"
  by (induction n) (simp_all add: digits_value_def)

lemma digits_value_pad [simp]: "digits_value (pad_left k s) = digits_value s"
  by (simp add: pad_left_def digits_value_append)

lemma length_decimal: "n < 10 ^ Suc k \<Longrightarrow> length (decimal n) \<le> Suc k"
proof (induction k arbitrary: n)
  case 0
  then show ?case by (simp add: decimal.simps [of n])
next
  case (Suc k)
  have "n div 10 < 10 ^ Suc k" using Suc.prems by (simp add: div_less_iff_less_mult)
  from Suc.IH [OF this] show ?case by (simp add: decimal.simps [of n])
qed

lemma length_pad: "0 < k \<Longrightarrow> n < 10 ^ k \<Longrightarrow> length (pad_left k (decimal n)) = k"
  using length_decimal [of n "k - 1"] by (simp add: pad_left_def)

lemma strip_zeros_split: "\<exists>j. s = strip_zeros s @ replicate j (CHR ''0'')"
proof -
  let ?z = "takeWhile (\<lambda>c. c = CHR ''0'') (rev s)"
  have "s = strip_zeros s @ rev ?z"
    unfolding strip_zeros_def rev_append [symmetric] by simp
  moreover have "rev ?z = replicate (length ?z) (CHR ''0'')"
    by (intro replicate_eqI) (auto dest: set_takeWhileD)
  ultimately show ?thesis by metis
qed

lemma dec_value_frac:
  assumes "f @ replicate j (CHR ''0'') = t" and "k = length t"
  shows "dec_value (digits_value (i @ f)) (- int (length f)) =
         of_nat (digits_value i) + of_nat (digits_value t) / 10 ^ k"
proof -
  have "digits_value t = digits_value f * 10 ^ j" and "k = length f + j"
    using assms by (auto simp: digits_value_append)
  then show ?thesis
    by (simp add: dec_value_def digits_value_append power_int_minus power_add field_simps)
qed

lemma takeWhile_digits:
  "\<forall>c\<in>set s. is_digit c \<Longrightarrow> r = [] \<or> \<not> is_digit (hd r) \<Longrightarrow>
     takeWhile is_digit (s @ r) = s \<and> dropWhile is_digit (s @ r) = r"
  by (cases r) (auto simp: takeWhile_append dropWhile_append)

lemma is_digit_point [simp]: "\<not> is_digit (CHR ''.'')"
  by code_simp

lemma decimal_all_digits: "\<forall>c\<in>set (decimal n). is_digit c"
  using decimal_digits by blast

lemma parse_dec_text: "parse_decimal (dec_text d e) = Some (dec_value d e)"
proof (cases "0 \<le> e")
  case True
  have tw: "takeWhile is_digit (decimal (d * 10 ^ nat e)) = decimal (d * 10 ^ nat e)"
    "dropWhile is_digit (decimal (d * 10 ^ nat e)) = []"
    using takeWhile_digits [OF decimal_all_digits, of "[]"] by simp_all
  show ?thesis using True
    by (simp add: dec_text_def parse_decimal_def parse_exponent_def dec_value_def power_int_def Let_def tw)
next
  case False
  define k where "k = nat (- e)"
  define i where "i = decimal (d div 10 ^ k)"
  define t where "t = pad_left k (decimal (d mod 10 ^ k))"
  define f where "f = strip_zeros t"
  have k: "0 < k" "e = - int k" using False by (simp_all add: k_def)
  have len: "length t = k" unfolding t_def using k by (intro length_pad) simp_all
  obtain j where j: "t = f @ replicate j (CHR ''0'')" using strip_zeros_split [of t] by (auto simp: f_def)
  have "\<forall>c\<in>set t. is_digit c" using decimal_digits by (auto simp: t_def pad_left_def is_digit_def)
  then have df: "\<forall>c\<in>set f. is_digit c" using j by auto
  have di: "\<forall>c\<in>set i. is_digit c" "i \<noteq> []" using decimal_digits by (auto simp: i_def)
  have "dec_value (digits_value (i @ f)) (- int (length f)) =
      of_nat (d div 10 ^ k) + of_nat (d mod 10 ^ k) / 10 ^ k"
    using dec_value_frac [OF j [symmetric], of k i] len by (simp add: i_def t_def)
  also have "\<dots> = of_nat (d div 10 ^ k * 10 ^ k + d mod 10 ^ k) / 10 ^ k"
    by (simp only: of_nat_add of_nat_mult of_nat_power) (simp add: field_simps)
  also have "\<dots> = dec_value d e"
    by (simp add: dec_value_def k(2) power_int_minus field_simps)
  finally have v: "dec_value (digits_value (i @ f)) (- int (length f)) = dec_value d e" .
  have whole: "dec_text d e = i @ (if f = [] then [] else CHR ''.'' # f)"
    using False by (simp add: dec_text_def Let_def i_def f_def t_def k_def)
  have ti: "takeWhile is_digit (dec_text d e) = i"
    "dropWhile is_digit (dec_text d e) = (if f = [] then [] else CHR ''.'' # f)"
    using takeWhile_digits [OF di(1), of "if f = [] then [] else CHR ''.'' # f"] whole by auto
  have tf: "takeWhile is_digit f = f" "dropWhile is_digit f = []"
    using takeWhile_digits [OF df, of "[]"] by simp_all
  show ?thesis unfolding parse_decimal_def ti
    using di(2) v by (cases "f = []") (simp_all add: parse_exponent_def Let_def tf)
qed

section \<open>The shortest digits read back\<close>

lemma round_even_cases: "round_even q = \<lfloor>q\<rfloor> \<or> round_even q = \<lfloor>q\<rfloor> + 1"
  by (simp add: round_even_def Let_def)

lemma digits_try_correct:
  assumes "digits_try m e = Some (d, e')" and "0 \<le> m"
  shows "f32_mag (dec_value d e') = m"
proof -
  have "0 \<le> \<lfloor>m / 10 powi e\<rfloor>" using assms(2) by simp
  then show ?thesis using assms(1) round_even_cases [of "m / 10 powi e"]
    by (auto simp: digits_try_def Let_def nat_add_distrib split: if_splits)
qed

text \<open>The exact expansion: every float32 is a multiple of \<open>2\<^sup>-\<^sup>1\<^sup>4\<^sup>9\<close>.\<close>

lemma f32_multiple:
  assumes "f32_mag m = m"
  shows "\<exists>k. m * 10 ^ 149 = of_int k"
proof -
  define r where "r = round_even (m / f32_ulp m)"
  define n :: nat where "n = 149"
  have "- 126 \<le> f32_exp m" using f32_exp_spec [of m] by blast
  then obtain j where j: "f32_exp m - 23 = int j - int n"
    by (intro that [of "nat (f32_exp m + 126)"]) (simp add: n_def)
  have u: "f32_ulp m = 2 ^ j / 2 ^ n"
    by (simp add: f32_ulp_def j power_int_diff)
  have "(10 :: rat) ^ n = 2 ^ n * 5 ^ n" by (simp flip: power_mult_distrib)
  then have "of_int r * f32_ulp m * 10 ^ n = of_int (r * 2 ^ j * 5 ^ n)" by (simp add: u)
  moreover have "m = of_int r * f32_ulp m" using assms by (simp add: f32_mag_def r_def)
  ultimately show ?thesis unfolding n_def by metis
qed

lemma digits_search_correct:
  assumes "digits_search m es = (d, e)" and "0 \<le> m" and "f32_mag m = m"
  shows "f32_mag (dec_value d e) = m"
  using assms(1)
proof (induction es)
  case Nil
  obtain k where k: "m * 10 ^ 149 = of_int k" using f32_multiple [OF assms(3)] by blast
  have "0 \<le> k" using assms(2) k by (metis mult_nonneg_nonneg of_int_0_le_iff zero_le_numeral zero_le_power)
  have "dec_value (nat k) (- 149) = of_int k / 10 ^ 149"
    using \<open>0 \<le> k\<close> by (simp add: dec_value_def power_int_def field_simps)
  also have "\<dots> = m" unfolding k [symmetric] by simp
  finally show ?case using Nil assms(3) k by simp
next
  case (Cons x es)
  then show ?case using digits_try_correct [OF _ assms(2), of x d e]
    by (auto split: option.splits)
qed

lemma dec_text_hd: "\<exists>c r. dec_text d e = c # r \<and> is_digit c"
proof -
  have "\<exists>c r. decimal n @ s = c # r \<and> is_digit c" for n s
    using decimal_digits [of "hd (decimal n)" n] by (cases "decimal n") auto
  from this [where s = "[]"] this show ?thesis by (auto simp: dec_text_def Let_def)
qed

definition plain_char :: "char \<Rightarrow> bool" where
  "plain_char c = (is_digit c \<or> c \<in> set ''.+-InfNa'')"

lemma dec_text_plain: "\<forall>c\<in>set (dec_text d e). plain_char c"
proof -
  have dec: "\<forall>c\<in>set (decimal n). plain_char c" for n using decimal_digits by (auto simp: plain_char_def)
  have zero: "plain_char (CHR ''0'')" and point: "plain_char (CHR ''.'')" by code_simp+
  define k where "k = nat (- e)"
  define t where "t = pad_left k (decimal (d mod 10 ^ k))"
  have "\<forall>c\<in>set t. plain_char c" using dec zero by (auto simp: t_def pad_left_def)
  moreover have "set (strip_zeros t) \<subseteq> set t"
    using strip_zeros_split [of t] by (metis set_append Un_upper1)
  moreover have "dec_text d e = (if 0 \<le> e then decimal (d * 10 ^ nat e)
      else decimal (d div 10 ^ k) @ (if strip_zeros t = [] then [] else CHR ''.'' # strip_zeros t))"
    by (simp add: dec_text_def Let_def k_def t_def)
  ultimately show ?thesis using dec point by (auto split: if_splits)
qed

lemma Format_plain: "\<forall>c\<in>set (FormatFloat32 x). plain_char c"
proof (cases x)
  case (Fin s m)
  have "plain_char (CHR ''0'')" "plain_char (CHR ''-'')" by code_simp+
  then show ?thesis using Fin dec_text_plain by (auto split: prod.splits)
qed (auto simp: plain_char_def)

lemma Format_not_Nil: "FormatFloat32 x \<noteq> []"
  using dec_text_hd by (cases x) (auto split: prod.splits, metis list.distinct(1))

lemma lower_digit: "is_digit c \<Longrightarrow> lower_char c = c"
  by (simp add: is_digit_def lower_char_def)

lemma Parse_special:
  "ParseFloat32 (FormatFloat32 NaN) = Ok NaN" "ParseFloat32 (FormatFloat32 (Inf s)) = Ok (Inf s)"
proof -
  show "ParseFloat32 (FormatFloat32 NaN) = Ok NaN" by code_simp
  have "ParseFloat32 (FormatFloat32 (Inf True)) = Ok (Inf True)"
    "ParseFloat32 (FormatFloat32 (Inf False)) = Ok (Inf False)" by code_simp+
  then show "ParseFloat32 (FormatFloat32 (Inf s)) = Ok (Inf s)" by (cases s) simp_all
qed

lemma Parse_Format: "is_f32 x \<Longrightarrow> ParseFloat32 (FormatFloat32 x) = Ok x"
proof (cases x)
  case (Fin s m)
  assume "is_f32 x"
  with Fin have m: "0 \<le> m" "m < 2 ^ 128" "f32_mag m = m" by simp_all
  define t where "t = (if m = 0 then ''0'' else case shortest_digits m of (d, e) \<Rightarrow> dec_text d e)"
  obtain d e where de: "shortest_digits m = (d, e)" by fastforce
  have rounds: "f32_mag (dec_value d e) = m"
    using digits_search_correct [OF _ m(1,3)] de by (simp add: shortest_digits_def)
  have "dec_text 0 0 = ''0''" by code_simp
  then have "\<exists>q. parse_decimal t = Some q \<and> f32_mag q = m"
    using parse_dec_text [of 0 0] parse_dec_text [of d e] rounds
    by (cases "m = 0") (auto simp: t_def de dec_value_def)
  then obtain q where q: "parse_decimal t = Some q" "f32_mag q = m" by blast
  have "\<exists>c r. t = c # r \<and> is_digit c"
    using dec_text_hd [of d e] by (auto simp: t_def de is_digit_def)
  then obtain c r where t: "t = c # r" "is_digit c" by blast
  have "lower_char c \<noteq> CHR ''i''" "lower_char c \<noteq> CHR ''n''" "c \<noteq> CHR ''-''" "c \<noteq> CHR ''+''"
    using t(2) by (auto simp: lower_digit) (auto simp: is_digit_def)
  then have "split_sign ((if s then ''-'' else '''') @ t) = (s, t)"
    and "lower_ascii t \<notin> {''inf'', ''infinity''}"
    and "lower_ascii ((if s then ''-'' else '''') @ t) \<noteq> ''nan''"
    by (auto simp: t(1) lower_ascii_def lower_char_def)
  then show ?thesis using q m(2) Fin
    by (simp add: ParseFloat32_def f32_round_def flip: t_def)
qed (simp_all only: Parse_special)

section \<open>The round trip of a vector\<close>

text \<open>Text without white space is not trimmed.\<close>

lemma plain_char_code: "plain_char c \<Longrightarrow> (of_char c :: nat) \<in> {43, 45, 46, 78} \<union> {48..57} \<union> {73} \<union> {97, 102, 110}"
  by (auto simp: plain_char_def is_digit_def)

lemma spaces_not_plain: "w \<in> set unicode_spaces \<Longrightarrow> w \<noteq> [] \<and> \<not> plain_char (hd w) \<and> \<not> plain_char (last w)"
proof -
  have "list_all (\<lambda>w. w \<noteq> [] \<and> \<not> plain_char (hd w) \<and> \<not> plain_char (last w)) unicode_spaces" by code_simp
  then show "w \<in> set unicode_spaces \<Longrightarrow> w \<noteq> [] \<and> \<not> plain_char (hd w) \<and> \<not> plain_char (last w)"
    by (auto simp: list_all_iff)
qed

lemma trim_left_plain:
  assumes "\<And>w. w \<in> set ws \<Longrightarrow> w \<noteq> [] \<and> \<not> plain_char (hd w)" and "\<forall>c\<in>set s. plain_char c"
  shows "trim_left_of ws s = s"
proof -
  have "\<not> prefix w s" if "w \<in> set ws" for w
    using assms(1) [OF that] assms(2) by (cases w; cases s) auto
  then have "find (\<lambda>w. w \<noteq> [] \<and> prefix w s) ws = None" by (auto simp: find_None_iff)
  then show ?thesis by (subst trim_left_of.simps) simp
qed

lemma TrimSpace_plain:
  assumes "\<forall>c\<in>set s. plain_char c"
  shows "strings_TrimSpace s = s"
proof -
  have "trim_left_of unicode_spaces s = s"
    using spaces_not_plain by (intro trim_left_plain assms) blast
  moreover have "trim_left_of (map rev unicode_spaces) (rev s) = rev s"
    using spaces_not_plain assms by (intro trim_left_plain) (auto simp: hd_rev)
  ultimately show ?thesis by (simp add: strings_TrimSpace_def)
qed

lemma parseParts_Format:
  "list_all is_f32 xs \<Longrightarrow> parseParts i (map FormatFloat32 xs) = Ok xs"
proof (induction xs arbitrary: i)
  case (Cons x xs)
  then show ?case using TrimSpace_plain [OF Format_plain, of x] by (simp add: Parse_Format)
qed simp

lemma vector_roundtrip:
  assumes "list_all is_f32 vec"
  shows "stringToVector (vectorToString vec) = Ok vec"
proof (cases "vec = []")
  case True
  have "stringToVector (vectorToString []) = Ok []" by code_simp
  with True show ?thesis by simp
next
  case False
  let ?b = "strings_Join (map FormatFloat32 vec) '',''"
  have "strings_TrimSuffix (strings_TrimPrefix (vectorToString vec) ''['') '']'' = ?b"
    using TrimPrefix_append [of "''[''" "?b @ '']''"] TrimSuffix_append [of ?b "'']''"]
    by (simp add: vectorToString_def)
  moreover have "?b \<noteq> []" using False Format_not_Nil by (cases vec; cases "tl vec") auto
  moreover have "strings_Split ?b '','' = map FormatFloat32 vec"
  proof (rule Split_Join)
    show "map FormatFloat32 vec \<noteq> []" using False by simp
    show "CHR '','' \<notin> set p" if "p \<in> set (map FormatFloat32 vec)" for p
      using that Format_plain by (fastforce simp: plain_char_def is_digit_def)
  qed
  ultimately show ?thesis using parseParts_Format [OF assms] by (simp add: stringToVector_def)
qed

text \<open>Whatever is parsed is a vector of float32 values.\<close>

lemma parse_decimal_nonneg: "parse_decimal s = Some q \<Longrightarrow> 0 \<le> q"
  by (auto simp: parse_decimal_def Let_def dec_value_def split: if_splits option.splits prod.splits list.splits)

lemma ParseFloat32_is_f32: "ParseFloat32 s = Ok x \<Longrightarrow> is_f32 x"
  using f32_round_is_f32 [OF parse_decimal_nonneg]
  by (auto simp: ParseFloat32_def split: prod.splits if_splits option.splits fp.splits)

lemma parseParts_is_f32: "parseParts i parts = Ok v \<Longrightarrow> list_all is_f32 v"
  by (induction parts arbitrary: i v) (auto split: outcome.splits dest: ParseFloat32_is_f32)

lemma stringToVector_is_f32: "stringToVector s = Ok v \<Longrightarrow> list_all is_f32 v"
  by (auto simp: stringToVector_def Let_def split: if_splits dest: parseParts_is_f32)


text \<open>C14 The text of a vector reads back as the vector, value by value, for all float32 values:
  the shortest digits are enough.\<close>

theorem vector_text_roundtrip:
  "list_all is_f32 vec \<Longrightarrow> stringToVector (vectorToString vec) = Ok vec"
  by (rule vector_roundtrip)

lemma vector_text_roundtrip_witness:
  "stringToVector (vectorToString [f_one, Fin True (1 / 2), NaN]) = Ok [f_one, Fin True (1 / 2), NaN]"
proof (rule vector_text_roundtrip)
  have "f32_mag (1 / 2) = 1 / 2" by code_simp
  then show "list_all is_f32 [f_one, Fin True (1 / 2), NaN]" by (simp add: f_one_def)
qed

end
