(* ===== verification/Models.thy ===== *)
theory Models
  imports Go_Strings
begin

text \<open>
  The data of the server: the structs of \<open>internal/models\<close>, the results of the repositories
  and the JSON values that metadata is made of.

  A Go map is a list of its entries, in the order in which a \<open>range\<close> loop visits them: that
  order is not specified, so what is proved holds for every list. A nil map is \<open>None\<close>.
  A nil slice and an empty one are both the empty list. Times are instants, as integers.
\<close>

section \<open>JSON\<close>

datatype jval = JNull | JBool bool | JNum fp | JStr string | JArr "jval list" | JObj "(string \<times> jval) list"

type_synonym metadata = "(string \<times> jval) list option"

text \<open>
  \<open>json.Marshal\<close> and \<open>json.Unmarshal\<close> into a \<open>map[string]any\<close>. JSON text is represented by
  the value it encodes; the type \<open>json\<close> wraps it. Encoding fails on numbers that are not
  finite, decoding on a value that is neither an object nor \<open>null\<close>.
\<close>

datatype json = Json jval

fun json_finite :: "jval \<Rightarrow> bool" where
  "json_finite (JNum x) = (\<not> IsNaN x \<and> \<not> IsInf x)"
| "json_finite (JArr vs) = list_all json_finite vs"
| "json_finite (JObj kvs) = list_all (\<lambda>kv. json_finite (snd kv)) kvs"
| "json_finite _ = True"

definition json_Marshal :: "metadata \<Rightarrow> json result" where
  "json_Marshal m =
     (case m of
        None \<Rightarrow> Ok (Json JNull)
      | Some kvs \<Rightarrow>
          (if json_finite (JObj kvs) then Ok (Json (JObj kvs)) else Err (ErrNew ''json: unsupported value'')))"

fun json_Unmarshal :: "json \<Rightarrow> metadata result" where
  "json_Unmarshal (Json (JObj kvs)) = Ok (Some kvs)"
| "json_Unmarshal (Json JNull) = Ok None"
| "json_Unmarshal (Json _) = Err (ErrNew ''json: cannot unmarshal value into Go value of type map[string]interface {}'')"

lemma json_roundtrip: "json_Marshal m = Ok b \<Longrightarrow> json_Unmarshal b = Ok m"
  by (auto simp: json_Marshal_def split: option.splits if_splits)

section \<open>Records\<close>

record Collection =
  c_Id :: string
  c_Name :: string
  c_VectorDimension :: int
  c_DistanceMetric :: string
  c_MetadataSchema :: metadata
  c_EmbeddingProvider :: string
  c_EmbeddingModel :: string
  c_CreatedAt :: int
  c_UpdatedAt :: int
  c_DocumentCount :: int

record Document =
  d_Id :: string
  d_CollectionId :: string
  d_Vector :: "fp list"
  d_Metadata :: metadata
  d_Content :: string
  d_CreatedAt :: int
  d_UpdatedAt :: int

definition zero_Document :: Document where
  "zero_Document =
     \<lparr>d_Id = [], d_CollectionId = [], d_Vector = [], d_Metadata = None, d_Content = [],
      d_CreatedAt = 0, d_UpdatedAt = 0\<rparr>"

record SearchResult =
  r_Document :: Document
  r_Score :: fp

record UpsertResult =
  u_Document :: Document
  u_IsNew :: bool

record ChunkingConfig =
  Strategy :: string
  ChunkSize :: int
  ChunkOverlap :: int

end
