(* ===== verification/Cache.thy ===== *)
theory Cache
  imports Models
begin

text \<open>
  The collection cache of \<open>internal/db/collection_cache.go\<close>: a map from collection ids to
  the facts that every document operation needs. The methods run under a lock, so each is
  one step on the map. The world of the services (\<open>world\<close>) holds the cache, the metric
  counters and, as type parameters, the state behind the repositories and the state of the
  embedding providers on the network.
\<close>

section \<open>State\<close>

record collectionInfo =
  ci_dimension :: int
  ci_distanceMetric :: string
  ci_embeddingProvider :: string
  ci_embeddingModel :: string

type_synonym cache = "string \<rightharpoonup> collectionInfo"

text \<open>The counters of \<open>internal/metrics/metrics.go\<close> that the services and the cache move. Of a
  histogram the number of observations is kept.\<close>

record meters =
  CacheOps :: "string \<Rightarrow> nat"
  IngestChunks :: "string \<Rightarrow> nat"
  IngestEmbedCalls :: "string \<times> string \<Rightarrow> nat"
  IngestEmbedDuration :: "string \<Rightarrow> nat"

definition no_meters :: meters where
  "no_meters = \<lparr>CacheOps = (\<lambda>_. 0), IngestChunks = (\<lambda>_. 0), IngestEmbedCalls = (\<lambda>_. 0),
     IngestEmbedDuration = (\<lambda>_. 0)\<rparr>"

definition bump :: "'a \<Rightarrow> nat \<Rightarrow> ('a \<Rightarrow> nat) \<Rightarrow> 'a \<Rightarrow> nat" where
  "bump l n f = f (l := f l + n)"

record ('d, 'h) world =
  store :: 'd
  remote :: 'h
  cache :: cache
  meters :: meters

definition on_store :: "('d, 'e, 'a) op \<Rightarrow> (('d, 'h) world, 'e, 'a) op" where
  "on_store m w = (case m (store w) of (r, d) \<Rightarrow> (r, w\<lparr>store := d\<rparr>))"

definition on_remote :: "('h, 'e, 'a) op \<Rightarrow> (('d, 'h) world, 'e, 'a) op" where
  "on_remote m w = (case m (remote w) of (r, h) \<Rightarrow> (r, w\<lparr>remote := h\<rparr>))"

definition count :: "(meters \<Rightarrow> meters) \<Rightarrow> (('d, 'h) world, gerror, unit) op" where
  "count f = update (\<lambda>w. w\<lparr>meters := f (meters w)\<rparr>)"

section \<open>Operations\<close>

definition NewCollectionCache :: cache where
  "NewCollectionCache = (\<lambda>_. None)"

definition CheckIdOrName :: "string \<Rightarrow> string \<Rightarrow> cache \<Rightarrow> bool" where
  "CheckIdOrName collectionId name c =
     (let res = (if name = [] then collectionId else name) in c res \<noteq> None)"

definition cache_Insert :: "string \<Rightarrow> int \<Rightarrow> string \<Rightarrow> string \<Rightarrow> string \<Rightarrow> cache \<Rightarrow> cache" where
  "cache_Insert collectionId dimn metric provider model c =
     c(collectionId \<mapsto> \<lparr>ci_dimension = dimn, ci_distanceMetric = metric,
                       ci_embeddingProvider = provider, ci_embeddingModel = model\<rparr>)"

text \<open>A lookup that fails yields the zero value of the struct.\<close>

definition zero_info :: collectionInfo where
  "zero_info = \<lparr>ci_dimension = 0, ci_distanceMetric = [], ci_embeddingProvider = [], ci_embeddingModel = []\<rparr>"

definition lookup_info :: "string \<Rightarrow> cache \<Rightarrow> collectionInfo \<times> bool" where
  "lookup_info collectionId c =
     (case c collectionId of Some info \<Rightarrow> (info, True) | None \<Rightarrow> (zero_info, False))"

definition GetDimension :: "string \<Rightarrow> cache \<Rightarrow> int \<times> bool" where
  "GetDimension collectionId c =
     (case lookup_info collectionId c of (info, exists) \<Rightarrow> (ci_dimension info, exists))"

definition GetDistanceMetric :: "string \<Rightarrow> cache \<Rightarrow> string \<times> bool" where
  "GetDistanceMetric collectionId c =
     (case lookup_info collectionId c of (info, exists) \<Rightarrow> (ci_distanceMetric info, exists))"

definition GetInfo :: "string \<Rightarrow> (('d, 'h) world, gerror, int \<times> string \<times> string \<times> string \<times> bool) op" where
  "GetInfo collectionId w =
     (case lookup_info collectionId (cache w) of
        (info, exists) \<Rightarrow>
          (Ok (ci_dimension info, ci_distanceMetric info, ci_embeddingProvider info, ci_embeddingModel info, exists),
           w\<lparr>meters := (meters w)\<lparr>CacheOps :=
               bump (if exists then ''hit'' else ''miss'') 1 (CacheOps (meters w))\<rparr>\<rparr>))"

definition cache_Delete :: "string \<Rightarrow> cache \<Rightarrow> cache" where
  "cache_Delete collectionId c = c(collectionId := None)"

section \<open>The contract of the cache\<close>

text \<open>What the operations promise each other: an id answers with what was inserted last.\<close>

locale info_cache =
  fixes insert_info :: "string \<Rightarrow> int \<Rightarrow> string \<Rightarrow> string \<Rightarrow> string \<Rightarrow> 'c \<Rightarrow> 'c"
    and delete_info :: "string \<Rightarrow> 'c \<Rightarrow> 'c"
    and find_info :: "string \<Rightarrow> 'c \<Rightarrow> collectionInfo \<times> bool"
  assumes find_insert: "find_info i (insert_info j dimn metric provider model c) =
       (if i = j then (\<lparr>ci_dimension = dimn, ci_distanceMetric = metric, ci_embeddingProvider = provider,
                        ci_embeddingModel = model\<rparr>, True)
        else find_info i c)"
    and find_delete: "find_info i (delete_info j c) = (if i = j then (zero_info, False) else find_info i c)"
begin

lemma last_insert_wins:
  "find_info i (insert_info j d2 m2 p2 e2 (insert_info j d1 m1 p1 e1 c)) = find_info i (insert_info j d2 m2 p2 e2 c)"
  by (simp add: find_insert)

lemma insert_other: "i \<noteq> j \<Longrightarrow> find_info i (insert_info j d m p e c) = find_info i c"
  by (simp add: find_insert)

lemma delete_insert: "find_info i (delete_info j (insert_info j d m p e c)) = find_info i (delete_info j c)"
  by (simp add: find_insert find_delete)

lemma insert_delete: "find_info i (insert_info j d m p e (delete_info j c)) = find_info i (insert_info j d m p e c)"
  by (simp add: find_insert find_delete)

text \<open>A sequence of inserts, as warming the cache does it: an id keeps its last entry.\<close>

lemma fold_inserts:
  "find_info i (fold (\<lambda>(j, d, m, p, e). insert_info j d m p e) rows c) =
     (case List.find (\<lambda>(j, _). j = i) (rev rows) of
        Some (j, d, m, p, e) \<Rightarrow>
          (\<lparr>ci_dimension = d, ci_distanceMetric = m, ci_embeddingProvider = p, ci_embeddingModel = e\<rparr>, True)
      | None \<Rightarrow> find_info i c)"
proof (induction rows rule: rev_induct)
  case (snoc r rows)
  then show ?case by (cases r) (auto simp: find_insert)
qed simp

end

interpretation cc: info_cache cache_Insert cache_Delete lookup_info
  by unfold_locales (simp_all add: lookup_info_def cache_Insert_def cache_Delete_def)

section \<open>Facts\<close>

lemma on_store_run [op_simps]: "m (store w) = (r, d) \<Longrightarrow> on_store m w = (r, w\<lparr>store := d\<rparr>)"
  by (simp add: on_store_def)

lemma on_remote_run [op_simps]: "m (remote w) = (r, h) \<Longrightarrow> on_remote m w = (r, w\<lparr>remote := h\<rparr>)"
  by (simp add: on_remote_def)

lemma safe_on_store: "safe_op m \<Longrightarrow> safe_op (on_store m)"
  by (auto simp: safe_op_def on_store_def split: prod.splits) (metis fst_conv)

lemma safe_on_remote: "safe_op m \<Longrightarrow> safe_op (on_remote m)"
  by (auto simp: safe_op_def on_remote_def split: prod.splits) (metis fst_conv)

lemma preserves_on_store:
  "(\<And>w. I w \<Longrightarrow> I (w\<lparr>store := snd (m (store w))\<rparr>)) \<Longrightarrow> preserves I (on_store m)"
  by (auto simp: preserves_def on_store_def split: prod.splits) (metis snd_conv)

lemma preserves_on_remote:
  "(\<And>w h. I w \<Longrightarrow> I (w\<lparr>remote := h\<rparr>)) \<Longrightarrow> preserves I (on_remote m)"
  by (auto simp: preserves_def on_remote_def split: prod.splits)

lemma GetInfo_run [op_simps]:
  "GetInfo i w =
     (Ok (case cache w i of
            Some info \<Rightarrow> (ci_dimension info, ci_distanceMetric info, ci_embeddingProvider info, ci_embeddingModel info, True)
          | None \<Rightarrow> (0, [], [], [], False)),
      w\<lparr>meters := (meters w)\<lparr>CacheOps :=
          bump (if cache w i = None then ''miss'' else ''hit'') 1 (CacheOps (meters w))\<rparr>\<rparr>)"
  by (auto simp: GetInfo_def lookup_info_def zero_info_def split: option.splits)

lemma GetInfo_world [simp]:
  "cache (snd (GetInfo i w)) = cache w" "store (snd (GetInfo i w)) = store w"
  "remote (snd (GetInfo i w)) = remote w"
  by (simp_all add: GetInfo_run)

lemma GetDimension_insert [simp]: "GetDimension i (cache_Insert i d m p e c) = (d, True)"
  by (simp add: GetDimension_def cc.find_insert)

lemma GetDistanceMetric_insert [simp]: "GetDistanceMetric i (cache_Insert i d m p e c) = (m, True)"
  by (simp add: GetDistanceMetric_def cc.find_insert)

lemma CheckIdOrName_insert: "CheckIdOrName i [] (cache_Insert j d m p e c) = (i = j \<or> CheckIdOrName i [] c)"
  by (simp add: CheckIdOrName_def cache_Insert_def)

lemma CheckIdOrName_delete: "CheckIdOrName i [] (cache_Delete j c) = (i \<noteq> j \<and> CheckIdOrName i [] c)"
  by (simp add: CheckIdOrName_def cache_Delete_def)

end
