(* ===== verification/Database.thy ===== *)
theory Database
  imports Models
begin

text \<open>
  What the repositories use of \<open>database/sql\<close>. The server behind it, PostgreSQL with the
  pgvector extension, is not code of this repository: it is the record \<open>driver\<close>, a parameter
  of every definition that talks to it. A statement is its text with the arguments for its
  placeholders; a query answers with rows and, behind them, the error that ended the
  iteration, if any. The handling of rows by \<open>QueryRow\<close>, \<open>Scan\<close> and \<open>Rows\<close> is the library's.

  The repositories start goroutines for index statements and do not wait for them: they are
  tasks in the pool, run later and in any order by \<open>run_goroutine\<close>.
\<close>

section \<open>The driver\<close>

datatype sqlarg = AStr string | AInt int | AFloat fp | AJson json | ANullStr "string option" | AIds "string list"

text \<open>A number in a column stands for the value of its text, which is what is scanned.\<close>

datatype sqlval = VNull | VText string | VInt int | VBool bool | VFloat fp | VTime int | VJson json

record rows =
  row_list :: "sqlval list list"
  rows_Err :: "gerror option"

record 'd driver =
  drv_Query :: "string \<Rightarrow> sqlarg list \<Rightarrow> ('d, gerror, rows) op"
  drv_Exec :: "string \<Rightarrow> sqlarg list \<Rightarrow> ('d, gerror, int result) op"
  drv_Begin :: "('d, gerror, unit) op"
  drv_Commit :: "('d, gerror, unit) op"
  drv_Rollback :: "'d \<Rightarrow> 'd"
  drv_Ping :: "('d, gerror, unit) op"

section \<open>The pool\<close>

datatype task = BuildIndex string | DropIndex string

record 'd pool =
  server :: 'd
  goroutines :: "task list"
  HNSWBuildDuration :: nat
  HNSWBuildErrors :: nat

definition on_server :: "('d, 'e, 'a) op \<Rightarrow> ('d pool, 'e, 'a) op" where
  "on_server m p = (case m (server p) of (r, d) \<Rightarrow> (r, p\<lparr>server := d\<rparr>))"

definition spawn :: "task \<Rightarrow> ('d pool, gerror, unit) op" where
  "spawn t = update (\<lambda>p. p\<lparr>goroutines := goroutines p @ [t]\<rparr>)"

text \<open>The body of a goroutine: a build is timed and its failure counted, a drop is not.\<close>

fun run_task :: "'d driver \<Rightarrow> task \<Rightarrow> 'd pool \<Rightarrow> 'd pool" where
  "run_task drv (BuildIndex q) p =
     (case on_server (drv_Exec drv q []) p of
        (Err _, p') \<Rightarrow> p'\<lparr>HNSWBuildDuration := HNSWBuildDuration p' + 1, HNSWBuildErrors := HNSWBuildErrors p' + 1\<rparr>
      | (_, p') \<Rightarrow> p'\<lparr>HNSWBuildDuration := HNSWBuildDuration p' + 1\<rparr>)"
| "run_task drv (DropIndex q) p = snd (on_server (drv_Exec drv q []) p)"

text \<open>The scheduler lets one of the waiting goroutines run.\<close>

definition run_goroutine :: "'d driver \<Rightarrow> nat \<Rightarrow> 'd pool \<Rightarrow> 'd pool" where
  "run_goroutine drv i p =
     (if i < length (goroutines p)
      then run_task drv (goroutines p ! i)
             (p\<lparr>goroutines := take i (goroutines p) @ drop (Suc i) (goroutines p)\<rparr>)
      else p)"

section \<open>Rows\<close>

text \<open>The errors of \<open>Scan\<close> for a value that does not fit its destination.\<close>

definition scan_error :: gerror where
  "scan_error = ErrNew ''sql: Scan error''"

fun scan_string :: "sqlval \<Rightarrow> string result" where
  "scan_string (VText s) = Ok s" | "scan_string _ = Err scan_error"

fun scan_NullString :: "sqlval \<Rightarrow> string option result" where
  "scan_NullString (VText s) = Ok (Some s)"
| "scan_NullString VNull = Ok None"
| "scan_NullString _ = Err scan_error"

fun scan_bytes :: "sqlval \<Rightarrow> json option result" where
  "scan_bytes (VJson j) = Ok (Some j)"
| "scan_bytes VNull = Ok None"
| "scan_bytes _ = Err scan_error"

fun scan_int :: "sqlval \<Rightarrow> int result" where
  "scan_int (VInt i) = Ok i" | "scan_int _ = Err scan_error"

text \<open>A 32-bit destination: a value out of its range is an error.\<close>

fun scan_int32 :: "sqlval \<Rightarrow> int result" where
  "scan_int32 (VInt i) = (if is_int32 i then Ok i else Err scan_error)" | "scan_int32 _ = Err scan_error"

fun scan_bool :: "sqlval \<Rightarrow> bool result" where
  "scan_bool (VBool b) = Ok b" | "scan_bool _ = Err scan_error"

fun scan_time :: "sqlval \<Rightarrow> int result" where
  "scan_time (VTime t) = Ok t" | "scan_time _ = Err scan_error"

fun scan_float32 :: "sqlval \<Rightarrow> fp result" where
  "scan_float32 (VFloat (Fin s m)) =
     (case f32_round s m of Inf _ \<Rightarrow> Err scan_error | x \<Rightarrow> Ok x)"
| "scan_float32 (VFloat x) = Ok x"
| "scan_float32 _ = Err scan_error"

text \<open>\<open>QueryRowContext(...).Scan(...)\<close>: the first row; none is \<open>sql.ErrNoRows\<close>, and what goes
  wrong behind the row shows when the rows are closed.\<close>

definition first_row :: "(sqlval list \<Rightarrow> 'a result) \<Rightarrow> rows \<Rightarrow> 'a result" where
  "first_row scan rs =
     (case row_list rs of
        [] \<Rightarrow> (case rows_Err rs of Some e \<Rightarrow> Err e | None \<Rightarrow> Err ErrNoRows)
      | r # _ \<Rightarrow> chain (scan r) (\<lambda>x. case rows_Err rs of Some e \<Rightarrow> Err e | None \<Rightarrow> Ok x))"

definition QueryRow ::
  "'d driver \<Rightarrow> string \<Rightarrow> sqlarg list \<Rightarrow> (sqlval list \<Rightarrow> 'a result) \<Rightarrow> ('d pool, gerror, 'a) op" where
  "QueryRow drv q args scan =
     andThen (on_server (drv_Query drv q args)) (\<lambda>rs. lift (first_row scan rs))"

text \<open>A loop \<open>for rows.Next()\<close> that scans each row and stops at the first error; whether
  \<open>rows.Err()\<close> is asked afterwards is up to the caller.\<close>

fun scan_rows :: "(sqlval list \<Rightarrow> 'a result) \<Rightarrow> sqlval list list \<Rightarrow> 'a list result" where
  "scan_rows scan [] = Ok []"
| "scan_rows scan (r # rs) = chain (scan r) (\<lambda>x. chain (scan_rows scan rs) (\<lambda>xs. Ok (x # xs)))"

definition check_Err :: "(gerror \<Rightarrow> gerror) \<Rightarrow> rows \<Rightarrow> unit result" where
  "check_Err wrap rs = (case rows_Err rs of Some e \<Rightarrow> Err (wrap e) | None \<Rightarrow> Ok ())"

definition collect_rows ::
  "(sqlval list \<Rightarrow> 'a result) \<Rightarrow> (gerror \<Rightarrow> gerror) \<Rightarrow> rows \<Rightarrow> 'a list result" where
  "collect_rows scan wrap rs =
     chain (scan_rows scan (row_list rs)) (\<lambda>xs. chain (check_Err wrap rs) (\<lambda>_. Ok xs))"

section \<open>Texts of statements\<close>

text \<open>A line of a raw string literal: a line feed, the indentation by tabs, the text.\<close>

definition line :: "nat \<Rightarrow> string \<Rightarrow> string" where
  "line tabs s = CHR 0x0A # replicate tabs (CHR 0x09) @ s"

text \<open>The placeholders \<open>$n\<close> of a statement, in the order of the text.\<close>

function placeholders :: "string \<Rightarrow> nat list" where
  "placeholders [] = []"
| "placeholders (c # s) =
     (if c = CHR ''$'' \<and> takeWhile is_digit s \<noteq> []
      then digits_value (takeWhile is_digit s) # placeholders (dropWhile is_digit s)
      else placeholders s)"
  by pat_completeness auto
termination
  by (relation "measure length") (auto simp: length_dropWhile_le le_imp_less_Suc)

text \<open>A statement fits its arguments when it names each of them and nothing else.\<close>

definition args_fit :: "string \<Rightarrow> sqlarg list \<Rightarrow> bool" where
  "args_fit q args = (set (placeholders q) = {1..length args})"

section \<open>Facts\<close>

lemma on_server_run [op_simps]:
  "m (server p) = (r, d) \<Longrightarrow> on_server m p = (r, p\<lparr>server := d\<rparr>)"
  by (simp add: on_server_def)

lemma on_server_frame [simp]:
  "goroutines (snd (on_server m p)) = goroutines p"
  "HNSWBuildErrors (snd (on_server m p)) = HNSWBuildErrors p"
  by (simp_all add: on_server_def split: prod.splits)

lemma spawn_run [op_simps]: "spawn t p = (Ok (), p\<lparr>goroutines := goroutines p @ [t]\<rparr>)"
  by (simp add: spawn_def update_def)

lemma scan_rows_Ok: "scan_rows scan rs = Ok xs \<longleftrightarrow> list_all2 (\<lambda>r x. scan r = Ok x) rs xs"
proof (induction rs arbitrary: xs)
  case Nil
  then show ?case by auto
next
  case (Cons r rs)
  then show ?case by (cases xs) auto
qed

lemma collect_rows_Ok:
  "collect_rows scan wrap rs = Ok xs \<longleftrightarrow>
     list_all2 (\<lambda>r x. scan r = Ok x) (row_list rs) xs \<and> rows_Err rs = None"
  by (auto simp: collect_rows_def check_Err_def scan_rows_Ok split: option.splits)

lemma collect_rows_length: "collect_rows scan wrap rs = Ok xs \<Longrightarrow> length xs = length (row_list rs)"
  by (auto simp: collect_rows_Ok dest: list_all2_lengthD)

lemma first_row_Ok:
  "first_row scan rs = Ok x \<longleftrightarrow>
     (\<exists>r rest. row_list rs = r # rest \<and> scan r = Ok x) \<and> rows_Err rs = None"
  by (auto simp: first_row_def split: list.splits option.splits)

lemma placeholders_append:
  "t = [] \<or> \<not> is_digit (hd t) \<Longrightarrow> placeholders (s @ t) = placeholders s @ placeholders t"
proof (induction s rule: placeholders.induct)
  case (2 c s)
  have tw: "takeWhile is_digit (s @ t) = takeWhile is_digit s"
  proof (cases "\<forall>x\<in>set s. is_digit x")
    case True
    then have e: "takeWhile is_digit s = s" by simp
    show ?thesis unfolding e using True 2(3) by (cases t) (auto simp: takeWhile_append)
  qed (auto simp: takeWhile_append)
  have dw: "dropWhile is_digit (s @ t) = dropWhile is_digit s @ t"
    using 2(3) by (cases t; cases "dropWhile is_digit s = []")
      (auto simp: dropWhile_append dropWhile_eq_Nil_conv)
  show ?case
  proof (cases "c = CHR ''$'' \<and> takeWhile is_digit s \<noteq> []")
    case True
    then show ?thesis using 2(1) [OF True 2(3)] by (simp only: append_Cons placeholders.simps tw dw) simp
  next
    case False
    then show ?thesis using 2(2) [OF False 2(3)] by (simp only: append_Cons placeholders.simps tw dw) simp
  qed
qed simp

lemma placeholders_decimal: "placeholders (CHR ''$'' # decimal n) = [n]"
proof -
  have d: "\<forall>c\<in>set (decimal n). is_digit c" using decimal_digits by blast
  then have "takeWhile is_digit (decimal n) = decimal n" and "dropWhile is_digit (decimal n) = []"
    by simp_all
  then show ?thesis by (simp only: placeholders.simps) simp
qed

text \<open>A text, a placeholder and a text: how the builders of dynamic statements go on.\<close>

lemma placeholders_piece:
  assumes "t = [] \<or> \<not> is_digit (hd t)"
  shows "placeholders (s @ CHR ''$'' # decimal n @ t) = placeholders s @ n # placeholders t"
proof -
  have "\<not> is_digit (CHR ''$'')" by code_simp
  then have "placeholders (s @ CHR ''$'' # decimal n @ t) =
      placeholders s @ placeholders (CHR ''$'' # decimal n @ t)"
    by (intro placeholders_append) simp
  moreover have "placeholders ((CHR ''$'' # decimal n) @ t) = placeholders (CHR ''$'' # decimal n) @ placeholders t"
    using assms by (rule placeholders_append)
  ultimately show ?thesis by (simp add: placeholders_decimal del: placeholders.simps)
qed

text \<open>A goroutine runs once: it leaves the list of the waiting ones.\<close>

lemma run_task_goroutines [simp]: "goroutines (run_task drv t p) = goroutines p"
  by (cases t) (auto split: prod.splits outcome.splits simp: on_server_def)

lemma run_goroutine_removes:
  "i < length (goroutines p) \<Longrightarrow>
     goroutines (run_goroutine drv i p) = take i (goroutines p) @ drop (Suc i) (goroutines p)"
  by (simp add: run_goroutine_def)

end
