(* ===== verification/Collection_Repo.thy ===== *)
theory Collection_Repo
  imports Database
begin

text \<open>
  \<open>internal/db/collection_repo.go\<close>: the statements on the table of collections. Each operation
  runs on the pool, with the driver as a parameter.
\<close>

section \<open>Statements\<close>

definition distanceMetricOpsClass :: "string \<Rightarrow> string" where
  "distanceMetricOpsClass metric =
     (if metric = ''euclidean'' then ''vector_l2_ops''
      else if metric = ''inner_product'' then ''vector_ip_ops''
      else ''vector_cosine_ops'')"

definition collectionColumns :: string where
  "collectionColumns = ''id, name, vector_dim, distance_metric, metadata_schema, embedding_provider, embedding_model, created_at, updated_at, document_count''"

definition insertCollection :: string where
  "insertCollection =
     line 2 ''INSERT INTO collections (name, vector_dim, metadata_schema, distance_metric, embedding_provider, embedding_model)'' @
     line 2 ''VALUES ($1, $2, $3, $4, $5, $6)'' @
     line 2 ''RETURNING id, name, vector_dim, distance_metric, metadata_schema, embedding_provider, embedding_model, created_at, updated_at, document_count'' @
     line 1 ''''"

definition indexQuery :: "string \<Rightarrow> string \<Rightarrow> string" where
  "indexQuery collectionId opsClass =
     fmt_Sprintf
       (line 2 ''CREATE INDEX IF NOT EXISTS idx_hnsw_%s'' @
        line 2 ''ON documents USING hnsw (vector %s)'' @
        line 2 ''WITH (m = 16, ef_construction = 64)'' @
        line 2 (''WHERE collection_id = '' @ [CHR 0x27] @ ''%s'' @ [CHR 0x27]) @
        line 1 '''')
       [FStr collectionId, FStr opsClass, FStr collectionId]"

definition dropIndexQuery :: "string \<Rightarrow> string" where
  "dropIndexQuery collectionId = fmt_Sprintf ''DROP INDEX IF EXISTS idx_hnsw_%s'' [FStr collectionId]"

definition listCollections :: string where
  "listCollections =
     fmt_Sprintf (line 2 ''SELECT %s FROM collections ORDER BY id LIMIT $1 OFFSET $2'' @ line 1 '''')
       [FStr collectionColumns]"

definition collectionById :: string where
  "collectionById = fmt_Sprintf ''SELECT %s FROM collections WHERE id = $1'' [FStr collectionColumns]"

definition collectionByName :: string where
  "collectionByName = fmt_Sprintf ''SELECT %s FROM collections WHERE name = $1'' [FStr collectionColumns]"

definition deleteCollection :: string where
  "deleteCollection =
     line 2 ''DELETE FROM collections WHERE id = $1'' @ line 2 ''RETURNING document_count'' @ line 1 ''''"

section \<open>Rows\<close>

text \<open>The ten destinations of a row, and the bytes of the schema, which are decoded afterwards.\<close>

fun scanColumns :: "sqlval list \<Rightarrow> (Collection \<times> json option) result" where
  "scanColumns [v1, v2, v3, v4, v5, v6, v7, v8, v9, v10] =
     chain (scan_string v1) (\<lambda>i.
     chain (scan_string v2) (\<lambda>name.
     chain (scan_int v3) (\<lambda>vd.
     chain (scan_string v4) (\<lambda>metric.
     chain (scan_bytes v5) (\<lambda>metadataBytes.
     chain (scan_NullString v6) (\<lambda>ep.
     chain (scan_NullString v7) (\<lambda>em.
     chain (scan_time v8) (\<lambda>created.
     chain (scan_time v9) (\<lambda>updated.
     chain (scan_int v10) (\<lambda>docs.
       Ok (\<lparr>c_Id = i, c_Name = name, c_VectorDimension = vd, c_DistanceMetric = metric,
            c_MetadataSchema = None,
            c_EmbeddingProvider = (case ep of Some s \<Rightarrow> s | None \<Rightarrow> []),
            c_EmbeddingModel = (case em of Some s \<Rightarrow> s | None \<Rightarrow> []),
            c_CreatedAt = created, c_UpdatedAt = updated, c_DocumentCount = docs\<rparr>, metadataBytes)))))))))))"
| "scanColumns _ = Err scan_error"

definition decodeSchema :: "Collection \<times> json option \<Rightarrow> Collection result" where
  "decodeSchema r =
     (case r of
        (c, Some j) \<Rightarrow> chain (json_Unmarshal j) (\<lambda>m. Ok (c\<lparr>c_MetadataSchema := m\<rparr>))
      | (c, None) \<Rightarrow> Ok c)"

definition scanCollection :: "sqlval list \<Rightarrow> Collection result" where
  "scanCollection row = chain (scanColumns row) decodeSchema"

section \<open>Operations\<close>

definition NullString :: "string \<Rightarrow> string option" where
  "NullString s = (if s \<noteq> [] then Some s else None)"

definition CollectionRepo_Create ::
  "'d driver \<Rightarrow> string \<Rightarrow> int \<Rightarrow> metadata \<Rightarrow> string \<Rightarrow> string \<Rightarrow> string \<Rightarrow> ('d pool, gerror, Collection) op" where
  "CollectionRepo_Create drv name vectorDimension metadataSchema distanceMetric embeddingProvider embeddingModel =
     (let distanceMetric = (if distanceMetric = [] then ''cosine'' else distanceMetric) in
      andThen (lift (json_Marshal metadataSchema)) (\<lambda>metadataJSON.
      andThen (QueryRow drv insertCollection
                 [AStr name, AInt vectorDimension, AJson metadataJSON, AStr distanceMetric,
                  ANullStr (NullString embeddingProvider), ANullStr (NullString embeddingModel)]
                 scanColumns) (\<lambda>row.
      andThen (lift (decodeSchema row)) (\<lambda>collection.
      andThen (spawn (BuildIndex (indexQuery (c_Id collection) (distanceMetricOpsClass distanceMetric)))) (\<lambda>_.
        ret collection)))))"

text \<open>The loop of \<open>List\<close> stops where the rows stop: \<open>rows.Err()\<close> is not asked.\<close>

definition CollectionRepo_List :: "'d driver \<Rightarrow> int \<Rightarrow> int \<Rightarrow> ('d pool, gerror, Collection list) op" where
  "CollectionRepo_List drv limit offset =
     andThen (on_server (drv_Query drv listCollections [AInt limit, AInt offset])) (\<lambda>rs.
       lift (scan_rows scanCollection (row_list rs)))"

text \<open>\<open>scanCollection\<close> on a single row.\<close>

definition oneCollection :: "'d driver \<Rightarrow> string \<Rightarrow> sqlarg list \<Rightarrow> ('d pool, gerror, Collection) op" where
  "oneCollection drv q args =
     andThen (QueryRow drv q args scanColumns) (\<lambda>row. lift (decodeSchema row))"

definition CollectionRepo_ListById :: "'d driver \<Rightarrow> string \<Rightarrow> ('d pool, gerror, Collection) op" where
  "CollectionRepo_ListById drv collectionId = oneCollection drv collectionById [AStr collectionId]"

definition GetCollectionByName :: "'d driver \<Rightarrow> string \<Rightarrow> ('d pool, gerror, Collection) op" where
  "GetCollectionByName drv name = oneCollection drv collectionByName [AStr name]"

fun scanCount :: "sqlval list \<Rightarrow> int result" where
  "scanCount [v] = scan_int v"
| "scanCount _ = Err scan_error"

definition CollectionRepo_DeleteById :: "'d driver \<Rightarrow> string \<Rightarrow> ('d pool, gerror, int) op" where
  "CollectionRepo_DeleteById drv collectionId =
     andThen (QueryRow drv deleteCollection [AStr collectionId] scanCount) (\<lambda>documentCount.
     andThen (spawn (DropIndex (dropIndexQuery collectionId))) (\<lambda>_.
       ret documentCount))"

section \<open>Facts\<close>

lemma collection_statements_fit:
  "args_fit insertCollection [a1, a2, a3, a4, a5, a6]"
  "args_fit listCollections [a1, a2]"
  "args_fit collectionById [a1]"
  "args_fit collectionByName [a1]"
  "args_fit deleteCollection [a1]"
proof -
  have "placeholders insertCollection = [1, 2, 3, 4, 5, 6]" "placeholders listCollections = [1, 2]"
    "placeholders collectionById = [1]" "placeholders collectionByName = [1]"
    "placeholders deleteCollection = [1]" by code_simp+
  then show "args_fit insertCollection [a1, a2, a3, a4, a5, a6]" "args_fit listCollections [a1, a2]"
    "args_fit collectionById [a1]" "args_fit collectionByName [a1]" "args_fit deleteCollection [a1]"
    by (auto simp: args_fit_def)
qed

text \<open>A row that holds a collection, as the table would return it.\<close>

definition collectionRow :: "Collection \<Rightarrow> sqlval list" where
  "collectionRow c =
     [VText (c_Id c), VText (c_Name c), VInt (c_VectorDimension c), VText (c_DistanceMetric c),
      (case c_MetadataSchema c of Some kvs \<Rightarrow> VJson (Json (JObj kvs)) | None \<Rightarrow> VNull),
      (case NullString (c_EmbeddingProvider c) of Some s \<Rightarrow> VText s | None \<Rightarrow> VNull),
      (case NullString (c_EmbeddingModel c) of Some s \<Rightarrow> VText s | None \<Rightarrow> VNull),
      VTime (c_CreatedAt c), VTime (c_UpdatedAt c), VInt (c_DocumentCount c)]"

lemma scan_collectionRow: "scanCollection (collectionRow c) = Ok c"
  by (cases c)
     (auto simp: scanCollection_def collectionRow_def decodeSchema_def NullString_def split: option.splits)

lemma QueryRow_Ok:
  "QueryRow drv q args scan p = (Ok x, p') \<longleftrightarrow>
     (\<exists>rs d. drv_Query drv q args (server p) = (Ok rs, d) \<and> first_row scan rs = Ok x \<and> p' = p\<lparr>server := d\<rparr>)"
  by (auto simp: QueryRow_def andThen_def handle_def on_server_def lift_def fail_def
      split: prod.splits outcome.splits)

lemma QueryRow_frame [simp]:
  "goroutines (snd (QueryRow drv q args scan p)) = goroutines p"
  by (auto simp: QueryRow_def andThen_def handle_def on_server_def lift_def fail_def
      split: prod.splits outcome.splits)

end
