(* ===== verification/Document_Repo.thy ===== *)
theory Document_Repo
  imports Database Vector_Text
begin

text \<open>
  \<open>internal/db/document_repo.go\<close>: the statements on the table of documents. The dynamic
  statements are built by the same steps as in the source, with their texts verbatim, so
  that the numbering of the placeholders can be checked against the arguments. Each
  operation runs on the pool, with the driver as a parameter.
\<close>

section \<open>Pieces of statements\<close>

text \<open>An empty SQL string literal, two quotes.\<close>

definition empty_literal :: string where
  "empty_literal = [CHR 0x27, CHR 0x27]"

definition distanceOperator :: "string \<Rightarrow> string" where
  "distanceOperator metric =
     (if metric = ''euclidean'' then ''<->''
      else if metric = ''inner_product'' then ''<#>''
      else ''<=>'')"

definition similarityExpression :: "string \<Rightarrow> string \<Rightarrow> string" where
  "similarityExpression metric distExpr =
     (if metric = ''euclidean'' then fmt_Sprintf ''1.0 / (1.0 + (%s))'' [FStr distExpr]
      else if metric = ''inner_product'' then fmt_Sprintf ''(%s) * -1'' [FStr distExpr]
      else fmt_Sprintf ''1 - (%s)'' [FStr distExpr])"

definition vectorColumn :: "bool \<Rightarrow> string" where
  "vectorColumn includeVector = (if includeVector then ''vector, '' else [])"

text \<open>The loop over the metadata filter: a condition and an argument for each entry.\<close>

fun addFilters :: "(string \<times> jval) list \<Rightarrow> string \<Rightarrow> sqlarg list \<Rightarrow> int \<Rightarrow> (string \<times> sqlarg list \<times> int) result" where
  "addFilters [] q args argIndex = Ok (q, args, argIndex)"
| "addFilters ((key, value) # kvs) q args argIndex =
     chain (map_error (ErrWrap ''failed to marshal metadata filter: %w'' []) (json_Marshal (Some [(key, value)])))
       (\<lambda>filterJSON.
          addFilters kvs (q @ fmt_Sprintf '' AND metadata @> $%d::jsonb'' [FInt argIndex])
            (args @ [AJson filterJSON]) (argIndex + 1))"

text \<open>An optional condition on a minimum value.\<close>

definition filter_entries :: "metadata \<Rightarrow> (string \<times> jval) list" where
  "filter_entries m = (case m of Some kvs \<Rightarrow> kvs | None \<Rightarrow> [])"

section \<open>Statements\<close>

definition insertDocument :: string where
  "insertDocument =
     line 2 ''INSERT INTO documents (collection_id, vector, metadata, content)'' @
     line 2 ''VALUES ($1, $2::vector, $3, $4)'' @
     line 2 ''RETURNING id, collection_id, metadata, content, created_at, updated_at'' @
     line 1 ''''"

definition upsertDocument :: string where
  "upsertDocument =
     line 2 ''INSERT INTO documents (id, collection_id, vector, metadata, content)'' @
     line 2 ''VALUES ($1, $2, $3::vector, $4, $5)'' @
     line 2 ''ON CONFLICT (id) DO UPDATE SET'' @
     line 3 ''vector = EXCLUDED.vector,'' @
     line 3 ''metadata = EXCLUDED.metadata,'' @
     line 3 ''content = EXCLUDED.content,'' @
     line 3 ''updated_at = NOW()'' @
     line 2 ''RETURNING id, collection_id, metadata, content, created_at, updated_at, (xmax = 0) AS is_new'' @
     line 1 ''''"

definition listDocuments :: "bool \<Rightarrow> string" where
  "listDocuments includeVector =
     fmt_Sprintf
       (line 2 ''SELECT id, collection_id, %smetadata, content, created_at, updated_at'' @
        line 2 ''FROM documents'' @
        line 2 ''WHERE collection_id = $1'' @
        line 2 ''ORDER BY created_at DESC'' @
        line 2 ''LIMIT $2 OFFSET $3'' @
        line 1 '''')
       [FStr (vectorColumn includeVector)]"

definition documentById :: string where
  "documentById =
     line 2 ''SELECT id, collection_id, vector, metadata, content, created_at, updated_at'' @
     line 2 ''FROM documents'' @
     line 2 ''WHERE id = $1'' @
     line 1 ''''"

definition deleteDocument :: string where
  "deleteDocument = line 2 ''DELETE FROM documents WHERE id = $1'' @ line 1 ''''"

definition batchDelete :: string where
  "batchDelete =
     line 2 ''DELETE FROM documents '' @
     line 2 ''WHERE ID = ANY($1::uuid[]) '' @
     line 2 ''AND '' @
     line 2 ''collection_id = $2'' @
     line 2 ''RETURNING id, collection_id, metadata, content, created_at, updated_at'' @
     line 1 ''''"

text \<open>The statement of a vector search: the distance to the query vector, the similarity made of
  it, the fixed part, and then the conditions and the order with their arguments.\<close>

definition searchDist :: "string \<Rightarrow> string" where
  "searchDist distanceMetric = fmt_Sprintf ''vector %s $1::vector'' [FStr (distanceOperator distanceMetric)]"

definition searchSim :: "string \<Rightarrow> string" where
  "searchSim distanceMetric = similarityExpression distanceMetric (searchDist distanceMetric)"

definition searchBase :: "bool \<Rightarrow> string \<Rightarrow> string" where
  "searchBase includeVector distanceMetric =
     fmt_Sprintf
       (line 2 ''SELECT '' @
        line 3 ''id, collection_id, %smetadata, content, created_at, updated_at,'' @
        line 3 ''%s AS similarity'' @
        line 2 ''FROM documents'' @
        line 2 ''WHERE collection_id = $2'' @
        line 1 '''')
       [FStr (vectorColumn includeVector), FStr (searchSim distanceMetric)]"

definition searchQuery ::
  "string \<Rightarrow> fp list \<Rightarrow> int \<Rightarrow> metadata \<Rightarrow> fp \<Rightarrow> bool \<Rightarrow> string \<Rightarrow> (string \<times> sqlarg list) result" where
  "searchQuery collectionId queryVector topK metadataFilter minThreshold includeVector distanceMetric =
     chain (addFilters (filter_entries metadataFilter) (searchBase includeVector distanceMetric)
              [AStr (vectorToString queryVector), AStr collectionId] 3)
       (\<lambda>(query, args, argIndex).
          let (query, args, argIndex) =
                (if minThreshold > f_zero
                 then (query @ fmt_Sprintf '' AND (%s) >= $%d'' [FStr (searchSim distanceMetric), FInt argIndex],
                       args @ [AFloat minThreshold], argIndex + 1)
                 else (query, args, argIndex))
          in Ok (query @ fmt_Sprintf '' ORDER BY %s LIMIT $%d'' [FStr (searchDist distanceMetric), FInt argIndex],
                 args @ [AInt topK]))"

text \<open>The statement of a full-text search.\<close>

definition rankExpression :: string where
  "rankExpression =
     ''ts_rank(to_tsvector('english', COALESCE(content, '' @ empty_literal @ '')), plainto_tsquery('english', $1))''"

definition fullTextBase :: "bool \<Rightarrow> string" where
  "fullTextBase includeVector =
     fmt_Sprintf
       (line 2 ''SELECT id, collection_id, %smetadata, content, created_at, updated_at,'' @
        line 3 (''ts_rank(to_tsvector('english', COALESCE(content, '' @ empty_literal @ '')),'') @
        line 3 ''plainto_tsquery('english', $1)) as rank'' @
        line 2 ''FROM documents'' @
        line 2 ''WHERE collection_id = $2 '' @
        line 3 (''AND to_tsvector('english', COALESCE(content, '' @ empty_literal @ ''))'') @
        line 4 ''@@ plainto_tsquery('english', $1)'' @
        line 1 '''')
       [FStr (vectorColumn includeVector)]"

definition fullTextQuery ::
  "string \<Rightarrow> string \<Rightarrow> int \<Rightarrow> fp \<Rightarrow> bool \<Rightarrow> string \<times> sqlarg list" where
  "fullTextQuery collectionId query limit minRank includeVector =
     (let args = [AStr query, AStr collectionId];
          (searchQuery, args, argIndex) =
            (if minRank > f_zero
             then (fullTextBase includeVector @ fmt_Sprintf ('' AND '' @ rankExpression @ '' >= $%d'') [FInt 3],
                   args @ [AFloat minRank], 4)
             else (fullTextBase includeVector, args, 3))
      in (searchQuery @ fmt_Sprintf '' ORDER BY rank DESC LIMIT $%d'' [FInt argIndex], args @ [AInt limit]))"

text \<open>The statement of a hybrid search: without a text there is no full-text condition, and the
  placeholders move down by one.\<close>

definition hybridTextBase :: "bool \<Rightarrow> string \<Rightarrow> string" where
  "hybridTextBase includeVector distanceMetric =
     (let distExpr = fmt_Sprintf ''vector %s $3::vector'' [FStr (distanceOperator distanceMetric)];
          simExpr = similarityExpression distanceMetric distExpr
      in fmt_Sprintf
           (line 2 ''WITH scored AS ('' @
            line 3 ''SELECT id, collection_id, %smetadata, content, created_at, updated_at,'' @
            line 4 (''ts_rank(to_tsvector('english', COALESCE(content, '' @ empty_literal @ '')),'') @
            line 4 ''plainto_tsquery('english', $1)) as fts_score,'' @
            line 4 ''%s AS vector_score'' @
            line 3 ''FROM documents'' @
            line 3 ''WHERE collection_id = $2 '' @
            line 4 (''AND to_tsvector('english', COALESCE(content, '' @ empty_literal @ ''))'') @
            line 5 ''@@ plainto_tsquery('english', $1)'' @
            line 2 '''')
           [FStr (vectorColumn includeVector), FStr simExpr])"

definition hybridVectorBase :: "bool \<Rightarrow> string \<Rightarrow> string" where
  "hybridVectorBase includeVector distanceMetric =
     (let distExpr = fmt_Sprintf ''vector %s $2::vector'' [FStr (distanceOperator distanceMetric)];
          simExpr = similarityExpression distanceMetric distExpr
      in fmt_Sprintf
           (line 2 ''WITH scored AS ('' @
            line 3 ''SELECT id, collection_id, %smetadata, content, created_at, updated_at,'' @
            line 4 ''0::float as fts_score,'' @
            line 4 ''%s AS vector_score'' @
            line 3 ''FROM documents'' @
            line 3 ''WHERE collection_id = $1'' @
            line 2 '''')
           [FStr (vectorColumn includeVector), FStr simExpr])"

definition hybridHead ::
  "string \<Rightarrow> string \<Rightarrow> string \<Rightarrow> bool \<Rightarrow> string \<Rightarrow> string \<times> sqlarg list \<times> int" where
  "hybridHead collectionId queryText vectorStr includeVector distanceMetric =
     (if queryText \<noteq> []
      then (hybridTextBase includeVector distanceMetric,
            [AStr queryText, AStr collectionId, AStr vectorStr], 4)
      else (hybridVectorBase includeVector distanceMetric, [AStr collectionId, AStr vectorStr], 3))"

definition hybridTail :: "bool \<Rightarrow> int \<Rightarrow> string" where
  "hybridTail includeVector argIndex =
     fmt_Sprintf
       (line 0 '')'' @
        line 0 ''SELECT id, collection_id, %smetadata, content, created_at, updated_at,'' @
        line 0 ''    ($%d * fts_score) + ($%d * vector_score) AS combined_score'' @
        line 0 ''FROM scored'' @
        line 0 ''ORDER BY combined_score DESC'' @
        line 0 ''LIMIT $%d'' @
        line 0 '''')
       [FStr (vectorColumn includeVector), FInt argIndex, FInt (argIndex + 1), FInt (argIndex + 2)]"

definition hybridQuery ::
  "string \<Rightarrow> string \<Rightarrow> fp list \<Rightarrow> int \<Rightarrow> metadata \<Rightarrow> fp \<Rightarrow> fp \<Rightarrow> bool \<Rightarrow> string \<Rightarrow> (string \<times> sqlarg list) result" where
  "hybridQuery collectionId queryText queryVector topK metadataFilter vectorWeight textWeight includeVector distanceMetric =
     (case hybridHead collectionId queryText (vectorToString queryVector) includeVector distanceMetric of
        (hybrid, args, argIndex) \<Rightarrow>
          chain (addFilters (filter_entries metadataFilter) hybrid args argIndex)
            (\<lambda>(hybrid, args, argIndex).
               Ok (hybrid @ hybridTail includeVector argIndex,
                   args @ [AFloat textWeight, AFloat vectorWeight, AInt topK])))"

section \<open>Rows\<close>

text \<open>The columns of a document, without and with the text of its vector, and its metadata bytes.\<close>

fun docColumns :: "sqlval list \<Rightarrow> (Document \<times> json option) result" where
  "docColumns [v1, v2, v3, v4, v5, v6] =
     chain (scan_string v1) (\<lambda>i.
     chain (scan_string v2) (\<lambda>collectionId.
     chain (scan_bytes v3) (\<lambda>metadataBytes.
     chain (scan_string v4) (\<lambda>content.
     chain (scan_time v5) (\<lambda>created.
     chain (scan_time v6) (\<lambda>updated.
       Ok (\<lparr>d_Id = i, d_CollectionId = collectionId, d_Vector = [], d_Metadata = None,
            d_Content = content, d_CreatedAt = created, d_UpdatedAt = updated\<rparr>, metadataBytes)))))))"
| "docColumns _ = Err scan_error"

fun docColumnsV :: "sqlval list \<Rightarrow> (string \<times> Document \<times> json option) result" where
  "docColumnsV (v1 # v2 # v # vs) =
     chain (docColumns (v1 # v2 # vs)) (\<lambda>(d, metadataBytes).
     chain (scan_string v) (\<lambda>vectorStr. Ok (vectorStr, d, metadataBytes)))"
| "docColumnsV _ = Err scan_error"

definition decodeMetadata :: "Document \<times> json option \<Rightarrow> Document result" where
  "decodeMetadata r =
     (case r of
        (d, Some j) \<Rightarrow> chain (json_Unmarshal j) (\<lambda>m. Ok (d\<lparr>d_Metadata := m\<rparr>))
      | (d, None) \<Rightarrow> Ok d)"

definition decodeVector :: "string \<times> Document \<times> json option \<Rightarrow> (Document \<times> json option) result" where
  "decodeVector r =
     (case r of (vectorStr, d, mb) \<Rightarrow>
        chain (stringToVector vectorStr) (\<lambda>v. Ok (d\<lparr>d_Vector := v\<rparr>, mb)))"

text \<open>The body of the loop in \<open>List\<close>, and the one that the batch operations share.\<close>

definition scanDocument :: "bool \<Rightarrow> sqlval list \<Rightarrow> Document result" where
  "scanDocument includeVector row =
     (if includeVector
      then chain (docColumnsV row) (\<lambda>r. chain (decodeVector r) decodeMetadata)
      else chain (docColumns row) decodeMetadata)"

text \<open>The body of the loop of the three searches: the score is the last column.\<close>

definition scanResult :: "bool \<Rightarrow> sqlval list \<Rightarrow> SearchResult result" where
  "scanResult includeVector row =
     (if row = [] then Err (ErrWrap ''failed to scan search result: %w'' [] scan_error)
      else
        chain (if includeVector
               then chain (map_error (ErrWrap ''failed to scan search result: %w'' [])
                             (chain (docColumnsV (butlast row)) (\<lambda>r. chain (scan_float32 (last row)) (\<lambda>s. Ok (r, s)))))
                      (\<lambda>(r, s). chain (map_error (ErrWrap ''failed to parse returned vector: %w'' []) (decodeVector r))
                         (\<lambda>d. Ok (d, s)))
               else map_error (ErrWrap ''failed to scan search result: %w'' [])
                      (chain (docColumns (butlast row)) (\<lambda>d. chain (scan_float32 (last row)) (\<lambda>s. Ok (d, s)))))
          (\<lambda>(d, s).
             chain (map_error (ErrWrap ''failed to unmarshal metadata: %w'' []) (decodeMetadata d))
               (\<lambda>d. Ok \<lparr>r_Document = d, r_Score = s\<rparr>)))"

section \<open>Operations on one document\<close>

text \<open>The end of \<open>Create\<close> and \<open>Upsert\<close>: decode what the statement returned.\<close>

definition returnedDocument :: "Document \<times> json option \<Rightarrow> ('d pool, gerror, Document) op" where
  "returnedDocument r =
     lift (map_error (ErrWrap ''failed to unmarshal metadata: %w'' []) (decodeMetadata r))"

definition marshalMetadata :: "metadata \<Rightarrow> ('d pool, gerror, json) op" where
  "marshalMetadata m = lift (map_error (ErrWrap ''failed to marshal metadata: %w'' []) (json_Marshal m))"

definition DocumentRepo_Create ::
  "'d driver \<Rightarrow> string \<Rightarrow> string \<Rightarrow> fp list \<Rightarrow> metadata \<Rightarrow> ('d pool, gerror, Document) op" where
  "DocumentRepo_Create drv collectionId content vector metadata =
     (let vectorStr = vectorToString vector in
      andThen (marshalMetadata metadata) (\<lambda>metadataJSON.
      andThen (wrap_error (ErrWrap ''failed to insert document: %w'' [])
                 (QueryRow drv insertDocument
                    [AStr collectionId, AStr vectorStr, AJson metadataJSON, AStr content] docColumns))
        returnedDocument))"

fun upsertColumns :: "sqlval list \<Rightarrow> ((Document \<times> json option) \<times> bool) result" where
  "upsertColumns [v1, v2, v3, v4, v5, v6, v7] =
     chain (docColumns [v1, v2, v3, v4, v5, v6]) (\<lambda>d. chain (scan_bool v7) (\<lambda>isNew. Ok (d, isNew)))"
| "upsertColumns _ = Err scan_error"

definition DocumentRepo_Upsert ::
  "'d driver \<Rightarrow> string \<Rightarrow> string \<Rightarrow> string \<Rightarrow> fp list \<Rightarrow> metadata \<Rightarrow> ('d pool, gerror, UpsertResult) op" where
  "DocumentRepo_Upsert drv documentId collectionId content vector metadata =
     (let vectorStr = vectorToString vector in
      andThen (marshalMetadata metadata) (\<lambda>metadataJSON.
      andThen (wrap_error (ErrWrap ''failed to upsert document: %w'' [])
                 (QueryRow drv upsertDocument
                    [AStr documentId, AStr collectionId, AStr vectorStr, AJson metadataJSON, AStr content]
                    upsertColumns)) (\<lambda>(d, isNew).
      andThen (returnedDocument d) (\<lambda>document.
        ret \<lparr>u_Document = document, u_IsNew = isNew\<rparr>))))"

definition DocumentRepo_List ::
  "'d driver \<Rightarrow> string \<Rightarrow> int \<Rightarrow> int \<Rightarrow> bool \<Rightarrow> ('d pool, gerror, Document list) op" where
  "DocumentRepo_List drv collectionId limit offset includeVector =
     andThen (on_server (drv_Query drv (listDocuments includeVector) [AStr collectionId, AInt limit, AInt offset]))
       (\<lambda>rs. lift (collect_rows (scanDocument includeVector) (\<lambda>e. e) rs))"

definition DocumentRepo_GetById :: "'d driver \<Rightarrow> string \<Rightarrow> ('d pool, gerror, Document) op" where
  "DocumentRepo_GetById drv documentId =
     andThen (QueryRow drv documentById [AStr documentId] docColumnsV) (\<lambda>r.
     andThen (lift (decodeVector r)) (\<lambda>r.
       lift (decodeMetadata r)))"

definition DocumentRepo_DeleteById :: "'d driver \<Rightarrow> string \<Rightarrow> ('d pool, gerror, unit) op" where
  "DocumentRepo_DeleteById drv documentId =
     andThen (on_server (drv_Exec drv deleteDocument [AStr documentId])) (\<lambda>result.
     andThen (lift result) (\<lambda>rowsAffected.
       if rowsAffected = 0 then fail ErrNoRows else ret ()))"

section \<open>Searches\<close>

text \<open>Run a statement and collect its results; the searches share the texts of their errors.\<close>

definition runSearch ::
  "'d driver \<Rightarrow> bool \<Rightarrow> string \<times> sqlarg list \<Rightarrow> ('d pool, gerror, SearchResult list) op" where
  "runSearch drv includeVector stmt =
     andThen (wrap_error (ErrWrap ''failed to execute search query: %w'' [])
                (on_server (drv_Query drv (fst stmt) (snd stmt))))
       (\<lambda>rs. lift (collect_rows (scanResult includeVector) (ErrWrap ''error iterating search results: %w'' []) rs))"

definition DocumentRepo_Search ::
  "'d driver \<Rightarrow> string \<Rightarrow> fp list \<Rightarrow> int \<Rightarrow> metadata \<Rightarrow> fp \<Rightarrow> bool \<Rightarrow> string \<Rightarrow> ('d pool, gerror, SearchResult list) op" where
  "DocumentRepo_Search drv collectionId queryVector topK metadataFilter minThreshold includeVector distanceMetric =
     andThen (lift (searchQuery collectionId queryVector topK metadataFilter minThreshold includeVector distanceMetric))
       (runSearch drv includeVector)"

definition DocumentRepo_FullTextSearch ::
  "'d driver \<Rightarrow> string \<Rightarrow> string \<Rightarrow> int \<Rightarrow> fp \<Rightarrow> bool \<Rightarrow> ('d pool, gerror, SearchResult list) op" where
  "DocumentRepo_FullTextSearch drv collectionId query limit minRank includeVector =
     runSearch drv includeVector (fullTextQuery collectionId query limit minRank includeVector)"

definition DocumentRepo_HybridSearch ::
  "'d driver \<Rightarrow> string \<Rightarrow> string \<Rightarrow> fp list \<Rightarrow> int \<Rightarrow> metadata \<Rightarrow> fp \<Rightarrow> fp \<Rightarrow> bool \<Rightarrow> string \<Rightarrow>
     ('d pool, gerror, SearchResult list) op" where
  "DocumentRepo_HybridSearch drv collectionId queryText queryVector topK metadataFilter vectorWeight textWeight includeVector distanceMetric =
     andThen (lift (hybridQuery collectionId queryText queryVector topK metadataFilter vectorWeight textWeight
                      includeVector distanceMetric))
       (runSearch drv includeVector)"

section \<open>Batches\<close>

text \<open>
  \<open>BatchInsert\<close> serialises the documents into an array, each document at its own index: in a
  loop when there are fewer than 32, otherwise in one goroutine per document. The parameter
  \<open>sched\<close> gives the order in which \<open>n\<close> goroutines run.
\<close>

type_synonym serialized = "string \<times> json result"

definition serialize :: "Document list \<Rightarrow> nat \<Rightarrow> serialized list \<Rightarrow> serialized list" where
  "serialize documents idx prepped =
     prepped[idx := (vectorToString (d_Vector (documents ! idx)), json_Marshal (d_Metadata (documents ! idx)))]"

definition prepareBatch :: "(nat \<Rightarrow> nat list) \<Rightarrow> Document list \<Rightarrow> serialized list" where
  "prepareBatch sched documents =
     (let n = length documents; prepped = replicate n ([], Err scan_error) in
      if n \<ge> 32 then fold (serialize documents) (sched n) prepped
      else fold (serialize documents) [0 ..< n] prepped)"

text \<open>The check for marshalling errors: the first one, in the order of the documents.\<close>

fun checkMarshal :: "nat \<Rightarrow> serialized list \<Rightarrow> (string \<times> json) list result" where
  "checkMarshal i [] = Ok []"
| "checkMarshal i ((v, m) # rest) =
     chain (map_error (ErrWrap ''failed to marshal metadata for doc %d: %w'' [FInt (int i)]) m)
       (\<lambda>j. chain (checkMarshal (Suc i) rest) (\<lambda>js. Ok ((v, j) # js)))"

text \<open>The loop that writes a group of placeholders for each document and appends its arguments.\<close>

definition placeholderGroup :: "nat \<Rightarrow> string" where
  "placeholderGroup base =
     ''($'' @ decimal base @ '',$'' @ decimal (base + 1) @ ''::vector,$'' @ decimal (base + 2) @
     '',$'' @ decimal (base + 3) @ '')''"

fun batchLoop :: "nat \<Rightarrow> nat \<Rightarrow> (Document \<times> string \<times> json) list \<Rightarrow> string \<Rightarrow> sqlarg list \<Rightarrow> string \<times> sqlarg list" where
  "batchLoop n i [] query contents = (query, contents)"
| "batchLoop n i ((v, vectorStr, metadataJSON) # rest) query contents =
     (let query = query @ placeholderGroup (i * 4 + 1);
          query = (if i + 1 < n then query @ '','' else query)
      in batchLoop n (Suc i) rest query
           (contents @ [AStr (d_CollectionId v), AStr vectorStr, AJson metadataJSON, AStr (d_Content v)]))"

definition batchQuery :: "Document list \<Rightarrow> (string \<times> json) list \<Rightarrow> string \<times> sqlarg list" where
  "batchQuery documents prepped =
     (case batchLoop (length documents) 0 (zip documents prepped)
             ''INSERT INTO documents (collection_id, vector, metadata, content) VALUES'' [] of
        (query, contents) \<Rightarrow>
          (query @ '' RETURNING id, collection_id, metadata, content, created_at, updated_at'', contents))"

text \<open>What happens inside the transaction, up to the commit.\<close>

definition batchBody :: "'d driver \<Rightarrow> (nat \<Rightarrow> nat list) \<Rightarrow> Document list \<Rightarrow> ('d pool, gerror, Document list) op" where
  "batchBody drv sched documents =
     andThen (wrap_error (ErrWrap ''failed to set synchronous_commit: %w'' [])
                (on_server (drv_Exec drv ''SET LOCAL synchronous_commit = OFF'' []))) (\<lambda>_.
     andThen (lift (checkMarshal 0 (prepareBatch sched documents))) (\<lambda>prepped.
     andThen (case batchQuery documents prepped of (q, args) \<Rightarrow> on_server (drv_Query drv q args)) (\<lambda>rs.
       lift (collect_rows (scanDocument False) (\<lambda>e. e) rs))))"

text \<open>The deferred \<open>tx.Rollback()\<close>: it does something only when \<open>tx.Commit()\<close> was not reached.\<close>

definition DocumentRepo_BatchInsert ::
  "'d driver \<Rightarrow> (nat \<Rightarrow> nat list) \<Rightarrow> string \<Rightarrow> Document list \<Rightarrow> ('d pool, gerror, int \<times> Document list) op" where
  "DocumentRepo_BatchInsert drv sched collectionId documents =
     andThen (wrap_error (ErrWrap ''failed to begin transaction: %w'' []) (on_server (drv_Begin drv))) (\<lambda>_ p.
       case batchBody drv sched documents p of
         (Ok docs, p') \<Rightarrow>
           andThen (wrap_error (ErrWrap ''failed to commit batch insert: %w'' []) (on_server (drv_Commit drv)))
             (\<lambda>_. ret (int (length docs), docs)) p'
       | (Err e, p') \<Rightarrow> (Err e, p'\<lparr>server := drv_Rollback drv (server p')\<rparr>)
       | (Panic m, p') \<Rightarrow> (Panic m, p'\<lparr>server := drv_Rollback drv (server p')\<rparr>)
       | (Diverge, p') \<Rightarrow> (Diverge, p'))"

definition DocumentRepo_BatchDelete ::
  "'d driver \<Rightarrow> string \<Rightarrow> string list \<Rightarrow> ('d pool, gerror, int \<times> Document list) op" where
  "DocumentRepo_BatchDelete drv collectionId documentIds =
     andThen (on_server (drv_Query drv batchDelete [AIds documentIds, AStr collectionId])) (\<lambda>rs.
     andThen (lift (collect_rows (scanDocument False) (\<lambda>e. e) rs)) (\<lambda>docs.
       ret (int (length docs), docs)))"

end
