(* ===== verification/Document_Statements.thy ===== *)
theory Document_Statements
  imports Document_Repo
begin

text \<open>
  Facts about the statements that the document repository builds: every placeholder has its
  argument and every argument its placeholder, whatever the filters and thresholds are, and
  the text of a statement does not depend on anything a client wrote.
\<close>

section \<open>Fixed statements\<close>

lemma document_statements_fit:
  "args_fit insertDocument [a1, a2, a3, a4]"
  "args_fit upsertDocument [a1, a2, a3, a4, a5]"
  "args_fit (listDocuments includeVector) [a1, a2, a3]"
  "args_fit documentById [a1]"
  "args_fit deleteDocument [a1]"
  "args_fit batchDelete [a1, a2]"
proof -
  have "placeholders insertDocument = [1, 2, 3, 4]" "placeholders upsertDocument = [1, 2, 3, 4, 5]"
    "placeholders (listDocuments True) = [1, 2, 3]" "placeholders (listDocuments False) = [1, 2, 3]"
    "placeholders documentById = [1]" "placeholders deleteDocument = [1]" "placeholders batchDelete = [1, 2]"
    by code_simp+
  then show "args_fit insertDocument [a1, a2, a3, a4]" "args_fit upsertDocument [a1, a2, a3, a4, a5]"
    "args_fit (listDocuments includeVector) [a1, a2, a3]" "args_fit documentById [a1]"
    "args_fit deleteDocument [a1]" "args_fit batchDelete [a1, a2]"
    by (cases includeVector; auto simp: args_fit_def)+
qed

section \<open>The filter conditions\<close>

definition filterText :: "nat \<Rightarrow> string" where
  "filterText j = '' AND metadata @> $'' @ decimal j @ ''::jsonb''"

definition filterTexts :: "nat \<Rightarrow> nat \<Rightarrow> string" where
  "filterTexts n k = concat (map filterText [n ..< n + k])"

lemma Itoa_int [simp]: "strconv_Itoa (int n) = decimal n"
  by (simp add: strconv_Itoa_def)

lemma filterText_Sprintf: "fmt_Sprintf '' AND metadata @> $%d::jsonb'' [FInt (int j)] = filterText j"
  by (simp add: filterText_def)

lemma filterTexts_Suc: "filterTexts n (Suc k) = filterText n @ filterTexts (Suc n) k"
  by (simp add: filterTexts_def upt_conv_Cons del: upt_Suc)

lemma addFilters_Ok:
  assumes "addFilters kvs q args (int n) = Ok (q', args', i)"
  shows "q' = q @ filterTexts n (length kvs) \<and> i = int (n + length kvs) \<and>
         (\<exists>js. args' = args @ map AJson js \<and> length js = length kvs)"
  using assms
proof (induction kvs arbitrary: q args n)
  case Nil
  then show ?case by (simp add: filterTexts_def)
next
  case (Cons kv kvs)
  obtain key v where kv: "kv = (key, v)" by fastforce
  from Cons.prems obtain j where
    "addFilters kvs (q @ fmt_Sprintf '' AND metadata @> $%d::jsonb'' [FInt (int n)]) (args @ [AJson j]) (int n + 1)
       = Ok (q', args', i)"
    unfolding kv by (simp only: addFilters.simps chain_Ok) blast
  then have run: "addFilters kvs (q @ filterText n) (args @ [AJson j]) (int (Suc n)) = Ok (q', args', i)"
    by (simp only: filterText_Sprintf of_nat_Suc add.commute)
  from Cons.IH [OF run] obtain js where "args' = args @ map AJson (j # js)" and "length js = length kvs"
    and "q' = q @ filterText n @ filterTexts (Suc n) (length kvs)" and "i = int (Suc n + length kvs)" by auto
  then show ?case
    by (auto simp: filterTexts_Suc intro!: exI [of _ "j # js"])
qed

lemma placeholders_filterText:
  "t = [] \<or> \<not> is_digit (hd t) \<Longrightarrow> placeholders (filterText n @ t) = n # placeholders t"
proof -
  assume t: "t = [] \<or> \<not> is_digit (hd t)"
  have "placeholders (''::jsonb'' @ t) = placeholders ''::jsonb'' @ placeholders t"
    using t by (rule placeholders_append)
  moreover have "placeholders '' AND metadata @> '' = []" "placeholders ''::jsonb'' = []" by code_simp+
  moreover have "\<not> is_digit (hd (''::jsonb'' @ t))" by (simp add: is_digit_def)
  ultimately show ?thesis
    using placeholders_piece [of "''::jsonb'' @ t" "'' AND metadata @> ''" n]
    by (simp add: filterText_def del: placeholders.simps)
qed

lemma filterTexts_hd: "filterTexts n k = [] \<or> \<not> is_digit (hd (filterTexts n k))"
  by (cases k) (simp_all add: filterTexts_Suc filterText_def is_digit_def, simp add: filterTexts_def)

lemma placeholders_filterTexts: "placeholders (filterTexts n k) = [n ..< n + k]"
proof (induction k arbitrary: n)
  case (Suc k)
  have "placeholders (filterTexts n (Suc k)) = n # [Suc n ..< Suc n + k]"
    using placeholders_filterText [OF filterTexts_hd] Suc by (simp add: filterTexts_Suc)
  then show ?case by (simp add: upt_conv_Cons del: upt_Suc)
qed (simp add: filterTexts_def)

lemma placeholders_with_filters:
  assumes "t = [] \<or> \<not> is_digit (hd t)"
  shows "placeholders (q @ filterTexts n k @ t) = placeholders q @ [n ..< n + k] @ placeholders t"
proof -
  have "filterTexts n k @ t = [] \<or> \<not> is_digit (hd (filterTexts n k @ t))"
    using filterTexts_hd [of n k] assms by (cases "filterTexts n k = []") auto
  then have "placeholders (q @ filterTexts n k @ t) = placeholders q @ placeholders (filterTexts n k @ t)"
    by (rule placeholders_append)
  also have "placeholders (filterTexts n k @ t) = [n ..< n + k] @ placeholders t"
    using placeholders_append [OF assms] by (simp add: placeholders_filterTexts)
  finally show ?thesis .
qed

section \<open>Vector search\<close>

text \<open>A metric enters a statement only through three fixed texts.\<close>

definition metrics :: "string list" where
  "metrics = [''cosine'', ''euclidean'', ''inner_product'']"

lemma metric_as: "\<exists>m0\<in>set metrics. distanceOperator m = distanceOperator m0 \<and> similarityExpression m = similarityExpression m0"
  by (auto simp: metrics_def distanceOperator_def similarityExpression_def fun_eq_iff)

lemma metric_all:
  assumes "list_all P metrics"
    and "\<And>m m0. distanceOperator m = distanceOperator m0 \<Longrightarrow> similarityExpression m = similarityExpression m0 \<Longrightarrow> P m0 \<Longrightarrow> P m"
  shows "P m"
  using metric_as [of m] assms by (auto simp: list_all_iff)

lemma search_parts:
  "placeholders (searchBase True m) = [1, 2]" "placeholders (searchBase False m) = [1, 2]"
  "placeholders (searchSim m) = [1]" "placeholders (searchDist m) = [1]"
proof -
  have "list_all (\<lambda>m. placeholders (searchBase True m) = [1, 2] \<and> placeholders (searchBase False m) = [1, 2] \<and>
      placeholders (searchSim m) = [1] \<and> placeholders (searchDist m) = [1]) metrics"
    by code_simp
  then have "placeholders (searchBase True m) = [1, 2] \<and> placeholders (searchBase False m) = [1, 2] \<and>
      placeholders (searchSim m) = [1] \<and> placeholders (searchDist m) = [1]"
    by (rule metric_all) (simp add: searchBase_def searchSim_def searchDist_def)
  then show "placeholders (searchBase True m) = [1, 2]" "placeholders (searchBase False m) = [1, 2]"
    "placeholders (searchSim m) = [1]" "placeholders (searchDist m) = [1]" by simp_all
qed

definition thresholdText :: "string \<Rightarrow> nat \<Rightarrow> string" where
  "thresholdText m n = '' AND ('' @ searchSim m @ '') >= $'' @ decimal n"

definition orderText :: "string \<Rightarrow> nat \<Rightarrow> string" where
  "orderText m n = '' ORDER BY '' @ searchDist m @ '' LIMIT $'' @ decimal n"

definition searchText :: "bool \<Rightarrow> string \<Rightarrow> nat \<Rightarrow> bool \<Rightarrow> string" where
  "searchText includeVector m k threshold =
     searchBase includeVector m @ filterTexts 3 k @
     (if threshold then thresholdText m (3 + k) @ orderText m (4 + k) else orderText m (3 + k))"

text \<open>The statement and its arguments in closed form.\<close>

lemma searchQuery_closed:
  assumes "searchQuery c v topK f t includeVector m = Ok (q, args)"
  shows "\<exists>js. length js = length (filter_entries f) \<and>
           q = searchText includeVector m (length js) (t > f_zero) \<and>
           args = [AStr (vectorToString v), AStr c] @ map AJson js @
                  (if t > f_zero then [AFloat t] else []) @ [AInt topK]"
proof -
  let ?k = "length (filter_entries f)"
  obtain q1 args1 i where a: "addFilters (filter_entries f) (searchBase includeVector m)
      [AStr (vectorToString v), AStr c] (int 3) = Ok (q1, args1, i)"
    using assms by (auto simp: searchQuery_def)
  from addFilters_Ok [OF a] obtain js where js: "length js = ?k" "i = int (3 + ?k)"
    "q1 = searchBase includeVector m @ filterTexts 3 ?k"
    "args1 = [AStr (vectorToString v), AStr c] @ map AJson js" by auto
  have four: "int (3 + ?k) + 1 = int (4 + ?k)" by simp
  have th: "fmt_Sprintf '' AND (%s) >= $%d'' [FStr (searchSim m), FInt (int n)] = thresholdText m n" for n
    by (simp add: thresholdText_def)
  have od: "fmt_Sprintf '' ORDER BY %s LIMIT $%d'' [FStr (searchDist m), FInt (int n)] = orderText m n" for n
    by (simp add: orderText_def)
  have run: "addFilters (filter_entries f) (searchBase includeVector m)
      [AStr (vectorToString v), AStr c] 3 = Ok (q1, args1, i)" using a by simp
  show ?thesis
    using assms js(1) unfolding searchQuery_def run chain.simps js(2,3,4)
    by (cases "t > f_zero") (simp_all only: prod.case Let_def if_True if_False four th od outcome.inject
        prod.inject searchText_def append_assoc, auto)
qed

lemma thresholdText_hd: "thresholdText m n \<noteq> [] \<and> \<not> is_digit (hd (thresholdText m n))"
  and orderText_hd: "orderText m n \<noteq> [] \<and> \<not> is_digit (hd (orderText m n))"
  by (simp_all add: thresholdText_def orderText_def is_digit_def)

lemma placeholders_thresholdText: "placeholders (thresholdText m n) = [1, n]"
proof -
  have "placeholders (searchSim m @ '') >= '') = [1]"
    using placeholders_append [of "'') >= ''" "searchSim m"] search_parts(3) [of m]
    by (simp add: is_digit_def)
  moreover have "placeholders ('' AND ('' @ s) = placeholders s" for s by simp
  ultimately have "placeholders ('' AND ('' @ searchSim m @ '') >= '') = [1]" by metis
  then show ?thesis
    using placeholders_piece [of "[]" "'' AND ('' @ searchSim m @ '') >= ''" n]
    by (simp add: thresholdText_def del: placeholders.simps(2))
qed

lemma placeholders_orderText: "placeholders (orderText m n) = [1, n]"
proof -
  have "placeholders (searchDist m @ '' LIMIT '') = [1]"
    using placeholders_append [of "'' LIMIT ''" "searchDist m"] search_parts(4) [of m]
    by (simp add: is_digit_def)
  moreover have "placeholders ('' ORDER BY '' @ s) = placeholders s" for s by simp
  ultimately have "placeholders ('' ORDER BY '' @ searchDist m @ '' LIMIT '') = [1]" by metis
  then show ?thesis
    using placeholders_piece [of "[]" "'' ORDER BY '' @ searchDist m @ '' LIMIT ''" n]
    by (simp add: orderText_def del: placeholders.simps(2))
qed

lemma placeholders_searchText:
  "placeholders (searchText includeVector m k threshold) =
     [1, 2] @ [3 ..< 3 + k] @ (if threshold then [1, 3 + k, 1, 4 + k] else [1, 3 + k])"
proof -
  let ?t = "if threshold then thresholdText m (3 + k) @ orderText m (4 + k) else orderText m (3 + k)"
  have "placeholders ?t = (if threshold then [1, 3 + k, 1, 4 + k] else [1, 3 + k])"
    using orderText_hd [of m "4 + k"]
    by (simp add: placeholders_thresholdText placeholders_orderText placeholders_append)
  moreover have "\<not> is_digit (hd ?t)" using thresholdText_hd orderText_hd by simp
  moreover have "placeholders (searchBase includeVector m) = [1, 2]"
    by (cases includeVector) (simp_all only: search_parts)
  ultimately show ?thesis
    using placeholders_with_filters [of ?t "searchBase includeVector m" 3 k] by (simp add: searchText_def)
qed

section \<open>Full-text search\<close>

definition fullTextText :: "bool \<Rightarrow> bool \<Rightarrow> string" where
  "fullTextText includeVector threshold =
     fst (fullTextQuery [] [] 0 (if threshold then f_one else f_zero) includeVector)"

lemma zero_one: "f_zero < f_one" "\<not> f_zero < f_zero"
  by (simp_all add: fp_order f_zero_def f_one_def)

lemma fullTextQuery_closed:
  "fullTextQuery c query limit r includeVector =
     (fullTextText includeVector (r > f_zero),
      [AStr query, AStr c] @ (if r > f_zero then [AFloat r] else []) @ [AInt limit])"
  by (simp add: fullTextText_def fullTextQuery_def zero_one)

lemma placeholders_fullTextText:
  "placeholders (fullTextText includeVector threshold) =
     (if threshold then [1, 2, 1, 1, 3, 4] else [1, 2, 1, 3])"
proof -
  have "placeholders (fullTextText True True) = [1, 2, 1, 1, 3, 4]"
    "placeholders (fullTextText False True) = [1, 2, 1, 1, 3, 4]"
    "placeholders (fullTextText True False) = [1, 2, 1, 3]"
    "placeholders (fullTextText False False) = [1, 2, 1, 3]" by code_simp+
  then show ?thesis by (cases includeVector; cases threshold; simp)
qed

section \<open>Hybrid search\<close>

definition tailText :: "bool \<Rightarrow> nat \<Rightarrow> string" where
  "tailText includeVector n =
     line 0 '')'' @ line 0 ''SELECT id, collection_id, '' @ vectorColumn includeVector @
     ''metadata, content, created_at, updated_at,'' @ line 0 ''    ('' @
     CHR ''$'' # decimal n @ '' * fts_score) + ('' @
     CHR ''$'' # decimal (n + 1) @ '' * vector_score) AS combined_score'' @
     line 0 ''FROM scored'' @ line 0 ''ORDER BY combined_score DESC'' @ line 0 ''LIMIT '' @
     CHR ''$'' # decimal (n + 2) @ line 0 ''''"

lemma Itoa_offsets:
  "strconv_Itoa (int n + 1) = decimal (n + 1)" "strconv_Itoa (int n + 2) = decimal (n + 2)"
  using Itoa_int [of "n + 1"] Itoa_int [of "n + 2"] by (simp_all add: add.commute)

lemma hybridTail_text: "hybridTail includeVector (int n) = tailText includeVector n"
  by (simp add: hybridTail_def tailText_def line_def Itoa_offsets)

lemma three_placeholders:
  assumes "placeholders a = []" "placeholders b = []" "placeholders c = []" "placeholders d = []"
    and "b \<noteq> [] \<and> \<not> is_digit (hd b)" "c \<noteq> [] \<and> \<not> is_digit (hd c)" "d \<noteq> [] \<and> \<not> is_digit (hd d)"
  shows "placeholders (a @ CHR ''$'' # decimal i @ b @ CHR ''$'' # decimal j @ c @ CHR ''$'' # decimal k @ d) = [i, j, k]"
proof -
  define z where "z = c @ CHR ''$'' # decimal k @ d"
  define y where "y = b @ CHR ''$'' # decimal j @ z"
  have z: "placeholders z = placeholders c @ k # placeholders d"
    unfolding z_def using assms(7) by (intro placeholders_piece) blast
  have ne: "z \<noteq> [] \<and> \<not> is_digit (hd z)" "y \<noteq> [] \<and> \<not> is_digit (hd y)"
    using assms(5,6) by (auto simp: y_def z_def)
  have y: "placeholders y = placeholders b @ j # placeholders z"
    unfolding y_def using ne(1) by (intro placeholders_piece) blast
  have "placeholders (a @ CHR ''$'' # decimal i @ y) = placeholders a @ i # placeholders y"
    using ne(2) by (intro placeholders_piece) blast
  then show ?thesis unfolding y z assms(1-4) append_Nil unfolding y_def z_def .
qed

lemma placeholders_tailText: "placeholders (tailText includeVector n) = [n, n + 1, n + 2]"
proof -
  define a where "a = line 0 '')'' @ line 0 ''SELECT id, collection_id, '' @ vectorColumn includeVector @
     ''metadata, content, created_at, updated_at,'' @ line 0 ''    (''"
  define b where "b = '' * fts_score) + (''"
  define c where "c = '' * vector_score) AS combined_score'' @
     line 0 ''FROM scored'' @ line 0 ''ORDER BY combined_score DESC'' @ line 0 ''LIMIT ''"
  define d where "d = line 0 ''''"
  have "placeholders (line 0 '')'' @ line 0 ''SELECT id, collection_id, '' @ vectorColumn v @
      ''metadata, content, created_at, updated_at,'' @ line 0 ''    ('') = []" for v
  proof -
    have "list_all (\<lambda>v. placeholders (line 0 '')'' @ line 0 ''SELECT id, collection_id, '' @ vectorColumn v @
      ''metadata, content, created_at, updated_at,'' @ line 0 ''    ('') = []) [True, False]" by code_simp
    then show ?thesis by (cases v; simp only: list.pred_inject)
  qed
  then have "placeholders a = []" unfolding a_def .
  moreover have "placeholders b = []" "placeholders c = []" "placeholders d = []"
    unfolding b_def c_def d_def by code_simp+
  moreover have "b \<noteq> [] \<and> \<not> is_digit (hd b)" "c \<noteq> [] \<and> \<not> is_digit (hd c)" "d \<noteq> [] \<and> \<not> is_digit (hd d)"
    unfolding b_def c_def d_def by code_simp+
  moreover have "tailText includeVector n =
      a @ CHR ''$'' # decimal n @ b @ CHR ''$'' # decimal (n + 1) @ c @ CHR ''$'' # decimal (n + 2) @ d"
    by (simp only: tailText_def a_def b_def c_def d_def append_assoc append_Cons append_Nil)
  ultimately show ?thesis using three_placeholders by metis
qed

definition hybridText :: "bool \<Rightarrow> bool \<Rightarrow> string \<Rightarrow> nat \<Rightarrow> string" where
  "hybridText withText includeVector m k =
     (let n = (if withText then 4 else 3) in
      (if withText then hybridTextBase includeVector m else hybridVectorBase includeVector m) @
      filterTexts n k @ tailText includeVector (n + k))"

lemma hybridQuery_closed:
  assumes "hybridQuery c text v topK f vw tw includeVector m = Ok (q, args)"
  shows "\<exists>js. length js = length (filter_entries f) \<and>
           q = hybridText (text \<noteq> []) includeVector m (length js) \<and>
           args = (if text \<noteq> [] then [AStr text] else []) @ [AStr c, AStr (vectorToString v)] @
                  map AJson js @ [AFloat tw, AFloat vw, AInt topK]"
proof -
  define n :: nat where "n = (if text \<noteq> [] then 4 else 3)"
  define b where "b = (if text \<noteq> [] then hybridTextBase includeVector m else hybridVectorBase includeVector m)"
  define a0 where "a0 = (if text \<noteq> [] then [AStr text] else []) @ [AStr c, AStr (vectorToString v)]"
  let ?k = "length (filter_entries f)"
  have "hybridHead c text (vectorToString v) includeVector m = (b, a0, int n)"
    by (simp add: hybridHead_def b_def a0_def n_def)
  then obtain q1 args1 i where a: "addFilters (filter_entries f) b a0 (int n) = Ok (q1, args1, i)"
    and q: "q = q1 @ hybridTail includeVector i" "args = args1 @ [AFloat tw, AFloat vw, AInt topK]"
    using assms by (auto simp: hybridQuery_def)
  from addFilters_Ok [OF a] obtain js where "length js = ?k" "i = int (n + ?k)"
    "q1 = b @ filterTexts n ?k" "args1 = a0 @ map AJson js" by auto
  moreover from this have "hybridTail includeVector i = tailText includeVector (n + ?k)"
    using hybridTail_text by metis
  ultimately show ?thesis using q
    by (intro exI [of _ js]) (simp add: hybridText_def a0_def flip: n_def b_def)
qed

lemma hybrid_parts:
  "set (placeholders (hybridTextBase includeVector m)) = {1, 2, 3}"
  "set (placeholders (hybridVectorBase includeVector m)) = {1, 2}"
proof -
  have "list_all (\<lambda>m. list_all (\<lambda>v. placeholders (hybridTextBase v m) \<in> {[1, 3, 2, 1], [1, 1, 3, 2, 1]} \<and>
      placeholders (hybridVectorBase v m) = [2, 1]) [True, False]) metrics"
    by code_simp
  then have "list_all (\<lambda>v. placeholders (hybridTextBase v m) \<in> {[1, 3, 2, 1], [1, 1, 3, 2, 1]} \<and>
      placeholders (hybridVectorBase v m) = [2, 1]) [True, False]"
    by (rule metric_all) (simp add: hybridTextBase_def hybridVectorBase_def)
  then have "placeholders (hybridTextBase includeVector m) \<in> {[1, 3, 2, 1], [1, 1, 3, 2, 1]}"
    and "placeholders (hybridVectorBase includeVector m) = [2, 1]" by (cases includeVector; simp)+
  then show "set (placeholders (hybridTextBase includeVector m)) = {1, 2, 3}"
    "set (placeholders (hybridVectorBase includeVector m)) = {1, 2}" by auto
qed

lemma set_placeholders_hybridText:
  "set (placeholders (hybridText withText includeVector m k)) = {1 .. (if withText then 3 else 2) + k + 3}"
proof -
  have "\<not> is_digit (hd (tailText includeVector n))" for n by (simp add: tailText_def line_def is_digit_def)
  then have "placeholders (b @ filterTexts n k @ tailText includeVector j) =
      placeholders b @ [n ..< n + k] @ [j, j + 1, j + 2]" for b n j
    using placeholders_with_filters [of "tailText includeVector j" b n k] by (simp add: placeholders_tailText)
  then show ?thesis
    by (cases withText) (auto simp: hybridText_def hybrid_parts Let_def)
qed

section \<open>When a statement is built\<close>

lemma json_Marshal_entry: "json_finite v \<Longrightarrow> json_Marshal (Some [(key, v)]) = Ok (Json (JObj [(key, v)]))"
  by (simp add: json_Marshal_def)

lemma addFilters_returns:
  "list_all (\<lambda>kv. json_finite (snd kv)) kvs \<Longrightarrow> \<exists>r. addFilters kvs q args i = Ok r"
  by (induction kvs arbitrary: q args i) (auto simp: json_Marshal_entry simp del: fmt_Sprintf.simps)

lemma searchQuery_returns:
  assumes "list_all (\<lambda>kv. json_finite (snd kv)) (filter_entries f)"
  obtains q args where "searchQuery c v topK f t includeVector m = Ok (q, args)"
proof -
  obtain q args i where "addFilters (filter_entries f) (searchBase includeVector m)
      [AStr (vectorToString v), AStr c] 3 = Ok (q, args, i)"
    using addFilters_returns [OF assms] by (metis prod_cases3)
  then have "\<exists>q args. searchQuery c v topK f t includeVector m = Ok (q, args)"
    by (cases "t > f_zero")
       (simp_all only: searchQuery_def chain.simps prod.case Let_def if_True if_False, blast+)
  then show ?thesis using that by blast
qed

lemma hybridQuery_returns:
  assumes "list_all (\<lambda>kv. json_finite (snd kv)) (filter_entries f)"
  obtains q args where "hybridQuery c text v topK f vw tw includeVector m = Ok (q, args)"
proof -
  obtain b a n where h: "hybridHead c text (vectorToString v) includeVector m = (b, a, n)"
    by (metis prod_cases3)
  obtain q args i where "addFilters (filter_entries f) b a n = Ok (q, args, i)"
    using addFilters_returns [OF assms] by (metis prod_cases3)
  then have "\<exists>q args. hybridQuery c text v topK f vw tw includeVector m = Ok (q, args)"
    by (simp only: hybridQuery_def h chain.simps prod.case) blast
  then show ?thesis using that by blast
qed

section \<open>Properties\<close>

text \<open>C11 Every placeholder of a vector search has its argument and every argument its
  placeholder, for every filter, threshold, metric and choice of columns.\<close>

theorem search_statement_fits:
  assumes "searchQuery c v topK f t includeVector m = Ok (q, args)"
  shows "args_fit q args"
proof -
  from searchQuery_closed [OF assms] obtain js where
    q: "q = searchText includeVector m (length js) (t > f_zero)"
    and args: "args = [AStr (vectorToString v), AStr c] @ map AJson js @
                  (if t > f_zero then [AFloat t] else []) @ [AInt topK]" by blast
  show ?thesis
    unfolding args_fit_def q args placeholders_searchText by (cases "t > f_zero") auto
qed

lemma search_statement_fits_witness:
  "\<exists>q args. searchQuery ''c'' [f_one] 5 (Some [(''tag'', JStr ''x'')]) f_half True ''euclidean'' = Ok (q, args) \<and>
     args_fit q args"
proof -
  obtain q args where "searchQuery ''c'' [f_one] 5 (Some [(''tag'', JStr ''x'')]) f_half True ''euclidean'' = Ok (q, args)"
    by (rule searchQuery_returns [rotated]) (assumption, simp add: filter_entries_def)
  then show ?thesis using search_statement_fits by blast
qed

text \<open>C12 The same for a hybrid search, with and without a text.\<close>

theorem hybrid_statement_fits:
  assumes "hybridQuery c text v topK f vw tw includeVector m = Ok (q, args)"
  shows "args_fit q args"
proof -
  from hybridQuery_closed [OF assms] obtain js where
    q: "q = hybridText (text \<noteq> []) includeVector m (length js)"
    and args: "args = (if text \<noteq> [] then [AStr text] else []) @ [AStr c, AStr (vectorToString v)] @
                  map AJson js @ [AFloat tw, AFloat vw, AInt topK]" by blast
  show ?thesis unfolding args_fit_def q args set_placeholders_hybridText by auto
qed

lemma hybrid_statement_fits_witness:
  "\<exists>q args. hybridQuery ''c'' ''cats'' [f_one] 5 None f_half f_half False ''cosine'' = Ok (q, args) \<and> args_fit q args"
proof -
  obtain q args where "hybridQuery ''c'' ''cats'' [f_one] 5 None f_half f_half False ''cosine'' = Ok (q, args)"
    by (rule hybridQuery_returns [rotated]) (assumption, simp add: filter_entries_def)
  then show ?thesis using hybrid_statement_fits by blast
qed

text \<open>The statement of a full-text search fits its arguments, with and without a minimum rank.\<close>

lemma fulltext_statement_fits:
  "case fullTextQuery c query limit r includeVector of (q, args) \<Rightarrow> args_fit q args"
  by (auto simp: fullTextQuery_closed args_fit_def placeholders_fullTextText)

text \<open>C28 Nothing that a client writes becomes part of a statement: the text of a vector search is
  determined by the number of filters, whether there is a threshold, the columns and the
  metric; ids, vectors, keys, values and limits are arguments only.\<close>

theorem search_statement_no_injection:
  assumes "searchQuery c v k f t includeVector m = Ok (q, args)"
    and "searchQuery c' v' k' f' t' includeVector m = Ok (q', args')"
    and "length (filter_entries f) = length (filter_entries f')" and "t > f_zero \<longleftrightarrow> t' > f_zero"
  shows "q = q'"
  using searchQuery_closed [OF assms(1)] searchQuery_closed [OF assms(2)] assms(3,4) by auto

lemma search_statement_no_injection_witness:
  "\<exists>q args args'. searchQuery ''a'' [f_one] 5 (Some [(''k'', JNull)]) f_zero True ''cosine'' = Ok (q, args) \<and>
     searchQuery ''b; DROP TABLE documents'' [] 7 (Some [(''x'', JBool True)]) f_zero True ''cosine'' = Ok (q, args')"
proof -
  obtain q args where 1: "searchQuery ''a'' [f_one] 5 (Some [(''k'', JNull)]) f_zero True ''cosine'' = Ok (q, args)"
    by (rule searchQuery_returns [rotated]) (assumption, simp add: filter_entries_def)
  obtain q' args' where 2: "searchQuery ''b; DROP TABLE documents'' [] 7 (Some [(''x'', JBool True)]) f_zero True ''cosine'' = Ok (q', args')"
    by (rule searchQuery_returns [rotated]) (assumption, simp add: filter_entries_def)
  from search_statement_no_injection [OF 1 2] have "q = q'" by (simp add: filter_entries_def)
  with 1 2 show ?thesis by blast
qed

text \<open>The text of a hybrid search is free of client data in the same way.\<close>

lemma hybrid_statement_no_injection:
  assumes "hybridQuery c text v k f vw tw includeVector m = Ok (q, args)"
    and "hybridQuery c' text' v' k' f' vw' tw' includeVector m = Ok (q', args')"
    and "length (filter_entries f) = length (filter_entries f')" and "text = [] \<longleftrightarrow> text' = []"
  shows "q = q'"
  using hybridQuery_closed [OF assms(1)] hybridQuery_closed [OF assms(2)] assms(3,4) by auto

lemma hybrid_statement_no_injection_witness:
  "\<exists>q args args'. hybridQuery ''a'' ''cats'' [f_one] 5 None f_half f_half True ''cosine'' = Ok (q, args) \<and>
     hybridQuery ''b'' ''1); DROP TABLE documents'' [] 7 None f_one f_zero True ''cosine'' = Ok (q, args')"
proof -
  obtain q args where 1: "hybridQuery ''a'' ''cats'' [f_one] 5 None f_half f_half True ''cosine'' = Ok (q, args)"
    by (rule hybridQuery_returns [rotated]) (assumption, simp add: filter_entries_def)
  obtain q' args' where 2: "hybridQuery ''b'' ''1); DROP TABLE documents'' [] 7 None f_one f_zero True ''cosine'' = Ok (q', args')"
    by (rule hybridQuery_returns [rotated]) (assumption, simp add: filter_entries_def)
  from hybrid_statement_no_injection [OF 1 2] have "q = q'" by simp
  with 1 2 show ?thesis by blast
qed

end
