(* ===== verification/Document_Batch.thy ===== *)
theory Document_Batch
  imports Document_Statements
begin

text \<open>
  Facts about the batch operations of the document repository: the parallel serialisation
  gives the same array in every order of the goroutines, the statement has four placeholders
  for each document, and the transaction makes a failed insert leave nothing behind.
\<close>

section \<open>The parallel serialisation\<close>

definition serialized_of :: "Document \<Rightarrow> serialized" where
  "serialized_of d = (vectorToString (d_Vector d), json_Marshal (d_Metadata d))"

lemma length_fold_serialize [simp]:
  "length (fold (serialize docs) is prepped) = length prepped"
  by (induction "is" arbitrary: prepped) (simp_all add: serialize_def)

lemma nth_fold_serialize:
  assumes "distinct is" and "j < length prepped"
  shows "fold (serialize docs) is prepped ! j = (if j \<in> set is then serialized_of (docs ! j) else prepped ! j)"
  using assms
proof (induction "is" arbitrary: prepped)
  case (Cons i "is")
  then show ?case by (auto simp: serialize_def serialized_of_def nth_list_update)
qed simp

text \<open>Each index is written once, by one goroutine: the order does not matter.\<close>

lemma prepareBatch_any_order:
  assumes "length docs \<ge> 32 \<Longrightarrow> distinct (sched (length docs)) \<and> set (sched (length docs)) = {..<length docs}"
  shows "prepareBatch sched docs = map serialized_of docs"
proof (rule nth_equalityI)
  show "length (prepareBatch sched docs) = length (map serialized_of docs)"
    by (simp add: prepareBatch_def Let_def)
  fix j assume "j < length (prepareBatch sched docs)"
  then have "j < length docs" by (simp add: prepareBatch_def Let_def split: if_splits)
  then show "prepareBatch sched docs ! j = map serialized_of docs ! j"
    using assms by (auto simp: prepareBatch_def Let_def nth_fold_serialize)
qed

lemma checkMarshal_Ok:
  "checkMarshal i (map serialized_of docs) = Ok prepped \<Longrightarrow>
     length prepped = length docs \<and>
     list_all2 (\<lambda>d (v, j). v = vectorToString (d_Vector d) \<and> json_Marshal (d_Metadata d) = Ok j) docs prepped"
proof (induction docs arbitrary: i prepped)
  case (Cons d docs)
  then show ?case by (auto simp: serialized_of_def)
qed simp

section \<open>The statement\<close>

lemma placeholders_group:
  assumes "t = [] \<or> \<not> is_digit (hd t)"
  shows "placeholders (placeholderGroup b @ t) = [b, b + 1, b + 2, b + 3] @ placeholders t"
proof -
  define t3 where "t3 = '')'' @ t"
  define t2 where "t2 = '','' @ CHR ''$'' # decimal (b + 3) @ t3"
  define t1 where "t1 = ''::vector,'' @ CHR ''$'' # decimal (b + 2) @ t2"
  define t0 where "t0 = '','' @ CHR ''$'' # decimal (b + 1) @ t1"
  have nd: "\<not> is_digit (hd t3)" "\<not> is_digit (hd t2)" "\<not> is_digit (hd t1)" "\<not> is_digit (hd t0)"
    by (simp_all add: t3_def t2_def t1_def t0_def is_digit_def)
  have closed: "placeholders ''('' = []" "placeholders '','' = []" "placeholders ''::vector,'' = []"
    "placeholders '')'' = []" by code_simp+
  have "placeholderGroup b @ t = ''('' @ CHR ''$'' # decimal b @ t0"
    by (simp add: placeholderGroup_def t0_def t1_def t2_def t3_def)
  moreover have "placeholders (''('' @ CHR ''$'' # decimal b @ t0) = placeholders ''('' @ b # placeholders t0"
    using nd(4) by (intro placeholders_piece) blast
  moreover have "placeholders t0 = placeholders '','' @ (b + 1) # placeholders t1"
    unfolding t0_def using nd(3) by (intro placeholders_piece) blast
  moreover have "placeholders t1 = placeholders ''::vector,'' @ (b + 2) # placeholders t2"
    unfolding t1_def using nd(2) by (intro placeholders_piece) blast
  moreover have "placeholders t2 = placeholders '','' @ (b + 3) # placeholders t3"
    unfolding t2_def using nd(1) by (intro placeholders_piece) blast
  moreover have "placeholders t3 = placeholders '')'' @ placeholders t"
    unfolding t3_def using assms by (rule placeholders_append)
  ultimately show ?thesis by (simp only: closed append_Nil append_Cons)
qed

fun groupsText :: "nat \<Rightarrow> nat \<Rightarrow> nat \<Rightarrow> string" where
  "groupsText n i 0 = []"
| "groupsText n i (Suc k) =
     placeholderGroup (i * 4 + 1) @ (if i + 1 < n then '','' else []) @ groupsText n (Suc i) k"

definition docArgs :: "Document \<times> string \<times> json \<Rightarrow> sqlarg list" where
  "docArgs r = (case r of (d, v, j) \<Rightarrow> [AStr (d_CollectionId d), AStr v, AJson j, AStr (d_Content d)])"

lemma batchLoop_closed:
  "batchLoop n i docs q c = (q @ groupsText n i (length docs), c @ concat (map docArgs docs))"
proof (induction docs arbitrary: i q c)
  case (Cons r docs)
  then show ?case by (cases r) (simp add: docArgs_def Let_def)
qed simp

definition insertHead :: string where
  "insertHead = ''INSERT INTO documents (collection_id, vector, metadata, content) VALUES''"

definition returning :: string where
  "returning = '' RETURNING id, collection_id, metadata, content, created_at, updated_at''"

lemma placeholders_groups:
  assumes "t = [] \<or> \<not> is_digit (hd t)"
  shows "placeholders (groupsText n i k @ t) = [i * 4 + 1 ..< (i + k) * 4 + 1] @ placeholders t"
  using assms
proof (induction k arbitrary: i)
  case (Suc k)
  have IH: "placeholders (groupsText n (Suc i) k @ t) = [Suc i * 4 + 1 ..< (Suc i + k) * 4 + 1] @ placeholders t"
    by (rule Suc.IH [OF Suc.prems])
  have nd: "\<not> is_digit (hd (placeholderGroup b @ x))" for b x by (simp add: placeholderGroup_def is_digit_def)
  have r: "groupsText n (Suc i) k @ t = [] \<or> \<not> is_digit (hd (groupsText n (Suc i) k @ t))"
    using Suc.prems nd by (cases k) (simp_all add: append_assoc)
  have comma: "placeholders ((if i + 1 < n then '','' else []) @ x) = placeholders x" for x
    by simp
  have r': "(if i + 1 < n then '','' else []) @ groupsText n (Suc i) k @ t = [] \<or>
      \<not> is_digit (hd ((if i + 1 < n then '','' else []) @ groupsText n (Suc i) k @ t))"
    using r by (simp add: is_digit_def)
  have up: "[i * 4 + 1 ..< (i + Suc k) * 4 + 1] =
      [i * 4 + 1, i * 4 + 2, i * 4 + 3, i * 4 + 4] @ [Suc i * 4 + 1 ..< (Suc i + k) * 4 + 1]"
    by (simp add: upt_conv_Cons eval_nat_numeral del: upt_Suc)
  have "placeholders (groupsText n i (Suc k) @ t) =
      [i * 4 + 1, i * 4 + 2, i * 4 + 3, i * 4 + 4] @
      placeholders ((if i + 1 < n then '','' else []) @ groupsText n (Suc i) k @ t)"
    using placeholders_group [OF r', of "i * 4 + 1"] by (simp add: append_assoc del: placeholders.simps)
  then show ?case unfolding comma IH up by simp
qed simp

lemma batchQuery_closed:
  assumes "length prepped = length docs"
  shows "batchQuery docs prepped =
     (insertHead @ groupsText (length docs) 0 (length docs) @ returning,
      concat (map docArgs (zip docs prepped)))"
  using assms by (simp add: batchQuery_def batchLoop_closed returning_def insertHead_def)

lemma length_docArgs: "length (concat (map docArgs rs)) = 4 * length rs"
  by (induction rs) (auto simp: docArgs_def)

lemma batchQuery_fit:
  assumes "length prepped = length docs" and "batchQuery docs prepped = (q, args)"
  shows "placeholders q = [1 ..< length docs * 4 + 1] \<and> length args = length docs * 4"
proof -
  have ret: "placeholders returning = []" "\<not> is_digit (hd returning)"
    unfolding returning_def by code_simp+
  have head: "placeholders (insertHead @ x) = placeholders x" for x by (simp add: insertHead_def)
  have q: "q = insertHead @ groupsText (length docs) 0 (length docs) @ returning"
    and args: "args = concat (map docArgs (zip docs prepped))"
    using assms(2) batchQuery_closed [OF assms(1)] by simp_all
  have "placeholders q = [1 ..< length docs * 4 + 1]"
    unfolding q head using placeholders_groups [of returning "length docs" 0 "length docs"] ret by simp
  moreover have "length args = length docs * 4"
    using length_docArgs [of "zip docs prepped"] assms(1) unfolding args by simp
  ultimately show ?thesis by blast
qed

section \<open>The transaction\<close>

text \<open>
  What a database promises about transactions: there is committed data, which no statement
  changes while a transaction is open, and which a rollback and a failed commit leave alone.
\<close>

definition transactional :: "'d driver \<Rightarrow> ('d \<Rightarrow> 'v) \<Rightarrow> ('d \<Rightarrow> bool) \<Rightarrow> bool" where
  "transactional drv committed in_tx \<longleftrightarrow>
     (\<forall>d r d'. drv_Begin drv d = (r, d') \<longrightarrow> committed d' = committed d \<and> (\<forall>u. r = Ok u \<longrightarrow> in_tx d')) \<and>
     (\<forall>q as d r d'. in_tx d \<longrightarrow> drv_Query drv q as d = (r, d') \<longrightarrow> committed d' = committed d \<and> in_tx d') \<and>
     (\<forall>q as d r d'. in_tx d \<longrightarrow> drv_Exec drv q as d = (r, d') \<longrightarrow> committed d' = committed d \<and> in_tx d') \<and>
     (\<forall>d. in_tx d \<longrightarrow> committed (drv_Rollback drv d) = committed d) \<and>
     (\<forall>d r d'. in_tx d \<longrightarrow> drv_Commit drv d = (r, d') \<longrightarrow> (\<forall>u. r \<noteq> Ok u) \<longrightarrow> committed d' = committed d)"

lemma tx_Begin:
  "transactional drv committed in_tx \<Longrightarrow> drv_Begin drv d = (r, d') \<Longrightarrow>
     committed d' = committed d \<and> (\<forall>u. r = Ok u \<longrightarrow> in_tx d')"
  unfolding transactional_def by blast

lemma tx_Query:
  "transactional drv committed in_tx \<Longrightarrow> in_tx d \<Longrightarrow> drv_Query drv q as d = (r, d') \<Longrightarrow>
     committed d' = committed d \<and> in_tx d'"
  unfolding transactional_def by blast

lemma tx_Exec:
  "transactional drv committed in_tx \<Longrightarrow> in_tx d \<Longrightarrow> drv_Exec drv q as d = (r, d') \<Longrightarrow>
     committed d' = committed d \<and> in_tx d'"
  unfolding transactional_def by blast

lemma tx_Rollback:
  "transactional drv committed in_tx \<Longrightarrow> in_tx d \<Longrightarrow> committed (drv_Rollback drv d) = committed d"
  unfolding transactional_def by blast

lemma tx_Commit:
  "transactional drv committed in_tx \<Longrightarrow> in_tx d \<Longrightarrow> drv_Commit drv d = (r, d') \<Longrightarrow>
     (\<And>u. r \<noteq> Ok u) \<Longrightarrow> committed d' = committed d"
  unfolding transactional_def by blast

definition keeps_tx :: "('d \<Rightarrow> 'v) \<Rightarrow> ('d \<Rightarrow> bool) \<Rightarrow> 'v \<Rightarrow> 'd pool \<Rightarrow> bool" where
  "keeps_tx committed in_tx v p \<longleftrightarrow> in_tx (server p) \<and> committed (server p) = v"

lemma batchBody_keeps:
  assumes "transactional drv committed in_tx"
  shows "preserves (keeps_tx committed in_tx v) (batchBody drv sched docs)"
proof -
  have q: "preserves (keeps_tx committed in_tx v) (on_server (drv_Query drv q as))" for q as
  proof
    fix p assume k: "keeps_tx committed in_tx v p"
    obtain r d where "drv_Query drv q as (server p) = (r, d)" by fastforce
    with tx_Query [OF assms _ this] k show "keeps_tx committed in_tx v (snd (on_server (drv_Query drv q as) p))"
      by (simp add: keeps_tx_def on_server_def)
  qed
  have x: "preserves (keeps_tx committed in_tx v) (on_server (drv_Exec drv q as))" for q as
  proof
    fix p assume k: "keeps_tx committed in_tx v p"
    obtain r d where "drv_Exec drv q as (server p) = (r, d)" by fastforce
    with tx_Exec [OF assms _ this] k show "keeps_tx committed in_tx v (snd (on_server (drv_Exec drv q as) p))"
      by (simp add: keeps_tx_def on_server_def)
  qed
  show ?thesis unfolding batchBody_def
    by (intro preserves_intros x q) (auto split: prod.splits intro: q)
qed

lemma BatchInsert_atomic:
  assumes tx: "transactional drv committed in_tx"
    and run: "DocumentRepo_BatchInsert drv sched collectionId docs p = (r, p')"
    and err: "\<forall>x. r \<noteq> Ok x" "r \<noteq> Diverge"
  shows "committed (server p') = committed (server p)"
proof -
  obtain b d where b: "drv_Begin drv (server p) = (b, d)" by fastforce
  have c: "committed d = committed (server p)" and i: "\<And>u. b = Ok u \<Longrightarrow> in_tx d"
    using tx_Begin [OF tx b] by blast+
  show ?thesis
  proof (cases "\<exists>u. b = Ok u")
    case False
    then show ?thesis using run b c
      by (cases b) (auto simp: DocumentRepo_BatchInsert_def andThen_def handle_def wrap_error_def
          on_server_def fail_def)
  next
    case True
    let ?p = "p\<lparr>server := d\<rparr>"
    obtain o' p1 where body: "batchBody drv sched docs ?p = (o', p1)" by fastforce
    have "keeps_tx committed in_tx (committed d) ?p" using i True by (auto simp: keeps_tx_def)
    then have "keeps_tx committed in_tx (committed d) (snd (batchBody drv sched docs ?p))"
      by (rule preservesD [OF batchBody_keeps [OF tx]])
    then have k: "in_tx (server p1)" "committed (server p1) = committed d"
      by (auto simp: keeps_tx_def body)
    then have rb: "committed (drv_Rollback drv (server p1)) = committed d"
      using tx_Rollback [OF tx] by simp
    obtain x d2 where cm: "drv_Commit drv (server p1) = (x, d2)" by fastforce
    have "(\<forall>u. x \<noteq> Ok u) \<Longrightarrow> committed d2 = committed d"
      using tx_Commit [OF tx k(1) cm] k(2) by simp
    then show ?thesis using run err b c True body rb cm
      by (cases o'; cases x)
         (auto simp: DocumentRepo_BatchInsert_def andThen_def handle_def wrap_error_def on_server_def
           fail_def ret_def)
  qed
qed

section \<open>Properties\<close>

text \<open>A driver that keeps its data in memory and a copy of it while a transaction is open.\<close>

definition snapshot_driver :: "(nat \<times> nat option) driver" where
  "snapshot_driver =
     \<lparr>drv_Query = (\<lambda>q as d. (Err (ErrNew ''constraint violation''), case d of (n, t) \<Rightarrow> (n, map_option Suc t))),
      drv_Exec = (\<lambda>q as d. (Ok (Ok 1), d)),
      drv_Begin = (\<lambda>d. (Ok (), case d of (n, t) \<Rightarrow> (n, Some n))),
      drv_Commit = (\<lambda>d. (Ok (), case d of (n, t) \<Rightarrow> (case t of Some m \<Rightarrow> (m, None) | None \<Rightarrow> (n, None)))),
      drv_Rollback = (\<lambda>d. case d of (n, t) \<Rightarrow> (n, None)),
      drv_Ping = ret ()\<rparr>"

lemma snapshot_transactional: "transactional snapshot_driver fst (\<lambda>d. snd d \<noteq> None)"
  by (auto simp: transactional_def snapshot_driver_def)

text \<open>C7 A batch insert is atomic: when it reports an error or panics, at any statement, row or
  the commit itself, the committed data is what it was before.\<close>

theorem batch_insert_atomic:
  assumes "transactional drv committed in_tx"
    and "DocumentRepo_BatchInsert drv sched collectionId docs p = (r, p')"
    and "\<forall>x. r \<noteq> Ok x" and "r \<noteq> Diverge"
  shows "committed (server p') = committed (server p)"
  using assms by (rule BatchInsert_atomic)

lemma batch_insert_atomic_witness:
  "fst (server (snd (DocumentRepo_BatchInsert snapshot_driver (\<lambda>_. []) ''c'' [zero_Document]
     \<lparr>server = (7, None), goroutines = [], HNSWBuildDuration = 0, HNSWBuildErrors = 0\<rparr>))) = 7"
proof -
  let ?p = "\<lparr>server = (7, None), goroutines = [], HNSWBuildDuration = 0, HNSWBuildErrors = 0\<rparr> :: (nat \<times> nat option) pool"
  let ?run = "DocumentRepo_BatchInsert snapshot_driver (\<lambda>_. []) ''c'' [zero_Document] ?p"
  obtain r p' where run: "?run = (r, p')" by fastforce
  have "fst ?run = Err (ErrNew ''constraint violation'')" by code_simp
  with run have "r = Err (ErrNew ''constraint violation'')" by simp
  from batch_insert_atomic [OF snapshot_transactional run] this run show ?thesis by simp
qed

text \<open>C13 The statement of a batch insert has the placeholders 1 to 4n in order, and as their
  arguments collection, vector text, metadata and content of each document, in the order
  of the batch: whatever order the serialising goroutines run in.\<close>

theorem batch_statement_any_schedule:
  assumes "length docs \<ge> 32 \<longrightarrow> distinct (sched (length docs)) \<and> set (sched (length docs)) = {..<length docs}"
    and "checkMarshal 0 (prepareBatch sched docs) = Ok prepped"
    and "batchQuery docs prepped = (q, args)"
  shows "placeholders q = [1 ..< 4 * length docs + 1] \<and>
         map snd prepped = map (\<lambda>d. case json_Marshal (d_Metadata d) of Ok j \<Rightarrow> j) docs \<and>
         args = concat (map2 (\<lambda>d j. [AStr (d_CollectionId d), AStr (vectorToString (d_Vector d)), AJson j,
                                     AStr (d_Content d)]) docs (map snd prepped))"
proof -
  have "prepareBatch sched docs = map serialized_of docs"
    by (rule prepareBatch_any_order) (use assms(1) in blast)
  with checkMarshal_Ok [of 0 docs prepped] assms(2) have len: "length prepped = length docs"
    and all: "list_all2 (\<lambda>d (v, j). v = vectorToString (d_Vector d) \<and> json_Marshal (d_Metadata d) = Ok j) docs prepped"
    by simp_all
  have "placeholders q = [1 ..< 4 * length docs + 1]"
    using batchQuery_fit [OF len assms(3)] by (simp add: mult.commute)
  moreover have "map snd prepped = map (\<lambda>d. case json_Marshal (d_Metadata d) of Ok j \<Rightarrow> j) docs"
    using all by (induction rule: list_all2_induct) auto
  moreover have "args = concat (map docArgs (zip docs prepped))"
    using assms(3) batchQuery_closed [OF len] by simp
  moreover have "concat (map docArgs (zip docs prepped)) =
      concat (map2 (\<lambda>d j. [AStr (d_CollectionId d), AStr (vectorToString (d_Vector d)), AJson j,
                            AStr (d_Content d)]) docs (map snd prepped))"
    using all by (induction rule: list_all2_induct) (auto simp: docArgs_def)
  ultimately show ?thesis by simp
qed

lemma batch_statement_any_schedule_witness:
  "\<exists>q args. batchQuery (replicate 40 zero_Document) (replicate 40 (''[]'', Json JNull)) = (q, args) \<and>
     placeholders q = [1 ..< 161]"
proof -
  let ?docs = "replicate 40 zero_Document"
  obtain q args where b: "batchQuery ?docs (replicate 40 (''[]'', Json JNull)) = (q, args)" by fastforce
  have "checkMarshal 0 (prepareBatch (\<lambda>n. rev [0 ..< n]) ?docs) = Ok (replicate 40 (''[]'', Json JNull))"
    by code_simp
  from batch_statement_any_schedule [OF _ this b] have "placeholders q = [1 ..< 161]"
    by (simp add: atLeast0LessThan)
  with b show ?thesis by blast
qed

end
