(* ===== verification/Embedding.thy ===== *)
theory Embedding
  imports Cache
begin

text \<open>
  \<open>internal/embedding\<close>: the clients of the embedding providers. The network is the record
  \<open>net\<close>, a parameter: the environment variables, the check of an URL by \<open>net/http\<close> and the
  exchange of a request for a response with the providers, whose state is of type \<open>'h\<close>.

  The body of a response is the JSON value at its start, \<open>None\<close> when there is none; numbers
  are read by their value. What the services rely on is the contract \<open>embedding_client\<close>:
  a client that succeeds returns one vector for each text.
\<close>

section \<open>The network\<close>

record http_request =
  hr_url :: string
  hr_headers :: "(string \<times> string) list"
  hr_body :: jval

record http_response =
  StatusCode :: int
  Body :: "jval option"

record 'h net =
  Getenv :: "string \<Rightarrow> string"
  url_error :: "string \<Rightarrow> gerror option"
  exchange :: "http_request \<Rightarrow> 'h \<Rightarrow> (gerror + http_response) \<times> 'h"

definition Do :: "'h net \<Rightarrow> http_request \<Rightarrow> ('h, gerror, http_response) op" where
  "Do net req h =
     (case exchange net req h of
        (Inl e, h') \<Rightarrow> (Err e, h')
      | (Inr resp, h') \<Rightarrow> (Ok resp, h'))"

text \<open>\<open>http.NewRequestWithContext\<close> followed by \<open>client.Do\<close>, each with its own error text.\<close>

definition post ::
  "'h net \<Rightarrow> (gerror \<Rightarrow> gerror) \<Rightarrow> (gerror \<Rightarrow> gerror) \<Rightarrow> http_request \<Rightarrow> ('h, gerror, http_response) op" where
  "post net bad_url failed req =
     (case url_error net (hr_url req) of
        Some e \<Rightarrow> fail (bad_url e)
      | None \<Rightarrow> wrap_error failed (Do net req))"

section \<open>Decoding of responses\<close>

definition json_error :: gerror where
  "json_error = ErrNew ''json: cannot unmarshal''"

text \<open>A field of an object; names are compared without case and the last one wins.\<close>

definition field :: "string \<Rightarrow> (string \<times> jval) list \<Rightarrow> jval" where
  "field name kvs =
     (case List.find (\<lambda>(k, _). strings_ToLower k = name) (rev kvs) of Some (_, v) \<Rightarrow> v | None \<Rightarrow> JNull)"

fun decode_float :: "jval \<Rightarrow> fp result" where
  "decode_float (JNum (Fin s m)) = (case f32_round s m of Inf _ \<Rightarrow> Err json_error | x \<Rightarrow> Ok x)"
| "decode_float JNull = Ok f_zero"
| "decode_float _ = Err json_error"

fun decode_int :: "jval \<Rightarrow> int result" where
  "decode_int (JNum (Fin s m)) =
     (if m = of_int \<lfloor>m\<rfloor> then Ok (if s then - \<lfloor>m\<rfloor> else \<lfloor>m\<rfloor>) else Err json_error)"
| "decode_int JNull = Ok 0"
| "decode_int _ = Err json_error"

fun decode_string :: "jval \<Rightarrow> string result" where
  "decode_string (JStr s) = Ok s"
| "decode_string JNull = Ok []"
| "decode_string _ = Err json_error"

fun decode_list :: "(jval \<Rightarrow> 'a result) \<Rightarrow> jval list \<Rightarrow> 'a list result" where
  "decode_list f [] = Ok []"
| "decode_list f (v # vs) = chain (f v) (\<lambda>x. chain (decode_list f vs) (\<lambda>xs. Ok (x # xs)))"

fun decode_slice :: "(jval \<Rightarrow> 'a result) \<Rightarrow> jval \<Rightarrow> 'a list result" where
  "decode_slice f (JArr vs) = decode_list f vs"
| "decode_slice f JNull = Ok []"
| "decode_slice f _ = Err json_error"

fun decode_object :: "((string \<times> jval) list \<Rightarrow> 'a result) \<Rightarrow> jval \<Rightarrow> 'a result" where
  "decode_object f (JObj kvs) = f kvs"
| "decode_object f JNull = f []"
| "decode_object f _ = Err json_error"

definition decode_body :: "((string \<times> jval) list \<Rightarrow> 'a result) \<Rightarrow> http_response \<Rightarrow> 'a result" where
  "decode_body f resp =
     (case Body resp of None \<Rightarrow> Err (ErrNew ''EOF'') | Some v \<Rightarrow> decode_object f v)"

abbreviation decode_vector :: "jval \<Rightarrow> fp list result" where
  "decode_vector \<equiv> decode_slice decode_float"

section \<open>OpenAI\<close>

text \<open>\<open>openaiResponseData\<close>: an embedding with the index of its text.\<close>

definition openaiItem :: "(string \<times> jval) list \<Rightarrow> (fp list \<times> int) result" where
  "openaiItem kvs =
     chain (decode_vector (field ''embedding'' kvs)) (\<lambda>e.
     chain (decode_int (field ''index'' kvs)) (\<lambda>i. Ok (e, i)))"

definition openaiResponse :: "(string \<times> jval) list \<Rightarrow> (fp list \<times> int) list result" where
  "openaiResponse kvs = decode_slice (decode_object openaiItem) (field ''data'' kvs)"

definition openaiError :: "(string \<times> jval) list \<Rightarrow> string result" where
  "openaiError kvs = decode_object (\<lambda>kvs. decode_string (field ''message'' kvs)) (field ''error'' kvs)"

text \<open>The loop that places the items by their index, and the check that none is missing.\<close>

fun placeItems :: "(fp list \<times> int) list \<Rightarrow> fp list list \<Rightarrow> fp list list" where
  "placeItems [] results = results"
| "placeItems ((emb, i) # items) results =
     placeItems items (if 0 \<le> i \<and> i < int (length results) then results[nat i := emb] else results)"

fun firstEmpty :: "nat \<Rightarrow> fp list list \<Rightarrow> nat option" where
  "firstEmpty i [] = None"
| "firstEmpty i (emb # embs) = (if emb = [] then Some i else firstEmpty (Suc i) embs)"

definition bearer :: "string \<Rightarrow> (string \<times> string) list" where
  "bearer apiKey = [(''Content-Type'', ''application/json''), (''Authorization'', ''Bearer '' @ apiKey)]"

definition OpenAI_GenerateEmbeddings ::
  "'h net \<Rightarrow> string \<Rightarrow> string \<Rightarrow> string list \<Rightarrow> ('h, gerror, fp list list) op" where
  "OpenAI_GenerateEmbeddings net apiKey model texts =
     (if texts = [] then ret []
      else
        let apiBase = (if Getenv net ''OPENAI_API_BASE'' = [] then ''https://api.openai.com''
                       else Getenv net ''OPENAI_API_BASE'')
        in andThen (post net (ErrWrap ''failed to create http request: %w'' []) (ErrWrap ''http request failed: %w'' [])
                      \<lparr>hr_url = apiBase @ ''/v1/embeddings'', hr_headers = bearer apiKey,
                       hr_body = JObj [(''input'', JArr (map JStr texts)), (''model'', JStr model)]\<rparr>)
             (\<lambda>resp.
                if StatusCode resp \<noteq> 200 then
                  (case decode_body openaiError resp of
                     Ok msg \<Rightarrow>
                       (if msg \<noteq> [] then fail (ErrFmt ''openai API error: %s (status: %d)'' [FStr msg, FInt (StatusCode resp)])
                        else fail (ErrFmt ''openai API request failed with status code %d'' [FInt (StatusCode resp)]))
                   | _ \<Rightarrow> fail (ErrFmt ''openai API request failed with status code %d'' [FInt (StatusCode resp)]))
                else
                  andThen (lift (map_error (ErrWrap ''failed to decode response body: %w'' []) (decode_body openaiResponse resp)))
                    (\<lambda>items.
                       let results = placeItems items (replicate (length texts) []) in
                       case firstEmpty 0 results of
                         Some i \<Rightarrow> fail (ErrFmt ''missing embedding for input index %d'' [FInt (int i)])
                       | None \<Rightarrow> ret results)))"

section \<open>Cohere\<close>

definition embeddingsField :: "(string \<times> jval) list \<Rightarrow> fp list list result" where
  "embeddingsField kvs = decode_slice decode_vector (field ''embeddings'' kvs)"

definition Cohere_GenerateEmbeddings ::
  "'h net \<Rightarrow> string \<Rightarrow> string \<Rightarrow> string list \<Rightarrow> ('h, gerror, fp list list) op" where
  "Cohere_GenerateEmbeddings net apiKey model texts =
     (if texts = [] then ret []
      else
        let apiBase = (if Getenv net ''COHERE_API_BASE'' = [] then ''https://api.cohere.com''
                       else Getenv net ''COHERE_API_BASE'')
        in andThen (post net (ErrWrap ''failed to create http request: %w'' []) (ErrWrap ''http request failed: %w'' [])
                      \<lparr>hr_url = apiBase @ ''/v1/embed'', hr_headers = bearer apiKey,
                       hr_body = JObj [(''texts'', JArr (map JStr texts)), (''model'', JStr model),
                                       (''input_type'', JStr ''search_document'')]\<rparr>)
             (\<lambda>resp.
                if StatusCode resp \<noteq> 200 then
                  (case decode_body (\<lambda>kvs. decode_string (field ''message'' kvs)) resp of
                     Ok msg \<Rightarrow>
                       (if msg \<noteq> [] then fail (ErrFmt ''cohere API error: %s (status: %d)'' [FStr msg, FInt (StatusCode resp)])
                        else fail (ErrFmt ''cohere API request failed with status code %d'' [FInt (StatusCode resp)]))
                   | _ \<Rightarrow> fail (ErrFmt ''cohere API request failed with status code %d'' [FInt (StatusCode resp)]))
                else
                  andThen (lift (map_error (ErrWrap ''failed to decode response body: %w'' []) (decode_body embeddingsField resp)))
                    (\<lambda>embs.
                       if length embs \<noteq> length texts
                       then fail (ErrFmt ''expected %d embeddings, got %d'' [FInt (int (length texts)), FInt (int (length embs))])
                       else ret embs)))"

section \<open>Ollama\<close>

definition ollamaHeaders :: "(string \<times> string) list" where
  "ollamaHeaders = [(''Content-Type'', ''application/json'')]"

definition tryBatchEmbed :: "'h net \<Rightarrow> string \<Rightarrow> string \<Rightarrow> string list \<Rightarrow> ('h, gerror, fp list list) op" where
  "tryBatchEmbed net host model texts =
     andThen (post net (\<lambda>e. e) (\<lambda>e. e)
                \<lparr>hr_url = fmt_Sprintf ''%s/api/embed'' [FStr host], hr_headers = ollamaHeaders,
                 hr_body = JObj [(''model'', JStr model), (''input'', JArr (map JStr texts))]\<rparr>)
       (\<lambda>resp.
          if StatusCode resp \<noteq> 200 then fail (ErrFmt ''non-200 status code: %d'' [FInt (StatusCode resp)])
          else andThen (lift (decode_body embeddingsField resp)) (\<lambda>embs.
                 if length embs \<noteq> length texts then fail (ErrNew ''mismatch in returned embedding count'')
                 else ret embs))"

definition callLegacyEmbeddings :: "'h net \<Rightarrow> string \<Rightarrow> string \<Rightarrow> string \<Rightarrow> ('h, gerror, fp list) op" where
  "callLegacyEmbeddings net host model text =
     andThen (post net (\<lambda>e. e) (\<lambda>e. e)
                \<lparr>hr_url = fmt_Sprintf ''%s/api/embeddings'' [FStr host], hr_headers = ollamaHeaders,
                 hr_body = JObj [(''model'', JStr model), (''prompt'', JStr text)]\<rparr>)
       (\<lambda>resp.
          if StatusCode resp \<noteq> 200
          then fail (ErrFmt ''non-200 status code from legacy embeddings: %d'' [FInt (StatusCode resp)])
          else andThen (lift (decode_body (\<lambda>kvs. decode_vector (field ''embedding'' kvs)) resp)) (\<lambda>emb.
                 if emb = [] then fail (ErrNew ''empty embedding returned'') else ret emb))"

text \<open>The loop of the fallback: one request for each text, in order, up to the first error.\<close>

fun legacyLoop :: "'h net \<Rightarrow> string \<Rightarrow> string \<Rightarrow> nat \<Rightarrow> string list \<Rightarrow> ('h, gerror, fp list list) op" where
  "legacyLoop net host model i [] = ret []"
| "legacyLoop net host model i (text # texts) =
     andThen (wrap_error (ErrWrap ''failed to generate embedding at index %d: %w'' [FInt (int i)])
                (callLegacyEmbeddings net host model text)) (\<lambda>emb.
     andThen (legacyLoop net host model (Suc i) texts) (\<lambda>embs.
       ret (emb # embs)))"

definition Ollama_GenerateEmbeddings ::
  "'h net \<Rightarrow> string \<Rightarrow> string \<Rightarrow> string list \<Rightarrow> ('h, gerror, fp list list) op" where
  "Ollama_GenerateEmbeddings net host model texts =
     (if texts = [] then ret []
      else handle (tryBatchEmbed net host model texts) ret (\<lambda>_. legacyLoop net host model 0 texts))"

definition Ollama_GenerateEmbedding :: "'h net \<Rightarrow> string \<Rightarrow> string \<Rightarrow> string \<Rightarrow> ('h, gerror, fp list) op" where
  "Ollama_GenerateEmbedding net host model text =
     handle (tryBatchEmbed net host model [text])
       (\<lambda>embs. case embs of e # _ \<Rightarrow> ret e | [] \<Rightarrow> callLegacyEmbeddings net host model text)
       (\<lambda>_. callLegacyEmbeddings net host model text)"

section \<open>The interface and the factory\<close>

datatype embedding_client =
    OpenAIEmbeddingClient string string
  | OllamaEmbeddingClient string string
  | CohereEmbeddingClient string string

fun GenerateEmbeddings :: "'h net \<Rightarrow> embedding_client \<Rightarrow> string list \<Rightarrow> ('h, gerror, fp list list) op" where
  "GenerateEmbeddings net (OpenAIEmbeddingClient apiKey model) texts = OpenAI_GenerateEmbeddings net apiKey model texts"
| "GenerateEmbeddings net (OllamaEmbeddingClient host model) texts = Ollama_GenerateEmbeddings net host model texts"
| "GenerateEmbeddings net (CohereEmbeddingClient apiKey model) texts = Cohere_GenerateEmbeddings net apiKey model texts"

definition firstEmbedding :: "string \<Rightarrow> fp list list \<Rightarrow> ('h, gerror, fp list) op" where
  "firstEmbedding msg embs = (case embs of e # _ \<Rightarrow> ret e | [] \<Rightarrow> fail (ErrNew msg))"

fun GenerateEmbedding :: "'h net \<Rightarrow> embedding_client \<Rightarrow> string \<Rightarrow> ('h, gerror, fp list) op" where
  "GenerateEmbedding net (OpenAIEmbeddingClient apiKey model) text =
     andThen (OpenAI_GenerateEmbeddings net apiKey model [text]) (firstEmbedding ''no embedding returned from OpenAI'')"
| "GenerateEmbedding net (OllamaEmbeddingClient host model) text = Ollama_GenerateEmbedding net host model text"
| "GenerateEmbedding net (CohereEmbeddingClient apiKey model) text =
     andThen (Cohere_GenerateEmbeddings net apiKey model [text]) (firstEmbedding ''no embedding returned from Cohere'')"

definition NewOpenAIEmbeddingClient :: "'h net \<Rightarrow> string \<Rightarrow> embedding_client result" where
  "NewOpenAIEmbeddingClient net model =
     (let apiKey = Getenv net ''OPENAI_API_KEY'' in
      if apiKey = [] then Err (ErrNew ''OPENAI_API_KEY environment variable is not set'')
      else Ok (OpenAIEmbeddingClient apiKey model))"

definition NewOllamaEmbeddingClient :: "'h net \<Rightarrow> string \<Rightarrow> embedding_client result" where
  "NewOllamaEmbeddingClient net model =
     (let host = Getenv net ''OLLAMA_HOST'';
          host = (if host = [] then ''http://localhost:11434'' else host);
          host = strings_TrimSuffix host ''/''
      in Ok (OllamaEmbeddingClient host model))"

definition NewCohereEmbeddingClient :: "'h net \<Rightarrow> string \<Rightarrow> embedding_client result" where
  "NewCohereEmbeddingClient net model =
     (let apiKey = Getenv net ''COHERE_API_KEY'' in
      if apiKey = [] then Err (ErrNew ''COHERE_API_KEY environment variable is not set'')
      else Ok (CohereEmbeddingClient apiKey model))"

definition GetClient :: "'h net \<Rightarrow> string \<Rightarrow> string \<Rightarrow> embedding_client result" where
  "GetClient net provider model =
     (let p = strings_ToLower provider in
      if p = ''openai'' then NewOpenAIEmbeddingClient net model
      else if p = ''ollama'' then NewOllamaEmbeddingClient net model
      else if p = ''cohere'' then NewCohereEmbeddingClient net model
      else Err (ErrFmt ''unknown embedding provider: %s'' [FStr provider]))"

section \<open>The contract of a client\<close>

locale embedding_client_contract =
  fixes generate :: "string list \<Rightarrow> ('h, gerror, fp list list) op"
  assumes one_for_each: "generate texts h = (Ok embs, h') \<Longrightarrow> length embs = length texts"
    and client_returns: "safe_op (generate texts)"
begin

lemma pairs: "generate texts h = (Ok embs, h') \<Longrightarrow> map fst (zip texts embs) = texts \<and> map snd (zip texts embs) = embs"
  by (simp add: one_for_each)

lemma no_texts: "generate [] h = (Ok embs, h') \<Longrightarrow> embs = []"
  using one_for_each by fastforce

end

lemma safe_post: "safe_op (post net f g req)"
  by (auto simp: post_def wrap_error_def Do_def safe_op_def fail_def split: option.splits prod.splits sum.splits)

lemma returns_chain: "returns r \<Longrightarrow> (\<And>x. returns (f x)) \<Longrightarrow> returns (chain r f)"
  by (cases r) auto

lemma returns_map_error [simp]: "returns (map_error g r) = returns r"
  by (cases r) auto

lemma returns_decode_float: "returns (decode_float v)"
  by (cases v rule: decode_float.cases) (auto split: fp.splits)

lemma returns_decode_int: "returns (decode_int v)"
  by (cases v rule: decode_int.cases) auto

lemma returns_decode_string: "returns (decode_string v)"
  by (cases v rule: decode_string.cases) auto

lemma returns_decode_slice: "(\<And>v. returns (f v)) \<Longrightarrow> returns (decode_slice f w)"
proof (cases "(f, w)" rule: decode_slice.cases)
  case (1 f' vs)
  assume f: "\<And>v. returns (f v)"
  have "returns (decode_list f vs)" by (induction vs) (auto intro!: returns_chain f)
  then show ?thesis using 1 by simp
qed auto

lemma returns_decode_object: "(\<And>kvs. returns (f kvs)) \<Longrightarrow> returns (decode_object f v)"
  by (cases "(f, v)" rule: decode_object.cases) auto

lemma returns_decode_body: "(\<And>kvs. returns (f kvs)) \<Longrightarrow> returns (decode_body f resp)"
  by (auto simp: decode_body_def returns_decode_object split: option.splits)

lemmas returns_decoders = returns_decode_float returns_decode_int returns_decode_string
  returns_decode_slice returns_decode_object returns_decode_body returns_chain

lemma returns_openai: "returns (decode_body openaiResponse resp)"
  by (auto simp: openaiResponse_def openaiItem_def intro!: returns_decoders)

lemma returns_embeddings: "returns (decode_body embeddingsField resp)"
  by (auto simp: embeddingsField_def intro!: returns_decoders)

text \<open>OpenAI: each text has the vector that was sent for its index, and no vector is empty.\<close>

lemma length_placeItems [simp]: "length (placeItems items results) = length results"
  by (induction items results rule: placeItems.induct) auto

lemma firstEmpty_None: "firstEmpty i embs = None \<longleftrightarrow> [] \<notin> set embs"
  by (induction embs arbitrary: i) auto

lemma placeItems_from:
  "e \<in> set (placeItems items results) \<Longrightarrow> e \<in> set results \<or> (\<exists>i. (e, i) \<in> set items)"
proof (induction items results rule: placeItems.induct)
  case (2 emb i items results)
  then show ?case by (auto split: if_splits dest: set_update_subset_insert [THEN subsetD])
qed simp

lemma OpenAI_Ok:
  assumes "OpenAI_GenerateEmbeddings net key model texts h = (Ok embs, h')"
  shows "length embs = length texts \<and> [] \<notin> set embs"
  using assms
  by (auto simp: OpenAI_GenerateEmbeddings_def ret_def fail_def lift_def Let_def firstEmpty_None
      elim!: andThen_OkE split: if_splits option.splits outcome.splits)

lemma safe_OpenAI: "safe_op (OpenAI_GenerateEmbeddings net key model texts)"
  unfolding OpenAI_GenerateEmbeddings_def
  by (auto simp: Let_def returns_openai intro!: safe_andThen safe_post split: option.splits outcome.splits)

lemma Cohere_Ok:
  "Cohere_GenerateEmbeddings net key model texts h = (Ok embs, h') \<Longrightarrow> length embs = length texts"
  by (auto simp: Cohere_GenerateEmbeddings_def ret_def fail_def lift_def Let_def
      elim!: andThen_OkE split: if_splits outcome.splits)

lemma safe_Cohere: "safe_op (Cohere_GenerateEmbeddings net key model texts)"
  unfolding Cohere_GenerateEmbeddings_def
  by (auto simp: Let_def returns_embeddings intro!: safe_andThen safe_post split: outcome.splits)

lemma legacyLoop_Ok: "legacyLoop net host model i texts h = (Ok embs, h') \<Longrightarrow> length embs = length texts \<and> [] \<notin> set embs"
proof (induction texts arbitrary: i h embs)
  case Nil
  then show ?case by (simp add: ret_def)
next
  case (Cons t texts)
  from Cons.prems obtain e h1 es where
    e: "callLegacyEmbeddings net host model t h = (Ok e, h1)"
    and es: "legacyLoop net host model (Suc i) texts h1 = (Ok es, h')" and "embs = e # es"
    by (auto simp: wrap_error_Ok ret_def elim!: andThen_OkE)
  moreover have "e \<noteq> []" using e
    by (auto simp: callLegacyEmbeddings_def ret_def fail_def lift_def elim!: andThen_OkE split: if_splits)
  ultimately show ?case using Cons.IH [OF es] by simp
qed

lemma tryBatch_Ok: "tryBatchEmbed net host model texts h = (Ok embs, h') \<Longrightarrow> length embs = length texts"
  by (auto simp: tryBatchEmbed_def ret_def fail_def lift_def elim!: andThen_OkE split: if_splits)

lemma Ollama_Ok:
  assumes "Ollama_GenerateEmbeddings net host model texts h = (Ok embs, h')"
  shows "length embs = length texts"
  using assms
  by (auto simp: Ollama_GenerateEmbeddings_def ret_def elim!: handle_OkE split: if_splits
      dest: tryBatch_Ok legacyLoop_Ok)

lemma safe_tryBatch: "safe_op (tryBatchEmbed net host model texts)"
  unfolding tryBatchEmbed_def
  by (auto simp: returns_embeddings intro!: safe_andThen safe_post)

lemma safe_legacy: "safe_op (callLegacyEmbeddings net host model text)"
  unfolding callLegacyEmbeddings_def
  by (auto intro!: safe_andThen safe_post returns_decoders)

lemma safe_legacyLoop: "safe_op (legacyLoop net host model i texts)"
  by (induction texts arbitrary: i) (auto intro!: safe_andThen safe_wrap safe_legacy)

lemma safe_Ollama: "safe_op (Ollama_GenerateEmbeddings net host model texts)"
  unfolding Ollama_GenerateEmbeddings_def
  by (auto intro!: safe_handle safe_tryBatch safe_legacyLoop)

interpretation openai: embedding_client_contract "OpenAI_GenerateEmbeddings net key model" for net key model
  by unfold_locales (simp_all add: OpenAI_Ok safe_OpenAI)

interpretation cohere: embedding_client_contract "Cohere_GenerateEmbeddings net key model" for net key model
  by unfold_locales (simp_all add: Cohere_Ok safe_Cohere)

interpretation ollama: embedding_client_contract "Ollama_GenerateEmbeddings net host model" for net host model
  by unfold_locales (simp_all add: Ollama_Ok safe_Ollama)

interpretation embed: embedding_client_contract "GenerateEmbeddings net c" for net c
proof (unfold_locales)
  fix texts h embs h'
  show "GenerateEmbeddings net c texts h = (Ok embs, h') \<Longrightarrow> length embs = length texts"
    by (cases c) (simp_all add: openai.one_for_each cohere.one_for_each ollama.one_for_each)
  show "safe_op (GenerateEmbeddings net c texts)"
    by (cases c) (simp_all add: openai.client_returns cohere.client_returns ollama.client_returns)
qed

end
