(* ===== verification/Repositories.thy ===== *)
theory Repositories
  imports Collection_Repo Document_Repo Cache
begin

text \<open>
  The interfaces of \<open>internal/services/interfaces.go\<close>: the operations that the services call,
  as records of operations on the state of the repository, and the implementations of
  \<open>internal/db\<close> as values of these records. \<open>WarmFromDB\<close>, which fills the cache from the
  database at the start, is here too.
\<close>

record 'd CollectionRepository =
  cr_Create :: "string \<Rightarrow> int \<Rightarrow> metadata \<Rightarrow> string \<Rightarrow> string \<Rightarrow> string \<Rightarrow> ('d, gerror, Collection) op"
  cr_List :: "int \<Rightarrow> int \<Rightarrow> ('d, gerror, Collection list) op"
  cr_ListById :: "string \<Rightarrow> ('d, gerror, Collection) op"
  cr_DeleteById :: "string \<Rightarrow> ('d, gerror, int) op"

record 'd DocumentRepository =
  dr_Create :: "string \<Rightarrow> string \<Rightarrow> fp list \<Rightarrow> metadata \<Rightarrow> ('d, gerror, Document) op"
  dr_Upsert :: "string \<Rightarrow> string \<Rightarrow> string \<Rightarrow> fp list \<Rightarrow> metadata \<Rightarrow> ('d, gerror, UpsertResult) op"
  dr_List :: "string \<Rightarrow> int \<Rightarrow> int \<Rightarrow> bool \<Rightarrow> ('d, gerror, Document list) op"
  dr_GetById :: "string \<Rightarrow> ('d, gerror, Document) op"
  dr_DeleteById :: "string \<Rightarrow> ('d, gerror, unit) op"
  dr_Search :: "string \<Rightarrow> fp list \<Rightarrow> int \<Rightarrow> metadata \<Rightarrow> fp \<Rightarrow> bool \<Rightarrow> string \<Rightarrow> ('d, gerror, SearchResult list) op"
  dr_FullTextSearch :: "string \<Rightarrow> string \<Rightarrow> int \<Rightarrow> fp \<Rightarrow> bool \<Rightarrow> ('d, gerror, SearchResult list) op"
  dr_BatchInsert :: "string \<Rightarrow> Document list \<Rightarrow> ('d, gerror, int \<times> Document list) op"
  dr_BatchDelete :: "string \<Rightarrow> string list \<Rightarrow> ('d, gerror, int \<times> Document list) op"
  dr_HybridSearch :: "string \<Rightarrow> string \<Rightarrow> fp list \<Rightarrow> int \<Rightarrow> metadata \<Rightarrow> fp \<Rightarrow> fp \<Rightarrow> bool \<Rightarrow> string \<Rightarrow>
     ('d, gerror, SearchResult list) op"

definition NewCollectionRepo :: "'d driver \<Rightarrow> 'd pool CollectionRepository" where
  "NewCollectionRepo drv =
     \<lparr>cr_Create = CollectionRepo_Create drv, cr_List = CollectionRepo_List drv,
      cr_ListById = CollectionRepo_ListById drv, cr_DeleteById = CollectionRepo_DeleteById drv\<rparr>"

definition NewDocumentRepo :: "'d driver \<Rightarrow> (nat \<Rightarrow> nat list) \<Rightarrow> 'd pool DocumentRepository" where
  "NewDocumentRepo drv sched =
     \<lparr>dr_Create = DocumentRepo_Create drv, dr_Upsert = DocumentRepo_Upsert drv,
      dr_List = DocumentRepo_List drv, dr_GetById = DocumentRepo_GetById drv,
      dr_DeleteById = DocumentRepo_DeleteById drv, dr_Search = DocumentRepo_Search drv,
      dr_FullTextSearch = DocumentRepo_FullTextSearch drv, dr_BatchInsert = DocumentRepo_BatchInsert drv sched,
      dr_BatchDelete = DocumentRepo_BatchDelete drv, dr_HybridSearch = DocumentRepo_HybridSearch drv\<rparr>"

section \<open>Warming the cache\<close>

definition warmQuery :: string where
  "warmQuery = ''SELECT id, vector_dim, distance_metric, embedding_provider, embedding_model FROM collections''"

fun scanWarm :: "sqlval list \<Rightarrow> (string \<times> int \<times> string \<times> string \<times> string) result" where
  "scanWarm [v1, v2, v3, v4, v5] =
     chain (scan_string v1) (\<lambda>i.
     chain (scan_int32 v2) (\<lambda>dimn.
     chain (scan_string v3) (\<lambda>metric.
     chain (scan_NullString v4) (\<lambda>ep.
     chain (scan_NullString v5) (\<lambda>em.
       Ok (i, dimn, metric, (case ep of Some s \<Rightarrow> s | None \<Rightarrow> []), (case em of Some s \<Rightarrow> s | None \<Rightarrow> [])))))))"
| "scanWarm _ = Err scan_error"

text \<open>The loop: what was read before an error stays in the cache.\<close>

fun warmRows :: "sqlval list list \<Rightarrow> cache \<Rightarrow> unit result \<times> cache" where
  "warmRows [] c = (Ok (), c)"
| "warmRows (row # rows) c =
     (case scanWarm row of
        Ok (i, dimn, metric, ep, em) \<Rightarrow> warmRows rows (cache_Insert i dimn metric ep em c)
      | Err e \<Rightarrow> (Err e, c)
      | Panic m \<Rightarrow> (Panic m, c)
      | Diverge \<Rightarrow> (Diverge, c))"

definition WarmFromDB :: "'d driver \<Rightarrow> (('d pool, 'h) world, gerror, unit) op" where
  "WarmFromDB drv =
     andThen (on_store (on_server (drv_Query drv warmQuery []))) (\<lambda>rs w.
       case warmRows (row_list rs) (cache w) of
         (r, c) \<Rightarrow> (chain r (\<lambda>_. check_Err (\<lambda>e. e) rs), w\<lparr>cache := c\<rparr>))"

end
