(* ===== verification/Document_Service.thy ===== *)
theory Document_Service
  imports Repositories Embedding Chunker
begin

text \<open>
  \<open>internal/services/document_service.go\<close>: the rules of the document operations. Each
  operation runs on the world of the services; the repositories and the network are
  parameters, as the struct fields and the imported packages are in the source.
\<close>

section \<open>Facts about a collection\<close>

text \<open>Look in the cache; on a miss ask the repository and remember the answer.\<close>

definition fetchCollection ::
  "'d CollectionRepository \<Rightarrow> string \<Rightarrow> (('d, 'h) world, gerror, Collection) op" where
  "fetchCollection cr collectionId =
     handle (on_store (cr_ListById cr collectionId))
       (\<lambda>c. andThen (update (\<lambda>w. w\<lparr>cache := cache_Insert collectionId (to_int32 (c_VectorDimension c))
                       (c_DistanceMetric c) (c_EmbeddingProvider c) (c_EmbeddingModel c) (cache w)\<rparr>)) (\<lambda>_. ret c))
       (\<lambda>e. if e = ErrNoRows then fail (ErrFmt ''collection_id %s not found'' [FStr collectionId])
            else fail (ErrWrap ''failed to fetch collection: %w'' [] e))"

definition getCollectionInfo ::
  "'d CollectionRepository \<Rightarrow> string \<Rightarrow> (('d, 'h) world, gerror, int \<times> string) op" where
  "getCollectionInfo cr collectionId =
     andThen (GetInfo collectionId) (\<lambda>(dimn, metric, _, _, ok).
       if ok then ret (dimn, metric)
       else andThen (fetchCollection cr collectionId) (\<lambda>c. ret (c_VectorDimension c, c_DistanceMetric c)))"

definition getCollectionEmbeddingInfo ::
  "'d CollectionRepository \<Rightarrow> string \<Rightarrow> (('d, 'h) world, gerror, string \<times> string) op" where
  "getCollectionEmbeddingInfo cr collectionId =
     andThen (GetInfo collectionId) (\<lambda>(_, _, provider, model, ok).
       if ok then ret (provider, model)
       else andThen (fetchCollection cr collectionId) (\<lambda>c. ret (c_EmbeddingProvider c, c_EmbeddingModel c)))"

section \<open>Checks\<close>

text \<open>The loop over the values of a vector: the first NaN or infinity is an error.\<close>

fun checkVector :: "string \<Rightarrow> nat \<Rightarrow> fp list \<Rightarrow> (('d, 'h) world, gerror, unit) op" where
  "checkVector what i [] = ret ()"
| "checkVector what i (val # vals) =
     (if IsNaN val then fail (ErrFmt (what @ '' contains NaN at index %d'') [FInt (int i)])
      else if IsInf val then fail (ErrFmt (what @ '' contains Infinity at index %d'') [FInt (int i)])
      else checkVector what (Suc i) vals)"

definition dimensionMismatch :: "string \<Rightarrow> int \<Rightarrow> fp list \<Rightarrow> gerror" where
  "dimensionMismatch what dimn vector =
     ErrFmt (what @ '' dimension mismatch: collection expects %d dimensions, got %d'')
       [FInt dimn, FInt (int (length vector))]"

definition orEmpty :: "metadata \<Rightarrow> metadata" where
  "orEmpty m = (case m of None \<Rightarrow> Some [] | Some kvs \<Rightarrow> Some kvs)"

definition defaultLimit :: int where "defaultLimit = 50"
definition maxLimit :: int where "maxLimit = 1000"
definition defaultTopK :: int where "defaultTopK = 10"
definition maxTopK :: int where "maxTopK = 1000"
definition batchSize :: int where "batchSize = 1000"

section \<open>Documents\<close>

definition CreateDocument ::
  "'d DocumentRepository \<Rightarrow> 'd CollectionRepository \<Rightarrow> string \<Rightarrow> string \<Rightarrow> fp list \<Rightarrow> metadata \<Rightarrow>
     (('d, 'h) world, gerror, Document) op" where
  "CreateDocument dr cr collectionId content vector metadata =
     (if collectionId = [] then fail (ErrNew ''collection_id is required'')
      else if vector = [] then fail (ErrNew ''vector cannot be empty'')
      else
        let metadata = orEmpty metadata in
        andThen (getCollectionInfo cr collectionId) (\<lambda>(dimn, _).
          if int (length vector) \<noteq> dimn then fail (dimensionMismatch ''vector'' dimn vector)
          else
            andThen (checkVector ''vector'' 0 vector) (\<lambda>_.
              wrap_error (ErrWrap ''failed to create document: %w'' [])
                (on_store (dr_Create dr collectionId content vector metadata)))))"

definition UpsertDocument ::
  "'d DocumentRepository \<Rightarrow> 'd CollectionRepository \<Rightarrow> string \<Rightarrow> string \<Rightarrow> string \<Rightarrow> fp list \<Rightarrow> metadata \<Rightarrow>
     (('d, 'h) world, gerror, UpsertResult) op" where
  "UpsertDocument dr cr documentId collectionId content vector metadata =
     (if documentId = [] then fail (ErrNew ''document_id is required for upsert'')
      else if collectionId = [] then fail (ErrNew ''collection_id is required'')
      else if vector = [] then fail (ErrNew ''vector cannot be empty'')
      else
        let metadata = orEmpty metadata in
        andThen (getCollectionInfo cr collectionId) (\<lambda>(dimn, _).
          if int (length vector) \<noteq> dimn then fail (dimensionMismatch ''vector'' dimn vector)
          else
            andThen (checkVector ''vector'' 0 vector) (\<lambda>_.
              wrap_error (ErrWrap ''failed to upsert document: %w'' [])
                (on_store (dr_Upsert dr documentId collectionId content vector metadata)))))"

definition ListDocuments ::
  "'d DocumentRepository \<Rightarrow> 'd CollectionRepository \<Rightarrow> string \<Rightarrow> int \<Rightarrow> int \<Rightarrow> bool \<Rightarrow>
     (('d, 'h) world, gerror, Document list) op" where
  "ListDocuments dr cr collectionId limit offset includeVector =
     (if collectionId = [] then fail (ErrNew ''collection_id is required'')
      else
        andThen (getCollectionInfo cr collectionId) (\<lambda>_.
          if limit < 0 then fail (ErrNew ''limit cannot be negative'')
          else
            let limit = (if limit = 0 then defaultLimit else limit) in
            if limit > maxLimit then fail (ErrFmt ''limit cannot exceed %d'' [FInt maxLimit])
            else if offset < 0 then fail (ErrNew ''offset cannot be negative'')
            else wrap_error (ErrWrap ''failed to list documents: %w'' [])
                   (on_store (dr_List dr collectionId limit offset includeVector))))"

definition GetDocument :: "'d DocumentRepository \<Rightarrow> string \<Rightarrow> (('d, 'h) world, gerror, Document) op" where
  "GetDocument dr documentId =
     (if documentId = [] then fail (ErrNew ''document_id is required'')
      else handle (on_store (dr_GetById dr documentId)) ret
             (\<lambda>e. if e = ErrNoRows then fail (ErrFmt ''document_id %s not found'' [FStr documentId])
                  else fail (ErrWrap ''failed to fetch document: %w'' [] e)))"

definition DeleteDocument :: "'d DocumentRepository \<Rightarrow> string \<Rightarrow> (('d, 'h) world, gerror, unit) op" where
  "DeleteDocument dr documentId =
     (if documentId = [] then fail (ErrNew ''document_id is required'')
      else handle (on_store (dr_DeleteById dr documentId)) ret
             (\<lambda>e. if e = ErrNoRows then fail (ErrFmt ''document_id %s not found'' [FStr documentId])
                  else fail (ErrWrap ''failed to delete document: %w'' [] e)))"

section \<open>Searches\<close>

text \<open>The normalisation of \<open>top_k\<close>, the same in both searches by vector.\<close>

definition normalizeTopK :: "int \<Rightarrow> int result" where
  "normalizeTopK topK =
     (if topK < 0 then Err (ErrNew ''top_k cannot be negative'')
      else
        let topK = (if topK = 0 then defaultTopK else topK) in
        if topK > maxTopK then Err (ErrFmt ''top_k cannot exceed %d'' [FInt maxTopK]) else Ok topK)"

definition SearchDocuments ::
  "'d DocumentRepository \<Rightarrow> 'd CollectionRepository \<Rightarrow> string \<Rightarrow> fp list \<Rightarrow> int \<Rightarrow> metadata \<Rightarrow> fp \<Rightarrow> bool \<Rightarrow>
     (('d, 'h) world, gerror, SearchResult list) op" where
  "SearchDocuments dr cr collectionId queryVector topK metadataFilter minThreshold includeVector =
     (if collectionId = [] then fail (ErrNew ''collection_id is required'')
      else if queryVector = [] then fail (ErrNew ''query_vector cannot be empty'')
      else
        andThen (getCollectionInfo cr collectionId) (\<lambda>(dimn, distanceMetric).
          if int (length queryVector) \<noteq> dimn then fail (dimensionMismatch ''query vector'' dimn queryVector)
          else
            andThen (checkVector ''query vector'' 0 queryVector) (\<lambda>_.
            andThen (lift (normalizeTopK topK)) (\<lambda>topK.
              if minThreshold < f_zero \<or> minThreshold > f_one
              then fail (ErrNew ''min_threshold must be between 0.0 and 1.0'')
              else wrap_error (ErrWrap ''failed to search documents: %w'' [])
                     (on_store (dr_Search dr collectionId queryVector topK (orEmpty metadataFilter)
                                  minThreshold includeVector distanceMetric))))))"

definition FullTextSearchDocuments ::
  "'d DocumentRepository \<Rightarrow> 'd CollectionRepository \<Rightarrow> string \<Rightarrow> string \<Rightarrow> int \<Rightarrow> fp \<Rightarrow> bool \<Rightarrow>
     (('d, 'h) world, gerror, SearchResult list) op" where
  "FullTextSearchDocuments dr cr collectionId query limit minRank includeVector =
     (if collectionId = [] then fail (ErrNew ''collection_id is required'')
      else if query = [] then fail (ErrNew ''query cannot be empty'')
      else
        andThen (getCollectionInfo cr collectionId) (\<lambda>_.
          if limit < 0 then fail (ErrNew ''limit cannot be negative'')
          else
            let limit = (if limit = 0 then defaultLimit else limit) in
            wrap_error (ErrWrap ''failed to search documents: %w'' [])
              (on_store (dr_FullTextSearch dr collectionId query limit minRank includeVector))))"

text \<open>The weights of a hybrid search: checked, then scaled to the sum one.\<close>

definition normalizeWeights :: "fp \<Rightarrow> fp \<Rightarrow> (fp \<times> fp) result" where
  "normalizeWeights vectorWeight textWeight =
     (if vectorWeight < f_zero \<or> vectorWeight > f_one
      then Err (ErrNew ''vector_weight must be between 0.0 and 1.0'')
      else if textWeight < f_zero \<or> textWeight > f_one
      then Err (ErrNew ''text_weight must be between 0.0 and 1.0'')
      else if fp_eq vectorWeight f_zero \<and> fp_eq textWeight f_zero then Ok (f_half, f_half)
      else
        let s = f32_add vectorWeight textWeight in
        if s > f_zero then Ok (f32_div vectorWeight s, f32_div textWeight s)
        else Ok (vectorWeight, textWeight))"

definition HybridSearchDocuments ::
  "'d DocumentRepository \<Rightarrow> 'd CollectionRepository \<Rightarrow> string \<Rightarrow> string \<Rightarrow> fp list \<Rightarrow> int \<Rightarrow> metadata \<Rightarrow>
     fp \<Rightarrow> fp \<Rightarrow> bool \<Rightarrow> (('d, 'h) world, gerror, SearchResult list) op" where
  "HybridSearchDocuments dr cr collectionId queryText queryVector topK metadataFilter vectorWeight textWeight includeVector =
     (if collectionId = [] then fail (ErrNew ''collection_id is required'')
      else if queryVector = [] \<and> queryText = []
      then fail (ErrNew ''at least one of query_vector or query_text is required'')
      else
        andThen (getCollectionInfo cr collectionId) (\<lambda>(dimn, distanceMetric).
          if queryVector \<noteq> [] \<and> int (length queryVector) \<noteq> dimn
          then fail (dimensionMismatch ''query vector'' dimn queryVector)
          else
            andThen (checkVector ''query vector'' 0 queryVector) (\<lambda>_.
            andThen (lift (normalizeTopK topK)) (\<lambda>topK.
            andThen (lift (normalizeWeights vectorWeight textWeight)) (\<lambda>(vectorWeight, textWeight).
              wrap_error (ErrWrap ''failed to perform hybrid search: %w'' [])
                (on_store (dr_HybridSearch dr collectionId queryText queryVector topK (orEmpty metadataFilter)
                             vectorWeight textWeight includeVector distanceMetric)))))))"

section \<open>Batches\<close>

definition BatchInsert ::
  "'d DocumentRepository \<Rightarrow> 'd CollectionRepository \<Rightarrow> string \<Rightarrow> Document list \<Rightarrow>
     (('d, 'h) world, gerror, int \<times> Document list) op" where
  "BatchInsert dr cr collectionId documents =
     (if collectionId = [] then fail (ErrNew ''collection_id cannot be empty'')
      else if documents = [] then fail (ErrNew ''documents cannot be empty, size must be greater than zero'')
      else if int (length documents) > batchSize
      then fail (ErrFmt ''batch size exceeds limit, got:%d, allowed:%d'' [FInt (int (length documents)), FInt batchSize])
      else
        andThen (getCollectionInfo cr collectionId) (\<lambda>(dimn, _).
          case List.find (\<lambda>v. dimn \<noteq> int (length (d_Vector v))) documents of
            Some v \<Rightarrow>
              fail (ErrFmt ''mismatch between vector dimensions of document and collection, expected %d got %d''
                      [FInt dimn, FInt (int (length (d_Vector v)))])
          | None \<Rightarrow> on_store (dr_BatchInsert dr collectionId documents)))"

definition BatchDelete ::
  "'d DocumentRepository \<Rightarrow> 'd CollectionRepository \<Rightarrow> string \<Rightarrow> string list \<Rightarrow>
     (('d, 'h) world, gerror, int \<times> Document list) op" where
  "BatchDelete dr cr collectionId documentIds =
     (if collectionId = [] then fail (ErrNew ''collection_id cannot be empty'')
      else if documentIds = []
      then fail (ErrNew (''document'' @ [CHR 0x27] @ ''s ids cannot be empty, size must be greater than zero''))
      else if int (length documentIds) > batchSize
      then fail (ErrFmt ''batch size exceeds limit, got:%d, allowed:%d'' [FInt (int (length documentIds)), FInt batchSize])
      else
        andThen (getCollectionInfo cr collectionId) (\<lambda>_.
          on_store (dr_BatchDelete dr collectionId documentIds)))"

section \<open>Ingestion\<close>

text \<open>The loop that makes the documents: \<open>embeddings[i]\<close> panics when there are too few.\<close>

fun docsToInsert :: "string \<Rightarrow> metadata \<Rightarrow> string list \<Rightarrow> fp list list \<Rightarrow> nat \<Rightarrow> Document list result" where
  "docsToInsert collectionId metadata [] embeddings i = Ok []"
| "docsToInsert collectionId metadata (chunk # chunks) embeddings i =
     (if i < length embeddings then
        chain (docsToInsert collectionId metadata chunks embeddings (Suc i)) (\<lambda>docs.
          Ok (zero_Document\<lparr>d_CollectionId := collectionId, d_Content := chunk,
                d_Vector := embeddings ! i, d_Metadata := metadata\<rparr> # docs))
      else Panic ''index out of range'')"

definition countChunks :: "string \<Rightarrow> nat \<Rightarrow> (('d, 'h) world, gerror, unit) op" where
  "countChunks strategy n = count (\<lambda>m. m\<lparr>IngestChunks := bump strategy n (IngestChunks m)\<rparr>)"

definition countEmbed :: "string \<Rightarrow> string \<Rightarrow> (('d, 'h) world, gerror, unit) op" where
  "countEmbed provider status =
     count (\<lambda>m. m\<lparr>IngestEmbedDuration := bump provider 1 (IngestEmbedDuration m),
                  IngestEmbedCalls := bump (provider, status) 1 (IngestEmbedCalls m)\<rparr>)"

text \<open>From the chunks to the inserted ids; a chunker that never returns is \<open>Diverge\<close>.\<close>

definition ingestChunks ::
  "'d DocumentRepository \<Rightarrow> 'd CollectionRepository \<Rightarrow> 'h net \<Rightarrow> string \<Rightarrow> metadata \<Rightarrow> string \<Rightarrow> string \<Rightarrow>
     string \<Rightarrow> string list \<Rightarrow> (('d, 'h) world, gerror, int \<times> string list) op" where
  "ingestChunks dr cr net collectionId metadata strategy provider model chunks =
     andThen (countChunks strategy (length chunks)) (\<lambda>_.
     andThen (wrap_error (ErrWrap ''failed to initialize embedding client: %w'' []) (lift (GetClient net provider model))) (\<lambda>client.
     andThen (handle (on_remote (GenerateEmbeddings net client chunks))
                (\<lambda>embeddings. andThen (countEmbed provider ''ok'') (\<lambda>_. ret embeddings))
                (\<lambda>e. andThen (countEmbed provider ''error'') (\<lambda>_.
                       fail (ErrWrap ''failed to generate embeddings: %w'' [] e)))) (\<lambda>embeddings.
     andThen (getCollectionInfo cr collectionId) (\<lambda>(dimn, _).
       if embeddings \<noteq> [] \<and> int (length (embeddings ! 0)) \<noteq> dimn
       then fail (ErrFmt ''generated embedding dimension %d does not match collection expectation %d''
                    [FInt (int (length (embeddings ! 0))), FInt dimn])
       else
         andThen (lift (docsToInsert collectionId metadata chunks embeddings 0)) (\<lambda>docs.
         andThen (wrap_error (ErrWrap ''failed to batch insert chunks: %w'' []) (BatchInsert dr cr collectionId docs))
           (\<lambda>(n, insertedDocs). ret (n, map d_Id insertedDocs)))))))"

definition IngestDocument ::
  "'d DocumentRepository \<Rightarrow> 'd CollectionRepository \<Rightarrow> 'h net \<Rightarrow> string \<Rightarrow> string \<Rightarrow> metadata \<Rightarrow> ChunkingConfig \<Rightarrow>
     (('d, 'h) world, gerror, int \<times> string list) op" where
  "IngestDocument dr cr net collectionId content metadata config =
     (if collectionId = [] then fail (ErrNew ''collection_id is required'')
      else if content = [] then fail (ErrNew ''content is required'')
      else
        let metadata = orEmpty metadata in
        andThen (getCollectionEmbeddingInfo cr collectionId) (\<lambda>(provider, model).
          if provider = []
          then fail (ErrNew ''collection is not configured for automatic embedding generation (no embedding_provider set)'')
          else
            case Chunk (GetChunker (Strategy config)) content (ChunkSize config) (ChunkOverlap config) of
              None \<Rightarrow> diverge
            | Some chunks \<Rightarrow>
                (if chunks = [] then ret (0, [])
                 else ingestChunks dr cr net collectionId metadata (Strategy config) provider model chunks)))"

end
