(* ===== verification/Service_Facts.thy ===== *)
theory Service_Facts
  imports Document_Service Document_Batch
begin

text \<open>
  Facts about the document service that its properties share: what a lookup of a collection
  does on a hit and on a miss, when each operation succeeds and with which call of the
  repository, and the steps of the ingestion.
\<close>

section \<open>Lookups\<close>

definition counted :: "string \<Rightarrow> ('d, 'h) world \<Rightarrow> ('d, 'h) world" where
  "counted l w = w\<lparr>meters := (meters w)\<lparr>CacheOps := bump l 1 (CacheOps (meters w))\<rparr>\<rparr>"

lemma counted_frame [simp]: "cache (counted l w) = cache w" "store (counted l w) = store w"
  "remote (counted l w) = remote w"
  by (simp_all add: counted_def)

lemma getCollectionInfo_hit:
  "cache w cid = Some info \<Longrightarrow>
     getCollectionInfo cr cid w = (Ok (ci_dimension info, ci_distanceMetric info), counted ''hit'' w)"
  by (simp add: getCollectionInfo_def op_simps counted_def)

definition remember :: "string \<Rightarrow> Collection \<Rightarrow> ('d, 'h) world \<Rightarrow> ('d, 'h) world" where
  "remember cid c w =
     w\<lparr>cache := cache_Insert cid (to_int32 (c_VectorDimension c)) (c_DistanceMetric c)
         (c_EmbeddingProvider c) (c_EmbeddingModel c) (cache w)\<rparr>"

lemma remember_frame [simp]: "store (remember cid c w) = store w" "remote (remember cid c w) = remote w"
  by (simp_all add: remember_def)

lemma fetchCollection_Ok:
  "fetchCollection cr cid w = (Ok c, w') \<longleftrightarrow>
     (\<exists>d. cr_ListById cr cid (store w) = (Ok c, d) \<and> w' = remember cid c (w\<lparr>store := d\<rparr>))"
  by (auto simp: fetchCollection_def handle_def andThen_def on_store_def update_def ret_def fail_def
      remember_def split: prod.splits outcome.splits)

lemma getCollectionInfo_miss:
  assumes "cache w cid = None"
  shows "getCollectionInfo cr cid w = (Ok r, w') \<longleftrightarrow>
     (\<exists>c d. cr_ListById cr cid (store w) = (Ok c, d) \<and> r = (c_VectorDimension c, c_DistanceMetric c) \<and>
            w' = remember cid c (counted ''miss'' w\<lparr>store := d\<rparr>))"
proof -
  have "getCollectionInfo cr cid w =
      andThen (fetchCollection cr cid) (\<lambda>c. ret (c_VectorDimension c, c_DistanceMetric c)) (counted ''miss'' w)"
    using assms by (simp add: getCollectionInfo_def op_simps counted_def)
  then show ?thesis
    by (auto simp: fetchCollection_Ok ret_def andThen_run elim!: andThen_OkE)
qed

lemma getCollectionEmbeddingInfo_hit:
  "cache w cid = Some info \<Longrightarrow>
     getCollectionEmbeddingInfo cr cid w =
       (Ok (ci_embeddingProvider info, ci_embeddingModel info), counted ''hit'' w)"
  by (simp add: getCollectionEmbeddingInfo_def op_simps counted_def)

lemma getCollectionEmbeddingInfo_miss:
  assumes "cache w cid = None"
  shows "getCollectionEmbeddingInfo cr cid w = (Ok r, w') \<longleftrightarrow>
     (\<exists>c d. cr_ListById cr cid (store w) = (Ok c, d) \<and> r = (c_EmbeddingProvider c, c_EmbeddingModel c) \<and>
            w' = remember cid c (counted ''miss'' w\<lparr>store := d\<rparr>))"
proof -
  have "getCollectionEmbeddingInfo cr cid w =
      andThen (fetchCollection cr cid) (\<lambda>c. ret (c_EmbeddingProvider c, c_EmbeddingModel c)) (counted ''miss'' w)"
    using assms by (simp add: getCollectionEmbeddingInfo_def op_simps counted_def)
  then show ?thesis
    by (auto simp: fetchCollection_Ok ret_def andThen_run elim!: andThen_OkE)
qed

lemma not_found_text:
  assumes "cache w cid = None" and "cr_ListById cr cid (store w) = (Err ErrNoRows, d)"
  shows "fst (getCollectionInfo cr cid w) = Err (ErrFmt ''collection_id %s not found'' [FStr cid])"
  using assms
  by (simp add: getCollectionInfo_def fetchCollection_def op_simps handle_def)

lemma safe_fetch: "safe_op (cr_ListById cr cid) \<Longrightarrow> safe_op (fetchCollection cr cid)"
  unfolding fetchCollection_def by (intro safe_handle safe_on_store) (auto intro!: safe_andThen)

lemma safe_GetInfo: "safe_op (GetInfo cid)"
  by (simp add: safe_op_def GetInfo_run)

lemma safe_getInfo: "safe_op (cr_ListById cr cid) \<Longrightarrow> safe_op (getCollectionInfo cr cid)"
  unfolding getCollectionInfo_def by (intro safe_andThen safe_GetInfo) (auto intro!: safe_andThen safe_fetch)

lemma safe_getEmbeddingInfo: "safe_op (cr_ListById cr cid) \<Longrightarrow> safe_op (getCollectionEmbeddingInfo cr cid)"
  unfolding getCollectionEmbeddingInfo_def
  by (intro safe_andThen safe_GetInfo) (auto intro!: safe_andThen safe_fetch)

section \<open>Checks\<close>

definition finite_fp :: "fp \<Rightarrow> bool" where
  "finite_fp x = (\<not> IsNaN x \<and> \<not> IsInf x)"

lemma checkVector_Ok: "checkVector what i xs w = (Ok u, w') \<longleftrightarrow> list_all finite_fp xs \<and> w' = w"
  by (induction xs arbitrary: i) (auto simp: finite_fp_def ret_def fail_def)

lemma safe_checkVector: "safe_op (checkVector what i xs)"
  by (induction xs arbitrary: i) auto

lemma safe_topK: "returns (normalizeTopK topK)"
  by (simp add: normalizeTopK_def Let_def)

lemma normalizeTopK_Ok:
  "normalizeTopK topK = Ok k \<longleftrightarrow> 0 \<le> topK \<and> topK \<le> 1000 \<and> k = (if topK = 0 then 10 else topK)"
  by (auto simp: normalizeTopK_def defaultTopK_def maxTopK_def Let_def)

lemma safe_weights: "returns (normalizeWeights v t)"
  by (simp add: normalizeWeights_def Let_def)

section \<open>When an operation succeeds\<close>

lemma wrapped_store_Ok:
  "wrap_error g (on_store m) w = (Ok x, w') \<longleftrightarrow> (\<exists>d. m (store w) = (Ok x, d) \<and> w' = w\<lparr>store := d\<rparr>)"
  by (auto simp: wrap_error_Ok on_store_def split: prod.splits)

lemma on_store_Ok:
  "on_store m w = (Ok x, w') \<longleftrightarrow> (\<exists>d. m (store w) = (Ok x, d) \<and> w' = w\<lparr>store := d\<rparr>)"
  by (auto simp: on_store_def split: prod.splits)

lemma andThen_Ok:
  "andThen m f w = (Ok y, w') \<longleftrightarrow> (\<exists>x w1. m w = (Ok x, w1) \<and> f x w1 = (Ok y, w'))"
  by (auto simp: andThen_run elim: andThen_OkE)

lemma fail_Ok [simp]: "fail e w \<noteq> (Ok x, w')" and ret_Ok [simp]: "ret x w = (Ok y, w') \<longleftrightarrow> x = y \<and> w = w'"
  and lift_Ok [simp]: "lift r w = (Ok y, w') \<longleftrightarrow> r = Ok y \<and> w = w'"
  by (auto simp: fail_def ret_def lift_def)

lemmas succeeds = andThen_Ok wrapped_store_Ok on_store_Ok checkVector_Ok normalizeTopK_Ok

lemma CreateDocument_Ok:
  "CreateDocument dr cr cid content vec md w = (Ok doc, w') \<longleftrightarrow>
     cid \<noteq> [] \<and> vec \<noteq> [] \<and> list_all finite_fp vec \<and>
     (\<exists>metric w1 d. getCollectionInfo cr cid w = (Ok (int (length vec), metric), w1) \<and>
        dr_Create dr cid content vec (orEmpty md) (store w1) = (Ok doc, d) \<and> w' = w1\<lparr>store := d\<rparr>)"
  by (auto simp: CreateDocument_def succeeds split: if_splits)

lemma UpsertDocument_Ok:
  "UpsertDocument dr cr did cid content vec md w = (Ok r, w') \<longleftrightarrow>
     did \<noteq> [] \<and> cid \<noteq> [] \<and> vec \<noteq> [] \<and> list_all finite_fp vec \<and>
     (\<exists>metric w1 d. getCollectionInfo cr cid w = (Ok (int (length vec), metric), w1) \<and>
        dr_Upsert dr did cid content vec (orEmpty md) (store w1) = (Ok r, d) \<and> w' = w1\<lparr>store := d\<rparr>)"
  by (auto simp: UpsertDocument_def succeeds split: if_splits)

lemma ListDocuments_Ok:
  "ListDocuments dr cr cid limit offset iv w = (Ok docs, w') \<longleftrightarrow>
     cid \<noteq> [] \<and> 0 \<le> limit \<and> limit \<le> 1000 \<and> 0 \<le> offset \<and>
     (\<exists>r w1 d. getCollectionInfo cr cid w = (Ok r, w1) \<and>
        dr_List dr cid (if limit = 0 then 50 else limit) offset iv (store w1) = (Ok docs, d) \<and>
        w' = w1\<lparr>store := d\<rparr>)"
  by (auto simp: ListDocuments_def succeeds Let_def defaultLimit_def maxLimit_def split: if_splits)

lemma SearchDocuments_Ok:
  "SearchDocuments dr cr cid q topK f th iv w = (Ok rs, w') \<longleftrightarrow>
     cid \<noteq> [] \<and> q \<noteq> [] \<and> list_all finite_fp q \<and> 0 \<le> topK \<and> topK \<le> 1000 \<and>
     \<not> th < f_zero \<and> \<not> th > f_one \<and>
     (\<exists>metric w1 d. getCollectionInfo cr cid w = (Ok (int (length q), metric), w1) \<and>
        dr_Search dr cid q (if topK = 0 then 10 else topK) (orEmpty f) th iv metric (store w1) = (Ok rs, d) \<and>
        w' = w1\<lparr>store := d\<rparr>)"
  by (auto simp: SearchDocuments_def succeeds split: if_splits)

lemma HybridSearch_Ok:
  "HybridSearchDocuments dr cr cid qt q topK f vw tw iv w = (Ok rs, w') \<longleftrightarrow>
     cid \<noteq> [] \<and> (q \<noteq> [] \<or> qt \<noteq> []) \<and> list_all finite_fp q \<and> 0 \<le> topK \<and> topK \<le> 1000 \<and>
     (\<exists>dimn metric w1 d vw' tw'. getCollectionInfo cr cid w = (Ok (dimn, metric), w1) \<and>
        (q \<noteq> [] \<longrightarrow> dimn = int (length q)) \<and> normalizeWeights vw tw = Ok (vw', tw') \<and>
        dr_HybridSearch dr cid qt q (if topK = 0 then 10 else topK) (orEmpty f) vw' tw' iv metric (store w1) = (Ok rs, d) \<and>
        w' = w1\<lparr>store := d\<rparr>)"
  by (auto simp: HybridSearchDocuments_def succeeds split: if_splits) blast+

lemma BatchInsert_Ok:
  "BatchInsert dr cr cid docs w = (Ok r, w') \<longleftrightarrow>
     cid \<noteq> [] \<and> docs \<noteq> [] \<and> length docs \<le> 1000 \<and>
     (\<exists>dimn metric w1 d. getCollectionInfo cr cid w = (Ok (dimn, metric), w1) \<and>
        (\<forall>v\<in>set docs. int (length (d_Vector v)) = dimn) \<and>
        dr_BatchInsert dr cid docs (store w1) = (Ok r, d) \<and> w' = w1\<lparr>store := d\<rparr>)"
  by (auto simp: BatchInsert_def succeeds batchSize_def find_None_iff split: if_splits option.splits)

lemma safe_BatchInsert:
  assumes "safe_op (cr_ListById cr cid)" and "\<And>ds. safe_op (dr_BatchInsert dr cid ds)"
  shows "safe_op (BatchInsert dr cr cid docs)"
  unfolding BatchInsert_def
  using assms by (auto intro!: safe_andThen safe_getInfo safe_on_store split: option.splits)

section \<open>Ingestion\<close>

definition ingestDoc :: "string \<Rightarrow> metadata \<Rightarrow> string \<times> fp list \<Rightarrow> Document" where
  "ingestDoc cid md p =
     zero_Document\<lparr>d_CollectionId := cid, d_Content := fst p, d_Vector := snd p, d_Metadata := md\<rparr>"

lemma docsToInsert_Ok:
  "i + length chunks \<le> length embs \<Longrightarrow>
     docsToInsert cid md chunks embs i = Ok (map (ingestDoc cid md) (zip chunks (drop i embs)))"
proof (induction chunks arbitrary: i)
  case (Cons c chunks)
  then have "drop i embs = embs ! i # drop (Suc i) embs" by (simp add: Cons_nth_drop_Suc)
  with Cons show ?case by (simp add: ingestDoc_def)
qed simp

lemma docsToInsert_all:
  "length embs = length chunks \<Longrightarrow>
     docsToInsert cid md chunks embs 0 = Ok (map (ingestDoc cid md) (zip chunks embs))"
  using docsToInsert_Ok [of 0 chunks embs] by simp

lemma safe_andThen_Ok:
  assumes "safe_op m" and "\<And>w x w'. m w = (Ok x, w') \<Longrightarrow> returns (fst (f x w'))"
  shows "safe_op (andThen m f)"
proof
  fix w
  obtain r w' where m: "m w = (r, w')" by fastforce
  have "returns r" using safe_opD [OF assms(1), of w] m by simp
  then show "returns (fst (andThen m f w))" using m assms(2) by (cases r) (simp_all add: andThen_run)
qed

text \<open>The step that embeds the chunks: on success there is one vector for each chunk.\<close>

definition embedStep ::
  "'h net \<Rightarrow> string \<Rightarrow> embedding_client \<Rightarrow> string list \<Rightarrow> (('d, 'h) world, gerror, fp list list) op" where
  "embedStep net provider client chunks =
     handle (on_remote (GenerateEmbeddings net client chunks))
       (\<lambda>embeddings. andThen (countEmbed provider ''ok'') (\<lambda>_. ret embeddings))
       (\<lambda>e. andThen (countEmbed provider ''error'') (\<lambda>_.
              fail (ErrWrap ''failed to generate embeddings: %w'' [] e)))"

lemma embedStep_Ok:
  assumes "embedStep net provider client chunks w = (Ok embs, w')"
  shows "length embs = length chunks"
proof -
  from assms obtain h where "GenerateEmbeddings net client chunks (remote w) = (Ok embs, h)"
    by (auto simp: embedStep_def handle_def on_remote_def andThen_Ok countEmbed_def count_def
        split: prod.splits outcome.splits)
  then show ?thesis by (rule embed.one_for_each)
qed

lemma safe_countEmbed: "safe_op (countEmbed provider s)" and safe_countChunks: "safe_op (countChunks s n)"
  by (simp_all add: countEmbed_def countChunks_def count_def)

lemma safe_embedStep: "safe_op (embedStep net provider client chunks)"
  unfolding embedStep_def
  by (intro safe_handle safe_on_remote embed.client_returns safe_andThen safe_countEmbed) simp_all

lemma returns_GetClient: "returns (GetClient net provider model)"
  by (simp add: GetClient_def NewOpenAIEmbeddingClient_def NewOllamaEmbeddingClient_def
      NewCohereEmbeddingClient_def Let_def)

lemma ingestChunks_eq:
  "ingestChunks dr cr net cid md strategy provider model chunks =
     andThen (countChunks strategy (length chunks)) (\<lambda>_.
     andThen (wrap_error (ErrWrap ''failed to initialize embedding client: %w'' []) (lift (GetClient net provider model))) (\<lambda>client.
     andThen (embedStep net provider client chunks) (\<lambda>embeddings.
     andThen (getCollectionInfo cr cid) (\<lambda>(dimn, _).
       if embeddings \<noteq> [] \<and> int (length (embeddings ! 0)) \<noteq> dimn
       then fail (ErrFmt ''generated embedding dimension %d does not match collection expectation %d''
                    [FInt (int (length (embeddings ! 0))), FInt dimn])
       else
         andThen (lift (docsToInsert cid md chunks embeddings 0)) (\<lambda>docs.
         andThen (wrap_error (ErrWrap ''failed to batch insert chunks: %w'' []) (BatchInsert dr cr cid docs))
           (\<lambda>(n, insertedDocs). ret (n, map d_Id insertedDocs)))))))"
  by (simp add: ingestChunks_def embedStep_def)

lemma safe_ingestChunks:
  fixes cr :: "'d CollectionRepository" and net :: "'h net"
  assumes cr: "safe_op (cr_ListById cr cid)" and dr: "\<And>ds. safe_op (dr_BatchInsert dr cid ds)"
  shows "safe_op (ingestChunks dr cr net cid md strategy provider model chunks)"
  unfolding ingestChunks_eq
proof (rule safe_andThen [OF safe_countChunks], rule safe_andThen [OF safe_wrap])
  show "safe_op (lift (GetClient net provider model))" by (simp add: returns_GetClient)
  fix client
  show "safe_op (andThen (embedStep net provider client chunks) (\<lambda>embeddings.
     andThen (getCollectionInfo cr cid) (\<lambda>(dimn, _).
       if embeddings \<noteq> [] \<and> int (length (embeddings ! 0)) \<noteq> dimn
       then fail (ErrFmt ''generated embedding dimension %d does not match collection expectation %d''
                    [FInt (int (length (embeddings ! 0))), FInt dimn])
       else
         andThen (lift (docsToInsert cid md chunks embeddings 0)) (\<lambda>docs.
         andThen (wrap_error (ErrWrap ''failed to batch insert chunks: %w'' []) (BatchInsert dr cr cid docs))
           (\<lambda>(n, insertedDocs). ret (n, map d_Id insertedDocs))))))"
  proof (rule safe_andThen_Ok [OF safe_embedStep], rule safe_opD)
    fix w w' :: "('d, 'h) world" and embs
    assume "embedStep net provider client chunks w = (Ok embs, w')"
    then have "length embs = length chunks" by (rule embedStep_Ok)
    then have "returns (docsToInsert cid md chunks embs 0)" by (simp add: docsToInsert_all)
    then show "safe_op (andThen (getCollectionInfo cr cid) (\<lambda>(dimn, _).
       if embs \<noteq> [] \<and> int (length (embs ! 0)) \<noteq> dimn
       then fail (ErrFmt ''generated embedding dimension %d does not match collection expectation %d''
                    [FInt (int (length (embs ! 0))), FInt dimn])
       else
         andThen (lift (docsToInsert cid md chunks embs 0)) (\<lambda>docs.
         andThen (wrap_error (ErrWrap ''failed to batch insert chunks: %w'' []) (BatchInsert dr cr cid docs))
           (\<lambda>(n, insertedDocs). ret (n, map d_Id insertedDocs)))))"
      using cr dr
      by (auto intro!: safe_andThen safe_getInfo safe_wrap safe_BatchInsert split: prod.splits)
  qed
qed

lemma ingestChunks_Ok:
  assumes "ingestChunks dr cr net cid md strategy provider model chunks w = (Ok (n, ids), w')"
  shows "\<exists>embs ins w1 w2. length embs = length chunks \<and>
     BatchInsert dr cr cid (map (ingestDoc cid md) (zip chunks embs)) w1 = (Ok (n, ins), w2) \<and>
     ids = map d_Id ins \<and> w' = w2"
  using assms
  by (auto simp: ingestChunks_eq andThen_Ok wrap_error_Ok docsToInsert_all [OF embedStep_Ok] split: if_splits prod.splits)
     (fastforce dest: embedStep_Ok)+

end
