(* ===== verification/Collection_Service.thy ===== *)
theory Collection_Service
  imports Repositories
begin

text \<open>
  \<open>internal/services/collection_service.go\<close> and \<open>health_service.go\<close>. The collection service
  has a repository and nothing else, in particular no cache: it runs on the state of the
  repository.
\<close>

definition CreateCollection ::
  "'d CollectionRepository \<Rightarrow> string \<Rightarrow> int \<Rightarrow> metadata \<Rightarrow> string \<Rightarrow> string \<Rightarrow> string \<Rightarrow> ('d, gerror, Collection) op" where
  "CreateCollection cr name vectorDimension metadataSchema distanceMetric embeddingProvider embeddingModel =
     (if name = [] then fail (ErrNew ''name is required'')
      else if vectorDimension \<le> 0 then fail (ErrNew ''vector dimension must be greater than 0'')
      else
        let metadataSchema = (case metadataSchema of None \<Rightarrow> Some [] | Some kvs \<Rightarrow> Some kvs);
            distanceMetric = (if distanceMetric = [] then ''cosine'' else distanceMetric)
        in
          if distanceMetric \<notin> {''cosine'', ''euclidean'', ''inner_product''}
          then fail (ErrFmt ''invalid distance_metric %q: must be cosine, euclidean, or inner_product'' [FStr distanceMetric])
          else if embeddingProvider \<noteq> [] \<and> embeddingProvider \<notin> {''openai'', ''ollama'', ''cohere''}
          then fail (ErrFmt ''unsupported embedding provider %q'' [FStr embeddingProvider])
          else if embeddingProvider \<noteq> [] \<and> embeddingModel = []
          then fail (ErrNew ''embedding_model is required when embedding_provider is set'')
          else if embeddingProvider = [] \<and> embeddingModel \<noteq> []
          then fail (ErrNew ''embedding_provider is required when embedding_model is set'')
          else
            handle (cr_Create cr name vectorDimension metadataSchema distanceMetric embeddingProvider embeddingModel)
              ret
              (\<lambda>e. if strings_Contains (error_text e) ''duplicate key'' \<or> strings_Contains (error_text e) ''unique constraint''
                   then fail (ErrNew ''collection already exists'')
                   else fail e))"

definition DefaultLimit :: int where "DefaultLimit = 20"
definition MaxLimit :: int where "MaxLimit = 100"

definition ListCollections :: "'d CollectionRepository \<Rightarrow> int \<Rightarrow> int \<Rightarrow> ('d, gerror, Collection list) op" where
  "ListCollections cr limit offset =
     (let limit = (if limit \<le> 0 then DefaultLimit else limit);
          limit = (if limit > MaxLimit then MaxLimit else limit);
          offset = (if offset < 0 then 0 else offset)
      in cr_List cr limit offset)"

definition ListCollection :: "'d CollectionRepository \<Rightarrow> string \<Rightarrow> ('d, gerror, Collection) op" where
  "ListCollection cr collectionId =
     (if collectionId = [] then fail (ErrNew ''collectionId cannot be empty'')
      else cr_ListById cr collectionId)"

definition DeleteCollection :: "'d CollectionRepository \<Rightarrow> string \<Rightarrow> ('d, gerror, int) op" where
  "DeleteCollection cr collectionId =
     (if collectionId = [] then fail (ErrNew ''collectionId cannot be empty'')
      else cr_DeleteById cr collectionId)"

section \<open>Health\<close>

definition CheckLiveness :: "('d pool, gerror, bool) op" where
  "CheckLiveness = ret True"

text \<open>The pool may be missing (a nil pointer).\<close>

definition CheckReadiness :: "'d driver option \<Rightarrow> ('d pool, gerror, bool) op" where
  "CheckReadiness db =
     (case db of
        None \<Rightarrow> ret False
      | Some drv \<Rightarrow> andThen (on_server (drv_Ping drv)) (\<lambda>_. ret True))"

section \<open>Properties\<close>

lemma listCollections_clamped:
  "\<exists>l off. ListCollections cr limit offset = cr_List cr l off \<and> 1 \<le> l \<and> l \<le> 100 \<and> 0 \<le> off \<and>
     (1 \<le> limit \<longrightarrow> limit \<le> 100 \<longrightarrow> l = limit) \<and> (0 \<le> offset \<longrightarrow> off = offset)"
  by (intro exI [of _ "if limit \<le> 0 then 20 else if limit > 100 then 100 else limit"]
      exI [of _ "if offset < 0 then 0 else offset"])
     (auto simp: ListCollections_def DefaultLimit_def MaxLimit_def Let_def)

end
