(* ===== verification/Handlers.thy ===== *)
theory Handlers
  imports Document_Service Collection_Service
begin

text \<open>
  The gRPC handlers of \<open>internal/grpc\<close>: they take a request message apart, call the service
  and build the response message. The messages are records with the fields that the
  generated code gives them. The library type \<open>structpb.Struct\<close> is a parameter type \<open>'s\<close> with
  its two conversions; a timestamp is an instant, and \<open>now\<close> is the clock's.
\<close>

section \<open>Messages\<close>

record 's structs =
  AsMap :: "'s \<Rightarrow> (string \<times> jval) list"
  NewStruct :: "(string \<times> jval) list \<Rightarrow> 's option"

type_synonym 's struct_map = "(string \<times> 's) list"

record 's pb_Collection =
  pc_Id :: string
  pc_CreatedAt :: int
  pc_UpdatedAt :: int
  pc_Name :: string
  pc_VectorDimension :: int
  pc_MetadataSchema :: "'s struct_map"
  pc_DocumentCount :: int
  pc_DistanceMetric :: string
  pc_EmbeddingProvider :: string
  pc_EmbeddingModel :: string

record 's pb_Document =
  pd_Id :: string
  pd_CreatedAt :: int
  pd_UpdatedAt :: int
  pd_CollectionId :: string
  pd_Content :: string
  pd_Vector :: "fp list"
  pd_Metadata :: "'s struct_map"

record 's CreateCollectionRequest =
  cc_Name :: string
  cc_VectorDimension :: int
  cc_MetadataSchema :: "'s struct_map option"
  cc_DistanceMetric :: string
  cc_EmbeddingProvider :: string
  cc_EmbeddingModel :: string

record 's CreateDocumentRequest =
  cd_CollectionId :: string
  cd_Content :: string
  cd_Vector :: "fp list"
  cd_Metadata :: "'s struct_map option"

record ChunkingConfigMessage =
  cm_Strategy :: string
  cm_ChunkSize :: int
  cm_ChunkOverlap :: int

record 's IngestDocumentRequest =
  id_CollectionId :: string
  id_Content :: string
  id_Metadata :: "'s struct_map option"
  id_ChunkingConfig :: "ChunkingConfigMessage option"

record 's UpsertDocumentRequest =
  ud_Id :: string
  ud_CollectionId :: string
  ud_Content :: string
  ud_Vector :: "fp list"
  ud_Metadata :: "'s struct_map option"

record 's SearchDocumentRequest =
  sd_CollectionId :: string
  sd_QueryVector :: "fp list"
  sd_TopK :: int
  sd_MetadataFilter :: "'s struct_map option"
  sd_IncludeVector :: bool
  sd_MinThreshold :: fp

record FullTextSearchRequest =
  ft_CollectionId :: string
  ft_Query :: string
  ft_Limit :: int
  ft_MinRank :: fp
  ft_IncludeVector :: bool

record 's HybridSearchRequest =
  hs_CollectionId :: string
  hs_QueryVector :: "fp list"
  hs_QueryText :: string
  hs_TopK :: int
  hs_VectorWeight :: fp
  hs_TextWeight :: fp
  hs_IncludeVector :: bool
  hs_Metadata :: "'s struct_map option"

section \<open>Conversions\<close>

text \<open>\<open>map[string]*Struct\<close> to \<open>map[string]any\<close>, where nil stays nil, and where an empty map
  becomes nil.\<close>

definition toMetadata :: "'s structs \<Rightarrow> 's struct_map option \<Rightarrow> metadata" where
  "toMetadata st m = map_option (map (\<lambda>(key, value). (key, JObj (AsMap st value)))) m"

definition toFilter :: "'s structs \<Rightarrow> 's struct_map option \<Rightarrow> metadata" where
  "toFilter st m =
     (case m of
        None \<Rightarrow> None
      | Some kvs \<Rightarrow> if kvs = [] then None else Some (map (\<lambda>(key, value). (key, JObj (AsMap st value))) kvs))"

text \<open>Back to messages: values that are no maps, and maps that are no structs, are skipped.\<close>

fun toProtoMetadata :: "'s structs \<Rightarrow> (string \<times> jval) list \<Rightarrow> 's struct_map" where
  "toProtoMetadata st [] = []"
| "toProtoMetadata st ((key, value) # rest) =
     (case value of
        JObj valueMap \<Rightarrow>
          (case NewStruct st valueMap of
             Some structValue \<Rightarrow> (key, structValue) # toProtoMetadata st rest
           | None \<Rightarrow> toProtoMetadata st rest)
      | _ \<Rightarrow> toProtoMetadata st rest)"

definition convertToProtoCollection :: "'s structs \<Rightarrow> Collection \<Rightarrow> 's pb_Collection" where
  "convertToProtoCollection st c =
     \<lparr>pc_Id = c_Id c, pc_CreatedAt = c_CreatedAt c, pc_UpdatedAt = c_UpdatedAt c, pc_Name = c_Name c,
      pc_VectorDimension = to_int32 (c_VectorDimension c),
      pc_MetadataSchema = toProtoMetadata st (filter_entries (c_MetadataSchema c)),
      pc_DocumentCount = c_DocumentCount c, pc_DistanceMetric = c_DistanceMetric c,
      pc_EmbeddingProvider = c_EmbeddingProvider c, pc_EmbeddingModel = c_EmbeddingModel c\<rparr>"

definition convertToProtoDocument :: "'s structs \<Rightarrow> Document \<Rightarrow> 's pb_Document" where
  "convertToProtoDocument st d =
     \<lparr>pd_Id = d_Id d, pd_CreatedAt = d_CreatedAt d, pd_UpdatedAt = d_UpdatedAt d,
      pd_CollectionId = d_CollectionId d, pd_Content = d_Content d, pd_Vector = d_Vector d,
      pd_Metadata = toProtoMetadata st (filter_entries (d_Metadata d))\<rparr>"

definition convertResults :: "'s structs \<Rightarrow> SearchResult list \<Rightarrow> ('s pb_Document \<times> fp) list" where
  "convertResults st rs = map (\<lambda>r. (convertToProtoDocument st (r_Document r), r_Score r)) rs"

section \<open>Collections\<close>

definition Handler_CreateCollection ::
  "'s structs \<Rightarrow> 'd CollectionRepository \<Rightarrow> 's CreateCollectionRequest \<Rightarrow> ('d, gerror, 's pb_Collection) op" where
  "Handler_CreateCollection st cr req =
     andThen (CreateCollection cr (cc_Name req) (cc_VectorDimension req) (toMetadata st (cc_MetadataSchema req))
                (cc_DistanceMetric req) (cc_EmbeddingProvider req) (cc_EmbeddingModel req))
       (\<lambda>c. ret (convertToProtoCollection st c))"

definition Handler_ListCollections ::
  "'s structs \<Rightarrow> 'd CollectionRepository \<Rightarrow> int \<Rightarrow> int \<Rightarrow> ('d, gerror, 's pb_Collection list) op" where
  "Handler_ListCollections st cr limit offset =
     andThen (ListCollections cr limit offset) (\<lambda>cs. ret (map (convertToProtoCollection st) cs))"

definition Handler_ListCollection ::
  "'s structs \<Rightarrow> 'd CollectionRepository \<Rightarrow> string \<Rightarrow> ('d, gerror, 's pb_Collection) op" where
  "Handler_ListCollection st cr collectionId =
     andThen (ListCollection cr collectionId) (\<lambda>c. ret (convertToProtoCollection st c))"

definition Handler_DeleteCollection ::
  "'d CollectionRepository \<Rightarrow> int \<Rightarrow> string \<Rightarrow> ('d, gerror, string \<times> int \<times> int) op" where
  "Handler_DeleteCollection cr now collectionId =
     andThen (DeleteCollection cr collectionId) (\<lambda>n. ret (collectionId, now, n))"

section \<open>Documents\<close>

text \<open>The responses of create (id and two times) and upsert (with the flag) are tuples.\<close>

definition Handler_CreateDocument ::
  "'s structs \<Rightarrow> 'd DocumentRepository \<Rightarrow> 'd CollectionRepository \<Rightarrow> 's CreateDocumentRequest \<Rightarrow>
     (('d, 'h) world, gerror, string \<times> int \<times> int) op" where
  "Handler_CreateDocument st dr cr req =
     andThen (CreateDocument dr cr (cd_CollectionId req) (cd_Content req) (cd_Vector req) (toMetadata st (cd_Metadata req)))
       (\<lambda>d. ret (d_Id d, d_CreatedAt d, d_UpdatedAt d))"

definition zero_Config :: ChunkingConfig where
  "zero_Config = \<lparr>Strategy = [], ChunkSize = 0, ChunkOverlap = 0\<rparr>"

definition Handler_IngestDocument ::
  "'s structs \<Rightarrow> 'd DocumentRepository \<Rightarrow> 'd CollectionRepository \<Rightarrow> 'h net \<Rightarrow> 's IngestDocumentRequest \<Rightarrow>
     (('d, 'h) world, gerror, int \<times> string list) op" where
  "Handler_IngestDocument st dr cr net req =
     (let config = (case id_ChunkingConfig req of
            None \<Rightarrow> zero_Config
          | Some c \<Rightarrow> \<lparr>Strategy = cm_Strategy c, ChunkSize = cm_ChunkSize c, ChunkOverlap = cm_ChunkOverlap c\<rparr>)
      in andThen (IngestDocument dr cr net (id_CollectionId req) (id_Content req) (toMetadata st (id_Metadata req)) config)
           (\<lambda>(n, ids). ret (to_int32 n, ids)))"

definition Handler_UpsertDocument ::
  "'s structs \<Rightarrow> 'd DocumentRepository \<Rightarrow> 'd CollectionRepository \<Rightarrow> 's UpsertDocumentRequest \<Rightarrow>
     (('d, 'h) world, gerror, string \<times> bool \<times> int \<times> int) op" where
  "Handler_UpsertDocument st dr cr req =
     andThen (UpsertDocument dr cr (ud_Id req) (ud_CollectionId req) (ud_Content req) (ud_Vector req)
                (toMetadata st (ud_Metadata req)))
       (\<lambda>r. ret (d_Id (u_Document r), u_IsNew r, d_CreatedAt (u_Document r), d_UpdatedAt (u_Document r)))"

definition Handler_ListDocuments ::
  "'s structs \<Rightarrow> 'd DocumentRepository \<Rightarrow> 'd CollectionRepository \<Rightarrow> string \<Rightarrow> int \<Rightarrow> int \<Rightarrow> bool \<Rightarrow>
     (('d, 'h) world, gerror, 's pb_Document list) op" where
  "Handler_ListDocuments st dr cr collectionId limit offset includeVector =
     andThen (ListDocuments dr cr collectionId limit offset includeVector)
       (\<lambda>ds. ret (map (convertToProtoDocument st) ds))"

definition Handler_ListDocument ::
  "'s structs \<Rightarrow> 'd DocumentRepository \<Rightarrow> string \<Rightarrow> (('d, 'h) world, gerror, 's pb_Document) op" where
  "Handler_ListDocument st dr documentId =
     andThen (GetDocument dr documentId) (\<lambda>d. ret (convertToProtoDocument st d))"

definition Handler_DeleteDocument ::
  "'d DocumentRepository \<Rightarrow> int \<Rightarrow> string \<Rightarrow> (('d, 'h) world, gerror, string \<times> int) op" where
  "Handler_DeleteDocument dr now documentId =
     andThen (DeleteDocument dr documentId) (\<lambda>_. ret (documentId, now))"

definition Handler_SearchDocuments ::
  "'s structs \<Rightarrow> 'd DocumentRepository \<Rightarrow> 'd CollectionRepository \<Rightarrow> 's SearchDocumentRequest \<Rightarrow>
     (('d, 'h) world, gerror, ('s pb_Document \<times> fp) list) op" where
  "Handler_SearchDocuments st dr cr req =
     (let topK = (if sd_TopK req = 0 then 10 else sd_TopK req) in
      andThen (SearchDocuments dr cr (sd_CollectionId req) (sd_QueryVector req) topK
                 (toFilter st (sd_MetadataFilter req)) (sd_MinThreshold req) (sd_IncludeVector req))
        (\<lambda>rs. ret (convertResults st rs)))"

definition Handler_FullTextSearch ::
  "'s structs \<Rightarrow> 'd DocumentRepository \<Rightarrow> 'd CollectionRepository \<Rightarrow> FullTextSearchRequest \<Rightarrow>
     (('d, 'h) world, gerror, ('s pb_Document \<times> fp) list) op" where
  "Handler_FullTextSearch st dr cr req =
     (let limit = (if ft_Limit req = 0 then 10 else ft_Limit req) in
      if ft_MinRank req < f_zero \<or> ft_MinRank req > f_one
      then fail (ErrFmt ''invalid value of %f for rank, should be between 0.0 and 1.0'' [FFloat (ft_MinRank req)])
      else
        andThen (FullTextSearchDocuments dr cr (ft_CollectionId req) (ft_Query req) limit (ft_MinRank req) (ft_IncludeVector req))
          (\<lambda>rs. ret (convertResults st rs)))"

definition Handler_BatchInsert ::
  "'s structs \<Rightarrow> 'd DocumentRepository \<Rightarrow> 'd CollectionRepository \<Rightarrow> string \<Rightarrow> 's CreateDocumentRequest list \<Rightarrow>
     (('d, 'h) world, gerror, string list \<times> int) op" where
  "Handler_BatchInsert st dr cr collectionId protoDocuments =
     (let convDocuments = map (\<lambda>v. zero_Document
            \<lparr>d_CollectionId := collectionId, d_Content := cd_Content v, d_Vector := cd_Vector v,
             d_Metadata := toMetadata st (cd_Metadata v)\<rparr>) protoDocuments
      in andThen (BatchInsert dr cr collectionId convDocuments)
           (\<lambda>(n, documents). ret (map d_Id documents, to_int32 n)))"

definition Handler_BatchDelete ::
  "'d DocumentRepository \<Rightarrow> 'd CollectionRepository \<Rightarrow> string \<Rightarrow> string list \<Rightarrow>
     (('d, 'h) world, gerror, string list \<times> int) op" where
  "Handler_BatchDelete dr cr collectionId documentIds =
     andThen (BatchDelete dr cr collectionId documentIds)
       (\<lambda>(n, documents). ret (map d_Id documents, to_int32 n))"

definition Handler_HybridSearch ::
  "'s structs \<Rightarrow> 'd DocumentRepository \<Rightarrow> 'd CollectionRepository \<Rightarrow> 's HybridSearchRequest \<Rightarrow>
     (('d, 'h) world, gerror, ('s pb_Document \<times> fp) list) op" where
  "Handler_HybridSearch st dr cr req =
     (let topK = (if hs_TopK req = 0 then 10 else hs_TopK req) in
      andThen (HybridSearchDocuments dr cr (hs_CollectionId req) (hs_QueryText req) (hs_QueryVector req) topK
                 (toFilter st (hs_Metadata req)) (hs_VectorWeight req) (hs_TextWeight req) (hs_IncludeVector req))
        (\<lambda>rs. ret (convertResults st rs)))"

section \<open>Health\<close>

datatype ServingStatus = UNKNOWN | SERVING | NOT_SERVING

definition Health_Check :: "'d driver option \<Rightarrow> string \<Rightarrow> ('d pool, gerror, ServingStatus) op" where
  "Health_Check db service =
     (if service = ''readiness''
      then handle (CheckReadiness db) (\<lambda>ready. ret (if ready then SERVING else NOT_SERVING)) (\<lambda>_. ret NOT_SERVING)
      else handle CheckLiveness
             (\<lambda>alive. if alive then ret SERVING else fail (ErrNew ''liveness check failed''))
             (\<lambda>_. fail (ErrNew ''liveness check failed'')))"

section \<open>Metadata through the messages\<close>

text \<open>What a client sent as metadata is what it gets back, when the library's conversions of a
  struct are inverse to each other.\<close>

lemma metadata_roundtrip:
  assumes "\<And>s. NewStruct st (AsMap st s) = Some s"
  shows "toProtoMetadata st (filter_entries (toMetadata st (Some m))) = m"
proof (induction m)
  case (Cons kv m)
  then show ?case using assms by (cases kv) (simp add: toMetadata_def filter_entries_def)
qed (simp add: toMetadata_def filter_entries_def)

end
