(* ===== verification/Store_Properties.thy ===== *)
theory Store_Properties
  imports Service_Facts Collection_Service Handlers
begin

text \<open>
  The properties of the repositories, of the collection service and of warming the cache:
  what is read back from the tables, what starts a background task, and what a client of the
  collection service can rely on. The driver is arbitrary.
\<close>

section \<open>Rows\<close>

text \<open>What a document was stored with is what a read returns: the vector through its text and the
  metadata through JSON.\<close>

lemma scan_stored:
  assumes "list_all is_f32 vec" and "json_Marshal md = Ok j"
  shows "scanDocument True
           [VText i, VText cid, VText (vectorToString vec), VJson j, VText content, VTime created, VTime updated] =
         Ok \<lparr>d_Id = i, d_CollectionId = cid, d_Vector = vec, d_Metadata = md, d_Content = content,
             d_CreatedAt = created, d_UpdatedAt = updated\<rparr>"
  using vector_roundtrip [OF assms(1)] json_roundtrip [OF assms(2)]
  by (simp add: scanDocument_def decodeVector_def decodeMetadata_def)

text \<open>A row of the table of collections is read as the collection it holds, with absent
  provider and model as empty strings.\<close>

lemma collection_row_roundtrip:
  "scanCollection
     [VText (c_Id c), VText (c_Name c), VInt (c_VectorDimension c), VText (c_DistanceMetric c),
      (case c_MetadataSchema c of Some kvs \<Rightarrow> VJson (Json (JObj kvs)) | None \<Rightarrow> VNull),
      (if c_EmbeddingProvider c = [] then VNull else VText (c_EmbeddingProvider c)),
      (if c_EmbeddingModel c = [] then VNull else VText (c_EmbeddingModel c)),
      VTime (c_CreatedAt c), VTime (c_UpdatedAt c), VInt (c_DocumentCount c)] = Ok c"
  using scan_collectionRow [of c] by (simp add: collectionRow_def NullString_def split: if_splits)

text \<open>Listing documents is all or nothing: the rows of one statement, each decoded, and no
  error behind the last of them.\<close>

lemma document_list_all_or_nothing:
  "DocumentRepo_List drv cid limit offset iv p = (Ok docs, p') \<longleftrightarrow>
     (\<exists>rs d. drv_Query drv (listDocuments iv) [AStr cid, AInt limit, AInt offset] (server p) = (Ok rs, d) \<and>
        list_all2 (\<lambda>row doc. scanDocument iv row = Ok doc) (row_list rs) docs \<and> rows_Err rs = None \<and>
        p' = p\<lparr>server := d\<rparr>)"
  by (auto simp: DocumentRepo_List_def andThen_def handle_def on_server_def lift_def fail_def collect_rows_Ok
      split: prod.splits outcome.splits)

text \<open>Listing collections does not ask for that error: rows that were not delivered are missing
  from an answer that looks complete.\<close>

lemma collection_list_hides_error:
  assumes "drv_Query drv listCollections [AInt limit, AInt offset] (server p) =
             (Ok \<lparr>row_list = rows, rows_Err = Some e\<rparr>, d)"
    and "list_all2 (\<lambda>row c. scanCollection row = Ok c) rows cs"
  shows "CollectionRepo_List drv limit offset p = (Ok cs, p\<lparr>server := d\<rparr>)"
  using assms
  by (simp add: CollectionRepo_List_def andThen_run on_server_run lift_def) (simp add: scan_rows_Ok)

section \<open>Background tasks\<close>

lemma QueryRow_goroutines: "QueryRow drv q as scan p = (r, p1) \<Longrightarrow> goroutines p1 = goroutines p"
  using QueryRow_frame [of drv q as scan p] by simp

lemma create_spawns:
  "goroutines (snd (CollectionRepo_Create drv name dimn schema metric ep em p)) =
     goroutines p @
     (case fst (CollectionRepo_Create drv name dimn schema metric ep em p) of
        Ok c \<Rightarrow> [BuildIndex (indexQuery (c_Id c) (distanceMetricOpsClass metric))]
      | _ \<Rightarrow> [])"
proof -
  have m: "distanceMetricOpsClass (if metric = [] then ''cosine'' else metric) = distanceMetricOpsClass metric"
    by (simp add: distanceMetricOpsClass_def)
  show ?thesis
    unfolding CollectionRepo_Create_def Let_def m
    by (auto simp: andThen_def handle_def lift_def fail_def ret_def spawn_run dest!: QueryRow_goroutines
        split: prod.splits outcome.splits)
qed

lemma delete_spawns:
  "goroutines (snd (CollectionRepo_DeleteById drv cid p)) =
     goroutines p @
     (case fst (CollectionRepo_DeleteById drv cid p) of Ok n \<Rightarrow> [DropIndex (dropIndexQuery cid)] | _ \<Rightarrow> [])"
  unfolding CollectionRepo_DeleteById_def
  by (auto simp: andThen_def handle_def fail_def ret_def spawn_run dest!: QueryRow_goroutines
      split: prod.splits outcome.splits)

text \<open>C36 Creating a collection starts one build of its index, named after the new id and for the
  operator class of its metric; deleting one starts one drop of its index; a call that fails
  starts nothing.\<close>

theorem index_tasks_follow_collections:
  "goroutines (snd (CollectionRepo_Create drv name dimn schema metric ep em p)) =
     goroutines p @
     (case fst (CollectionRepo_Create drv name dimn schema metric ep em p) of
        Ok c \<Rightarrow> [BuildIndex (indexQuery (c_Id c) (distanceMetricOpsClass metric))]
      | _ \<Rightarrow> []) \<and>
   goroutines (snd (CollectionRepo_DeleteById drv cid p)) =
     goroutines p @
     (case fst (CollectionRepo_DeleteById drv cid p) of Ok n \<Rightarrow> [DropIndex (dropIndexQuery cid)] | _ \<Rightarrow> [])"
  by (intro conjI create_spawns delete_spawns)

text \<open>The name of an index is the id of its collection, unquoted: with the hyphens of a UUID it is
  not an identifier of SQL, and the failure of the build only moves a counter.\<close>

lemma index_name_has_hyphens:
  "sublist ''idx_hnsw_123e4567-e89b'' (indexQuery ''123e4567-e89b-12d3-a456-426614174000'' ''vector_cosine_ops'')"
  by code_simp

section \<open>The collection service\<close>

text \<open>Which collections are created: a name, a positive dimension, a known metric (none means
  cosine), and provider and model together or not at all.\<close>

lemma create_collection_accepts:
  "CreateCollection cr name dimn schema metric ep em d = (Ok c, d') \<longleftrightarrow>
     name \<noteq> [] \<and> 0 < dimn \<and> metric \<in> {[], ''cosine'', ''euclidean'', ''inner_product''} \<and>
     (ep, em) \<in> {([], [])} \<union> {''openai'', ''ollama'', ''cohere''} \<times> {m. m \<noteq> []} \<and>
     cr_Create cr name dimn (case schema of None \<Rightarrow> Some [] | Some kvs \<Rightarrow> Some kvs)
       (if metric = [] then ''cosine'' else metric) ep em d = (Ok c, d')"
proof -
  have h: "handle m ret g d = (Ok c, d') \<longleftrightarrow> m d = (Ok c, d')" if "\<And>e d. fst (g e d) \<noteq> Ok c" for m g
    using that by (auto simp: handle_def ret_def split: prod.splits outcome.splits) (metis fst_conv)+
  have "handle m ret (\<lambda>e. if b e then fail e1 else fail e) d = (Ok c, d') \<longleftrightarrow> m d = (Ok c, d')" for m b e1
    by (rule h) (simp add: fail_def)
  note key = this
  have f: "fail e d \<noteq> (Ok c, d')" for e by (simp add: fail_def)
  show ?thesis by (auto simp: CreateCollection_def Let_def key f split: if_splits)
qed

text \<open>A duplicate name is reported as such, whatever else the database says about it.\<close>

lemma duplicate_collection_is_reported:
  assumes "name \<noteq> []" and "0 < dimn"
    and "cr_Create cr name dimn (Some []) ''cosine'' [] [] d = (Err e, d')"
    and "strings_Contains (error_text e) ''duplicate key''"
  shows "CreateCollection cr name dimn None [] [] [] d = (Err (ErrNew ''collection already exists''), d')"
  using assms by (simp add: CreateCollection_def handle_run fail_def)

lemma duplicate_collection_is_reported_witness:
  "CreateCollection
     \<lparr>cr_Create = (\<lambda>_ _ _ _ _ _. fail (ErrNew ''pq: duplicate key value violates unique constraint'')),
      cr_List = (\<lambda>_ _. ret []), cr_ListById = (\<lambda>_. fail ErrNoRows), cr_DeleteById = (\<lambda>_. ret 0)\<rparr>
     ''papers'' 3 None [] [] [] (7 :: nat) = (Err (ErrNew ''collection already exists''), 7)"
proof (rule duplicate_collection_is_reported)
  show "strings_Contains (error_text (ErrNew ''pq: duplicate key value violates unique constraint'')) ''duplicate key''"
    by code_simp
qed (simp_all add: fail_def)

text \<open>Listing collections: the repository is asked for one to a hundred of them, twenty when
  the client names no limit, from an offset that is not negative.\<close>

lemma list_collections_clamped:
  "ListCollections cr limit offset =
     cr_List cr (if limit \<le> 0 then 20 else min limit 100) (max offset 0)"
  by (auto simp: ListCollections_def DefaultLimit_def MaxLimit_def Let_def min_def max_def)

section \<open>Health\<close>

text \<open>The server says it is ready exactly when there is a pool and the database answers.\<close>

lemma ready_iff_database_answers:
  "fst (Health_Check db ''readiness'' p) = Ok SERVING \<longleftrightarrow>
     (\<exists>drv d. db = Some drv \<and> drv_Ping drv (server p) = (Ok (), d))"
proof (cases db)
  case (Some drv)
  obtain r d where "drv_Ping drv (server p) = (r, d)" by fastforce
  then show ?thesis
    using Some by (cases r) (auto simp: Health_Check_def CheckReadiness_def handle_def andThen_def on_server_def ret_def fail_def)
qed (simp add: Health_Check_def CheckReadiness_def handle_def ret_def)

section \<open>Warming the cache\<close>

lemma warmRows_Ok:
  "list_all2 (\<lambda>row x. scanWarm row = Ok x) rows infos \<Longrightarrow>
     warmRows rows c = (Ok (), fold (\<lambda>(i, d, m, p, e). cache_Insert i d m p e) infos c)"
  by (induction rows infos arbitrary: c rule: list_all2_induct) auto

text \<open>C38 Warming the cache from a table that could be read makes every id answer with its last
  row; ids that are not in the table answer as before.\<close>

theorem warm_cache_holds_the_table:
  assumes "drv_Query drv warmQuery [] (server (store w)) = (Ok \<lparr>row_list = rows, rows_Err = None\<rparr>, d)"
    and "list_all2 (\<lambda>row x. scanWarm row = Ok x) rows infos"
  shows "fst (WarmFromDB drv w) = Ok () \<and>
     lookup_info i (cache (snd (WarmFromDB drv w))) =
       (case List.find (\<lambda>(j, _). j = i) (rev infos) of
          Some (j, dimn, metric, ep, em) \<Rightarrow>
            (\<lparr>ci_dimension = dimn, ci_distanceMetric = metric, ci_embeddingProvider = ep, ci_embeddingModel = em\<rparr>, True)
        | None \<Rightarrow> lookup_info i (cache w))"
proof -
  have "WarmFromDB drv w =
      (Ok (), (w\<lparr>store := (store w)\<lparr>server := d\<rparr>\<rparr>)
         \<lparr>cache := fold (\<lambda>(i, d, m, p, e). cache_Insert i d m p e) infos (cache w)\<rparr>)"
    using assms(1) warmRows_Ok [OF assms(2), of "cache w"]
    by (simp add: WarmFromDB_def andThen_def handle_def on_store_def on_server_def check_Err_def)
  then show ?thesis using cc.fold_inserts [of i infos "cache w"] by simp
qed

lemma warm_cache_holds_the_table_witness:
  "lookup_info ''a'' (cache (snd (WarmFromDB
     \<lparr>drv_Query = (\<lambda>q as. ret \<lparr>row_list = [[VText ''a'', VInt 3, VText ''cosine'', VNull, VNull],
                                              [VText ''b'', VInt 4, VText ''cosine'', VNull, VNull]], rows_Err = None\<rparr>),
      drv_Exec = (\<lambda>q as. ret (Ok 0)), drv_Begin = ret (), drv_Commit = ret (), drv_Rollback = (\<lambda>d. d), drv_Ping = ret ()\<rparr>
     \<lparr>store = \<lparr>server = (), goroutines = [], HNSWBuildDuration = 0, HNSWBuildErrors = 0\<rparr>, remote = (),
      cache = NewCollectionCache, meters = no_meters\<rparr>))) =
   (\<lparr>ci_dimension = 3, ci_distanceMetric = ''cosine'', ci_embeddingProvider = [], ci_embeddingModel = []\<rparr>, True)"
proof -
  let ?rows = "[[VText ''a'', VInt 3, VText ''cosine'', VNull, VNull], [VText ''b'', VInt 4, VText ''cosine'', VNull, VNull]]"
  let ?drv = "\<lparr>drv_Query = (\<lambda>q as. ret \<lparr>row_list = ?rows, rows_Err = None\<rparr>),
      drv_Exec = (\<lambda>q as. ret (Ok 0)), drv_Begin = ret (), drv_Commit = ret (), drv_Rollback = (\<lambda>d. d), drv_Ping = ret ()\<rparr>
      :: unit driver"
  let ?w = "\<lparr>store = \<lparr>server = (), goroutines = [], HNSWBuildDuration = 0, HNSWBuildErrors = 0\<rparr>, remote = (),
      cache = NewCollectionCache, meters = no_meters\<rparr> :: (unit pool, unit) world"
  have q: "drv_Query ?drv warmQuery [] (server (store ?w)) = (Ok \<lparr>row_list = ?rows, rows_Err = None\<rparr>, ())"
    by (simp add: ret_def)
  have l: "list_all2 (\<lambda>row x. scanWarm row = Ok x) ?rows [(''a'', 3, ''cosine'', [], []), (''b'', 4, ''cosine'', [], [])]"
    by (simp add: is_int32_def)
  from warm_cache_holds_the_table [OF q l, of "''a''"] show ?thesis by simp
qed

section \<open>Metadata through the messages\<close>

text \<open>The metadata of a document comes back to the client as it was sent, when the two
  conversions of the protocol library are inverse to each other.\<close>

lemma metadata_comes_back:
  assumes "\<And>s. NewStruct st (AsMap st s) = Some s"
  shows "pd_Metadata (convertToProtoDocument st (doc\<lparr>d_Metadata := toMetadata st (Some m)\<rparr>)) = m"
  using metadata_roundtrip [of st m] assms by (simp add: convertToProtoDocument_def)

section \<open>Vectors that are read\<close>

definition float32_document :: "Document \<Rightarrow> bool" where
  "float32_document d = list_all is_f32 (d_Vector d)"

lemma docColumns_f32: "docColumns row = Ok (d, mb) \<Longrightarrow> float32_document d"
  by (cases row rule: docColumns.cases) (auto simp: float32_document_def)

lemma decodeMetadata_vector: "decodeMetadata (d, mb) = Ok d' \<Longrightarrow> d_Vector d' = d_Vector d"
  by (cases mb) (auto simp: decodeMetadata_def)

lemma decodeVector_f32: "decodeVector r = Ok (d, mb) \<Longrightarrow> float32_document d"
  by (cases r) (auto simp: decodeVector_def float32_document_def stringToVector_is_f32)

lemma decoded_f32: "float32_document d \<Longrightarrow> decodeMetadata (d, mb) = Ok d' \<Longrightarrow> float32_document d'"
  by (simp add: float32_document_def decodeMetadata_vector)

lemma scanDocument_f32: "scanDocument iv row = Ok d \<Longrightarrow> float32_document d"
  by (auto simp: scanDocument_def split: if_splits intro: decoded_f32 decodeVector_f32 docColumns_f32)

lemma scanResult_f32: "scanResult iv row = Ok r \<Longrightarrow> float32_document (r_Document r)"
  by (auto simp: scanResult_def split: if_splits intro: decoded_f32 decodeVector_f32 docColumns_f32)

lemma collected: "collect_rows scan g rs = Ok xs \<Longrightarrow> (\<And>row x. scan row = Ok x \<Longrightarrow> P x) \<Longrightarrow> list_all P xs"
  by (auto simp: collect_rows_Ok list_all_iff list_all2_conv_all_nth in_set_conv_nth) metis

lemma runSearch_f32:
  "runSearch drv iv stmt p = (Ok rs, p') \<Longrightarrow> list_all (\<lambda>r. float32_document (r_Document r)) rs"
  by (auto simp: runSearch_def andThen_Ok intro: collected scanResult_f32)

lemma reads_float32:
  "DocumentRepo_GetById drv did p = (Ok d, p') \<Longrightarrow> float32_document d"
  "DocumentRepo_List drv cid limit offset iv p = (Ok ds, p') \<Longrightarrow> list_all float32_document ds"
  "DocumentRepo_Search drv cid v k f t iv m p = (Ok rs, p') \<Longrightarrow> list_all (\<lambda>r. float32_document (r_Document r)) rs"
  "DocumentRepo_HybridSearch drv cid qt v k f vw tw iv m p = (Ok rs, p') \<Longrightarrow>
     list_all (\<lambda>r. float32_document (r_Document r)) rs"
  by (auto simp: DocumentRepo_GetById_def DocumentRepo_List_def DocumentRepo_Search_def DocumentRepo_HybridSearch_def
      andThen_Ok intro: collected scanDocument_f32 decoded_f32 decodeVector_f32 runSearch_f32)


definition vector_driver :: "unit driver" where
  "vector_driver =
     \<lparr>drv_Query = (\<lambda>q args. ret \<lparr>row_list = if args = [AStr ''d''] then [[VText ''d'', VText ''c'',
         VText (vectorToString [f_one, f_zero]), VNull, VText ''t'', VTime 1, VTime 1]] else [], rows_Err = None\<rparr>),
      drv_Exec = (\<lambda>q args. ret (Ok 1)), drv_Begin = ret (), drv_Commit = ret (), drv_Rollback = (\<lambda>d. d), drv_Ping = ret ()\<rparr>"


end
