(* ===== verification/Service_Properties.thy ===== *)
theory Service_Properties
  imports Service_Facts Handlers
begin

text \<open>
  The properties of the services and of the handlers in front of them. The repositories are
  arbitrary here, as the interfaces of \<open>services/interfaces.go\<close> leave them; the witnesses use
  small repositories that keep the number of their documents.
\<close>

section \<open>Repositories for examples\<close>

definition demo_collection :: Collection where
  "demo_collection =
     \<lparr>c_Id = ''c'', c_Name = ''papers'', c_VectorDimension = 2, c_DistanceMetric = ''cosine'',
      c_MetadataSchema = Some [], c_EmbeddingProvider = ''openai'', c_EmbeddingModel = ''m'',
      c_CreatedAt = 5, c_UpdatedAt = 5, c_DocumentCount = 0\<rparr>"

definition demo_cr :: "nat CollectionRepository" where
  "demo_cr =
     \<lparr>cr_Create = (\<lambda>_ _ _ _ _ _. fail (ErrNew ''duplicate key value'')),
      cr_List = (\<lambda>_ _. ret [demo_collection]),
      cr_ListById = (\<lambda>i. if i = ''c'' then ret demo_collection else fail ErrNoRows),
      cr_DeleteById = (\<lambda>_. ret 0)\<rparr>"

definition demo_dr :: "nat DocumentRepository" where
  "demo_dr =
     \<lparr>dr_Create = (\<lambda>cid content v md n. (Ok (zero_Document\<lparr>d_Content := content\<rparr>), n + 1)),
      dr_Upsert = (\<lambda>did cid content v md n. (Ok \<lparr>u_Document = zero_Document, u_IsNew = True\<rparr>, n + 1)),
      dr_List = (\<lambda>_ _ _ _. ret []), dr_GetById = (\<lambda>_. fail ErrNoRows), dr_DeleteById = (\<lambda>_. ret ()),
      dr_Search = (\<lambda>_ _ _ _ _ _ _. ret []), dr_FullTextSearch = (\<lambda>_ _ _ _ _. ret []),
      dr_BatchInsert = (\<lambda>cid ds n. (Ok (int (length ds), ds), n + length ds)),
      dr_BatchDelete = (\<lambda>_ _. ret (0, [])), dr_HybridSearch = (\<lambda>_ _ _ _ _ _ _ _ _. ret [])\<rparr>"

definition demo_item :: "fp \<Rightarrow> rat \<Rightarrow> jval" where
  "demo_item x i = JObj [(''embedding'', JArr [JNum x, JNum f_one]), (''index'', JNum (Fin False i))]"

text \<open>A provider that answers with the items in the wrong order.\<close>

definition demo_net :: "unit net" where
  "demo_net =
     \<lparr>Getenv = (\<lambda>_. ''key''), url_error = (\<lambda>_. None),
      exchange = (\<lambda>req h. (Inr \<lparr>StatusCode = 200,
         Body = Some (JObj [(''data'', JArr [demo_item f_one 1, demo_item f_zero 0])])\<rparr>, h))\<rparr>"

definition demo_world :: "(nat, unit) world" where
  "demo_world = \<lparr>store = 3, remote = (), cache = NewCollectionCache, meters = no_meters\<rparr>"

definition by_character :: ChunkingConfig where
  "by_character = \<lparr>Strategy = ''fixed'', ChunkSize = 1, ChunkOverlap = 0\<rparr>"

section \<open>Ingestion\<close>

lemma IngestDocument_Ok:
  assumes run: "IngestDocument dr cr net cid content md config w = (Ok (n, ids), w')"
    and chunks: "Chunk (GetChunker (Strategy config)) content (ChunkSize config) (ChunkOverlap config) = Some chunks"
  shows "chunks = [] \<and> n = 0 \<and> ids = [] \<or>
     (\<exists>embs w1 ins. length embs = length chunks \<and>
        BatchInsert dr cr cid (map (ingestDoc cid (orEmpty md)) (zip chunks embs)) w1 = (Ok (n, ins), w') \<and>
        ids = map d_Id ins)"
  using run unfolding IngestDocument_def
  by (auto simp: Let_def chunks andThen_Ok split: if_splits prod.splits dest!: ingestChunks_Ok)

text \<open>An ingestion that succeeds hands the repository exactly one document for each chunk, in
  the order of the chunks, with the text of the chunk, the metadata of the request and a
  vector of the dimension of the collection, and returns the ids of what was stored.\<close>

lemma ingest_one_document_per_chunk:
  assumes "IngestDocument dr cr net cid content md config w = (Ok (n, ids), w')"
    and "Chunk (GetChunker (Strategy config)) content (ChunkSize config) (ChunkOverlap config) = Some chunks"
    and "chunks \<noteq> []"
  shows "\<exists>embs dimn d d' ins. length embs = length chunks \<and> list_all (\<lambda>e. int (length e) = dimn) embs \<and>
     length chunks \<le> 1000 \<and>
     dr_BatchInsert dr cid
       (map (\<lambda>(chunk, emb). zero_Document\<lparr>d_CollectionId := cid, d_Content := chunk, d_Vector := emb,
                              d_Metadata := orEmpty md\<rparr>) (zip chunks embs)) d = (Ok (n, ins), d') \<and>
     ids = map d_Id ins \<and> store w' = d'"
proof -
  from IngestDocument_Ok [OF assms(1,2)] assms(3) obtain embs w1 ins where len: "length embs = length chunks"
    and run: "BatchInsert dr cr cid (map (ingestDoc cid (orEmpty md)) (zip chunks embs)) w1 = (Ok (n, ins), w')"
    and ids: "ids = map d_Id ins" by blast
  have doc: "ingestDoc cid (orEmpty md) = (\<lambda>(chunk, emb). zero_Document\<lparr>d_CollectionId := cid,
      d_Content := chunk, d_Vector := emb, d_Metadata := orEmpty md\<rparr>)"
    by (auto simp: ingestDoc_def fun_eq_iff)
  from run [unfolded BatchInsert_Ok] obtain dimn w2 d where
    dims: "\<forall>v\<in>set (map (ingestDoc cid (orEmpty md)) (zip chunks embs)). int (length (d_Vector v)) = dimn"
    and n: "length (map (ingestDoc cid (orEmpty md)) (zip chunks embs)) \<le> 1000"
    and ins: "dr_BatchInsert dr cid (map (ingestDoc cid (orEmpty md)) (zip chunks embs)) (store w2) = (Ok (n, ins), d)"
    and w': "w' = w2\<lparr>store := d\<rparr>" by auto
  have "list_all (\<lambda>e. int (length e) = dimn) (map snd (zip chunks embs))"
    using dims by (auto simp: list_all_iff ingestDoc_def)
  then have "list_all (\<lambda>e. int (length e) = dimn) embs" using len by simp
  then show ?thesis using len n ins w' ids unfolding doc by auto
qed

lemma demo_embeddings:
  "OpenAI_GenerateEmbeddings demo_net k m [a, b] h = (Ok [[f_zero, f_one], [f_one, f_one]], h)"
proof -
  have low: "strings_ToLower ''data'' = ''data''" "strings_ToLower ''embedding'' = ''embedding''"
    "strings_ToLower ''index'' = ''index''" by code_simp+
  have "decode_float (JNum f_one) = Ok f_one" "decode_float (JNum f_zero) = Ok f_zero"
    by (simp_all add: f_one_def f_zero_def f32_round_def)
  then have "openaiResponse [(''data'', JArr [demo_item f_one 1, demo_item f_zero 0])] =
      Ok [([f_one, f_one], 1), ([f_zero, f_one], 0)]"
    by (simp add: openaiResponse_def demo_item_def openaiItem_def field_def low del: strings_ToLower.simps)
  then show ?thesis
    by (simp add: OpenAI_GenerateEmbeddings_def demo_net_def op_simps post_def Do_def decode_body_def
        eval_nat_numeral)
qed

lemma demo_ingestChunks:
  assumes "cache w ''c'' = Some info" and "ci_dimension info = 2"
  shows "fst (ingestChunks demo_dr cr demo_net ''c'' md s ''openai'' ''m'' [''a'', ''b''] w) = Ok (2, [[], []])"
proof -
  have g: "GetClient demo_net ''openai'' ''m'' = Ok (OpenAIEmbeddingClient ''key'' ''m'')" by code_simp
  show ?thesis
    using assms
    by (simp add: ingestChunks_def g demo_embeddings op_simps countChunks_def countEmbed_def count_def
        getCollectionInfo_hit BatchInsert_def demo_dr_def batchSize_def zero_Document_def)
qed

definition demo_cached :: "(nat, unit) world" where
  "demo_cached = remember ''c'' demo_collection (counted ''miss'' demo_world)"

lemma demo_cache: "cache demo_cached ''c'' = Some \<lparr>ci_dimension = 2, ci_distanceMetric = ''cosine'',
    ci_embeddingProvider = ''openai'', ci_embeddingModel = ''m''\<rparr>"
  by (simp add: demo_cached_def remember_def cache_Insert_def to_int32_def demo_collection_def)

lemma demo_ingest:
  "fst (IngestDocument demo_dr demo_cr demo_net ''c'' ''ab'' None by_character demo_world) = Ok (2, [[], []])"
proof -
  have c: "Chunk (GetChunker ''fixed'') ''ab'' 1 0 = Some [''a'', ''b'']" by code_simp
  have "cache demo_world ''c'' = None" by (simp add: demo_world_def NewCollectionCache_def)
  then have "getCollectionEmbeddingInfo demo_cr ''c'' demo_world = (Ok (''openai'', ''m''), demo_cached)"
    by (simp add: getCollectionEmbeddingInfo_miss demo_cr_def demo_cached_def ret_def demo_collection_def)
       (simp add: counted_def)
  then show ?thesis
    using demo_ingestChunks [OF demo_cache]
    by (simp add: IngestDocument_def by_character_def c andThen_run)
qed

lemma ingest_one_document_per_chunk_witness:
  "\<exists>n ids w'. IngestDocument demo_dr demo_cr demo_net ''c'' ''ab'' None by_character demo_world = (Ok (n, ids), w') \<and>
     (\<exists>embs d d' ins. length embs = 2 \<and>
        dr_BatchInsert demo_dr ''c'' (map (\<lambda>(chunk, emb). zero_Document\<lparr>d_CollectionId := ''c'', d_Content := chunk,
          d_Vector := emb, d_Metadata := Some []\<rparr>) (zip [''a'', ''b''] embs)) d = (Ok (n, ins), d') \<and>
        ids = map d_Id ins \<and> store w' = d')"
proof -
  let ?run = "IngestDocument demo_dr demo_cr demo_net ''c'' ''ab'' None by_character demo_world"
  obtain w' where run: "?run = (Ok (2, [[], []]), w')" using demo_ingest by (metis prod.collapse)
  have c: "Chunk (GetChunker (Strategy by_character)) ''ab'' (ChunkSize by_character) (ChunkOverlap by_character)
      = Some [''a'', ''b'']" by code_simp
  have e: "orEmpty None = Some []" by (simp add: orEmpty_def)
  have two: "length [''a'', ''b''] = 2" by simp
  obtain embs dimn d d' ins where r: "length embs = 2"
    "dr_BatchInsert demo_dr ''c'' (map (\<lambda>(chunk, emb). zero_Document\<lparr>d_CollectionId := ''c'', d_Content := chunk,
       d_Vector := emb, d_Metadata := Some []\<rparr>) (zip [''a'', ''b''] embs)) d = (Ok (2, ins), d')"
    "[[], []] = map d_Id ins" "store w' = d'"
    using ingest_one_document_per_chunk [OF run c list.distinct(2), unfolded e two] by (elim exE conjE)
  show ?thesis by (rule exI, rule exI, rule exI, rule conjI, rule run, intro exI conjI) (rule r)+
qed

section \<open>Documents\<close>

text \<open>Exactly when a document is created: collection and vector are given, every value of the
  vector is finite and its length is the dimension of the collection; the repository then
  gets the arguments unchanged, a missing metadata map as an empty one.\<close>

lemma create_document_accepts:
  "CreateDocument dr cr cid content vec md w = (Ok doc, w') \<longleftrightarrow>
     cid \<noteq> [] \<and> vec \<noteq> [] \<and> list_all (\<lambda>x. \<not> IsNaN x \<and> \<not> IsInf x) vec \<and>
     (\<exists>metric w1 d. getCollectionInfo cr cid w = (Ok (int (length vec), metric), w1) \<and>
        dr_Create dr cid content vec (case md of None \<Rightarrow> Some [] | Some kvs \<Rightarrow> Some kvs) (store w1) = (Ok doc, d) \<and>
        w' = w1\<lparr>store := d\<rparr>)"
  by (simp add: CreateDocument_Ok orEmpty_def) (simp add: finite_fp_def [abs_def])

text \<open>A vector that is refused is refused before the repository is asked to store it.\<close>

lemma checkVector_Err:
  "\<not> list_all finite_fp xs \<Longrightarrow> \<exists>e. checkVector what i xs w = (Err e, w)"
  by (induction xs arbitrary: i) (auto simp: finite_fp_def fail_def)

text \<open>C32 A vector of the wrong dimension or with a NaN or an infinity changes nothing in the
  store, neither through a create nor through an upsert.\<close>

theorem bad_vector_stores_nothing:
  assumes "getCollectionInfo cr cid w = (Ok (dimn, metric), w1)"
    and "int (length vec) \<noteq> dimn \<or> \<not> list_all finite_fp vec"
    and "cid \<noteq> []" and "vec \<noteq> []" and "did \<noteq> []"
  shows "\<exists>e. CreateDocument dr cr cid content vec md w = (Err e, w1) \<and>
             UpsertDocument dr cr did cid content vec md w = (Err e, w1)"
proof (cases "int (length vec) = dimn")
  case True
  with assms(2) have "\<not> list_all finite_fp vec" by simp
  then obtain e where "checkVector ''vector'' 0 vec w1 = (Err e, w1)" using checkVector_Err by blast
  with True assms show ?thesis by (simp add: CreateDocument_def UpsertDocument_def andThen_run)
next
  case False
  with assms show ?thesis by (simp add: CreateDocument_def UpsertDocument_def andThen_run fail_run)
qed

lemma demo_info: "getCollectionInfo cr ''c'' demo_cached = (Ok (2, ''cosine''), counted ''hit'' demo_cached)"
  by (simp add: getCollectionInfo_hit [OF demo_cache])

lemma bad_vector_stores_nothing_witness:
  "\<exists>e. CreateDocument demo_dr demo_cr ''c'' ''t'' [f_one, NaN] None demo_cached = (Err e, counted ''hit'' demo_cached)"
proof -
  have "\<not> list_all finite_fp [f_one, NaN]" by (simp add: finite_fp_def)
  then show ?thesis
    using bad_vector_stores_nothing [OF demo_info, of "[f_one, NaN]" "''d''" demo_dr demo_cr "''t''" None] by auto
qed

text \<open>A document that is not there is reported as not found by a read and by a delete.\<close>

lemma missing_document_is_reported:
  assumes "did \<noteq> []"
    and "dr_GetById dr did (store w) = (Err ErrNoRows, d1)"
    and "dr_DeleteById dr did (store w) = (Err ErrNoRows, d2)"
  shows "GetDocument dr did w = (Err (ErrFmt ''document_id %s not found'' [FStr did]), w\<lparr>store := d1\<rparr>) \<and>
         DeleteDocument dr did w = (Err (ErrFmt ''document_id %s not found'' [FStr did]), w\<lparr>store := d2\<rparr>)"
  using assms by (simp add: GetDocument_def DeleteDocument_def handle_run on_store_run fail_run)

lemma missing_document_is_reported_witness:
  "fst (GetDocument (demo_dr\<lparr>dr_DeleteById := \<lambda>_. fail ErrNoRows\<rparr>) ''x'' demo_world) =
     Err (ErrFmt ''document_id %s not found'' [FStr ''x''])"
proof -
  let ?dr = "demo_dr\<lparr>dr_DeleteById := \<lambda>_. fail ErrNoRows\<rparr>"
  have g: "dr_GetById ?dr ''x'' (store demo_world) = (Err ErrNoRows, 3)"
    and d: "dr_DeleteById ?dr ''x'' (store demo_world) = (Err ErrNoRows, 3)"
    by (simp_all add: demo_dr_def demo_world_def fail_def)
  have "''x'' \<noteq> []" by simp
  from missing_document_is_reported [OF this g d] show ?thesis by simp
qed

section \<open>Searches\<close>

text \<open>A hybrid search needs a vector or a text; a vector must fit the collection, and the
  repository gets the normalised weights.\<close>

lemma hybrid_search_accepts:
  "HybridSearchDocuments dr cr cid qt q topK f vw tw iv w = (Ok rs, w') \<longleftrightarrow>
     cid \<noteq> [] \<and> (q, qt) \<noteq> ([], []) \<and> list_all finite_fp q \<and> 0 \<le> topK \<and> topK \<le> 1000 \<and>
     (\<exists>dimn metric w1 d vw' tw'. getCollectionInfo cr cid w = (Ok (dimn, metric), w1) \<and>
        (if q = [] then True else dimn = int (length q)) \<and> normalizeWeights vw tw = Ok (vw', tw') \<and>
        dr_HybridSearch dr cid qt q (if topK = 0 then 10 else topK) (orEmpty f) vw' tw' iv metric (store w1) = (Ok rs, d) \<and>
        w' = w1\<lparr>store := d\<rparr>)"
  unfolding HybridSearch_Ok by (cases "q = []") auto

text \<open>Between zero and one, as the language compares.\<close>

definition in_unit :: "fp \<Rightarrow> bool" where
  "in_unit x = (f_zero \<le> x \<and> x \<le> f_one)"

lemma in_unit_Fin: "in_unit (Fin s m) \<longleftrightarrow> 0 \<le> signed s m \<and> signed s m \<le> 1"
  by (auto simp: in_unit_def f_zero_def f_one_def fp_order)

lemma unit_quotient:
  assumes "0 \<le> x" and "x \<le> m" and "0 < m" and "s \<Longrightarrow> x = 0"
  shows "in_unit (f32_div (Fin s x) (Fin False m))"
proof -
  have "0 \<le> x / m" "x / m \<le> 1" using assms by simp_all
  then obtain q where "f32_round False (x / m) = Fin False q" "0 \<le> q" "q \<le> 1"
    using f32_round_unit by blast
  then show ?thesis using assms(3,4) by (cases s) (auto simp: in_unit_Fin f32_round_def)
qed

lemma not_outside: "\<not> x < f_zero \<Longrightarrow> \<not> x > f_one \<Longrightarrow> \<not> IsNaN x \<Longrightarrow> is_f32 x \<Longrightarrow>
    \<exists>s m. x = Fin s m \<and> 0 \<le> m \<and> m \<le> 1 \<and> (s \<longrightarrow> m = 0) \<and> f32_mag m = m"
proof (cases x)
  case (Inf s)
  then show "\<not> x < f_zero \<Longrightarrow> \<not> x > f_one \<Longrightarrow> ?thesis" by (cases s) (simp_all add: f_zero_def f_one_def fp_order)
next
  case (Fin s m)
  then show "\<not> x < f_zero \<Longrightarrow> \<not> x > f_one \<Longrightarrow> \<not> IsNaN x \<Longrightarrow> is_f32 x \<Longrightarrow> ?thesis"
    by (cases s) (auto simp: f_zero_def f_one_def fp_order)
qed simp

lemma weights_in_unit:
  assumes "is_f32 v" "is_f32 t" "\<not> IsNaN v" "\<not> IsNaN t" and "normalizeWeights v t = Ok (v', t')"
  shows "in_unit v' \<and> in_unit t'"
proof -
  have range: "\<not> v < f_zero" "\<not> v > f_one" "\<not> t < f_zero" "\<not> t > f_one"
    using assms(5) by (auto simp: normalizeWeights_def split: if_splits)
  from not_outside [OF range(1,2) assms(3,1)] obtain s x where
    v: "v = Fin s x" "0 \<le> x" "x \<le> 1" "s \<longrightarrow> x = 0" "f32_mag x = x" by blast
  from not_outside [OF range(3,4) assms(4,2)] obtain u y where
    t: "t = Fin u y" "0 \<le> y" "y \<le> 1" "u \<longrightarrow> y = 0" "f32_mag y = y" by blast
  have sx: "signed s x = x" "signed u y = y" using v t by auto
  show ?thesis
  proof (cases "x = 0 \<and> y = 0")
    case True
    then have "v' = f_half \<and> t' = f_half"
      using assms(5) range v t by (cases s; cases u) (simp_all add: normalizeWeights_def f_zero_def)
    then show ?thesis by (simp add: f_half_def in_unit_Fin)
  next
    case False
    then have pos: "0 < x + y" using v t by auto
    let ?s = "f32_add v t" and ?m = "f32_mag (x + y)"
    have s: "?s = f32_round False (x + y)" using pos v t sx by simp
    have ge: "x \<le> ?m" "y \<le> ?m" using f32_mag_ge [OF v(5)] f32_mag_ge [OF t(5)] v t by simp_all
    then have mpos: "0 < ?m" using pos v t by auto
    have nz: "\<not> (fp_eq v f_zero \<and> fp_eq t f_zero)" using False v t sx by (simp add: f_zero_def)
    have gt: "?s > f_zero" using mpos s by (simp add: f32_round_def f_zero_def fp_order)
    have out: "v' = f32_div v ?s" "t' = f32_div t ?s"
      using assms(5) range nz gt unfolding normalizeWeights_def Let_def by (simp_all split: if_splits)
    show ?thesis
    proof (cases "2 ^ 128 \<le> ?m")
      case True
      then have "?s = Inf False" unfolding s f32_round_def by simp
      then show ?thesis using out v(1) t(1) by (simp add: in_unit_Fin)
    next
      case False
      then have e: "?s = Fin False ?m" unfolding s f32_round_def by simp
      have "in_unit (f32_div (Fin s x) (Fin False ?m))" "in_unit (f32_div (Fin u y) (Fin False ?m))"
        using v t ge mpos by (intro unit_quotient; simp)+
      then show ?thesis unfolding out e unfolding v(1) t(1) by blast
    qed
  qed
qed

text \<open>C15 The weights that reach a hybrid search lie between zero and one, whatever float32 numbers
  the client sent, as long as neither is a NaN; rounding never pushes one over one.\<close>

theorem normalized_weights_in_unit:
  assumes "is_f32 v" and "is_f32 t" and "\<not> IsNaN v" and "\<not> IsNaN t"
    and "normalizeWeights v t = Ok (v', t')"
  shows "f_zero \<le> v' \<and> v' \<le> f_one \<and> f_zero \<le> t' \<and> t' \<le> f_one"
  using weights_in_unit [OF assms] by (simp add: in_unit_def)

lemma normalized_weights_in_unit_witness:
  "f_zero \<le> f_half \<and> f_half \<le> f_one"
proof -
  have "normalizeWeights f_zero f_zero = Ok (f_half, f_half)"
    by (simp add: normalizeWeights_def f_zero_def f_one_def fp_order)
  moreover have "is_f32 f_zero" "\<not> IsNaN f_zero" by (simp_all add: f_zero_def)
  ultimately show ?thesis using normalized_weights_in_unit [of f_zero f_zero f_half f_half] by blast
qed

text \<open>A NaN is compared with nothing, so it passes the checks of the weights and of the threshold.\<close>

lemma nan_weights_pass: "normalizeWeights NaN NaN = Ok (NaN, NaN)"
  by (simp add: normalizeWeights_def)

lemma nan_threshold_passes:
  "SearchDocuments demo_dr demo_cr ''c'' [f_one, f_one] 5 None NaN False demo_cached =
     (Ok [], counted ''hit'' demo_cached)"
  by (simp add: SearchDocuments_Ok demo_info finite_fp_def f_one_def demo_dr_def ret_def)

section \<open>Batches\<close>

text \<open>A batch is inserted exactly when it has one to a thousand documents, all of the
  dimension of the collection: one wrong document refuses the batch.\<close>

lemma batch_insert_accepts:
  "BatchInsert dr cr cid docs w = (Ok r, w') \<longleftrightarrow>
     cid \<noteq> [] \<and> docs \<noteq> [] \<and> length docs \<le> 1000 \<and>
     (\<exists>dimn metric w1 d. getCollectionInfo cr cid w = (Ok (dimn, metric), w1) \<and>
        list_all (\<lambda>v. int (length (d_Vector v)) = dimn) docs \<and>
        dr_BatchInsert dr cid docs (store w1) = (Ok r, d) \<and> w' = w1\<lparr>store := d\<rparr>)"
  by (simp add: BatchInsert_Ok list_all_iff)

section \<open>The cache of collections\<close>

text \<open>The second lookup of a collection gives the same answer without the repository, when
  dimensions fit the 32 bits of the cache: \<open>cr2\<close> is arbitrary.\<close>

lemma second_lookup_is_cached:
  assumes "\<And>d c d'. cr_ListById cr cid d = (Ok c, d') \<Longrightarrow> is_int32 (c_VectorDimension c)"
    and "getCollectionInfo cr cid w = (Ok r, w1)"
  shows "getCollectionInfo cr2 cid w1 = (Ok r, counted ''hit'' w1)"
proof (cases "cache w cid")
  case None
  from assms(2) [unfolded getCollectionInfo_miss [OF None]] obtain c d where
    c: "cr_ListById cr cid (store w) = (Ok c, d)" and r: "r = (c_VectorDimension c, c_DistanceMetric c)"
    and w1: "w1 = remember cid c (counted ''miss'' w\<lparr>store := d\<rparr>)" by blast
  from assms(1) [OF c] have "to_int32 (c_VectorDimension c) = c_VectorDimension c" by (rule to_int32_id)
  then show ?thesis
    unfolding r w1
    by (subst getCollectionInfo_hit) (auto simp: remember_def cache_Insert_def)
next
  case (Some info)
  then show ?thesis
    using assms(2) getCollectionInfo_hit [OF Some, of cr]
    by (auto simp: getCollectionInfo_hit)
qed

lemma second_lookup_is_cached_witness:
  "fst (getCollectionInfo (demo_cr\<lparr>cr_ListById := \<lambda>_. fail ErrNoRows\<rparr>) ''c'' demo_cached) = Ok (2, ''cosine'')"
proof -
  have 1: "is_int32 (c_VectorDimension c)" if "cr_ListById demo_cr ''c'' d = (Ok c, d')" for d c d'
    using that by (auto simp: demo_cr_def ret_def demo_collection_def is_int32_def)
  have "cache demo_world ''c'' = None" by (simp add: demo_world_def NewCollectionCache_def)
  then have 2: "getCollectionInfo demo_cr ''c'' demo_world = (Ok (2, ''cosine''), demo_cached)"
    by (simp add: getCollectionInfo_miss demo_cr_def demo_cached_def ret_def demo_collection_def)
       (simp add: counted_def)
  show ?thesis using second_lookup_is_cached [OF 1 2] by simp
qed

text \<open>Nothing removes a deleted collection from the cache: its documents are still accepted.\<close>

lemma deleted_collection_still_served:
  assumes "cache w cid = Some info"
    and "DeleteCollection cr cid (store w) = (Ok n, d)"
  shows "getCollectionInfo cr cid (w\<lparr>store := d\<rparr>) =
           (Ok (ci_dimension info, ci_distanceMetric info), counted ''hit'' (w\<lparr>store := d\<rparr>))"
  using assms(1) by (intro getCollectionInfo_hit) simp

end
