(* ===== verification/Embedding_Properties.thy ===== *)
theory Embedding_Properties
  imports Service_Properties
begin

text \<open>
  The properties of the embedding clients: one vector for each text, the vectors of OpenAI
  in the order of the texts whatever order the provider sends, and no result from a provider
  that refuses every request.
\<close>

lemma post_Ok:
  "post net f g req h = (Ok resp, h') \<longleftrightarrow> url_error net (hr_url req) = None \<and> exchange net req h = (Inr resp, h')"
  by (auto simp: post_def wrap_error_def Do_def fail_def split: option.splits prod.splits sum.splits)

section \<open>One vector for each text\<close>

text \<open>C40 Every client that succeeds returns exactly one vector for each text.\<close>

theorem one_embedding_per_text:
  assumes "GenerateEmbeddings net client texts h = (Ok embs, h')"
  shows "length embs = length texts"
  using assms by (rule embed.one_for_each)

lemma one_embedding_per_text_witness:
  "length [[f_zero, f_one], [f_one, f_one]] = length [''a'', ''b'']"
proof (rule one_embedding_per_text)
  show "GenerateEmbeddings demo_net (OpenAIEmbeddingClient ''key'' ''m'') [''a'', ''b''] () =
      (Ok [[f_zero, f_one], [f_one, f_one]], ())"
    by (simp add: demo_embeddings)
qed

section \<open>OpenAI\<close>

lemma find_after:
  "List.find P (xs @ ys) = (case List.find P xs of Some x \<Rightarrow> Some x | None \<Rightarrow> List.find P ys)"
  by (induction xs) auto

lemma placeItems_at:
  "j < length results \<Longrightarrow>
     placeItems items results ! j =
       (case List.find (\<lambda>(_, i). i = int j) (rev items) of Some (e, _) \<Rightarrow> e | None \<Rightarrow> results ! j)"
proof (induction items arbitrary: results)
  case (Cons item items)
  obtain e i where item: "item = (e, i)" by fastforce
  let ?r = "if 0 \<le> i \<and> i < int (length results) then results[nat i := e] else results"
  have "?r ! j = (if i = int j then e else results ! j)" using Cons.prems by (auto simp: nth_list_update)
  moreover have "j < length ?r" using Cons.prems by simp
  ultimately show ?case
    using Cons.IH [of ?r] by (auto simp: item find_after split: option.splits)
qed simp

text \<open>C22 The vector at place j of an answer of OpenAI is one that the provider sent for the text
  with index j, and it is not empty: the order of the items in the response is irrelevant.\<close>

theorem openai_vectors_by_index:
  assumes "OpenAI_GenerateEmbeddings net key model texts h = (Ok embs, h')" and "texts \<noteq> []"
  shows "\<exists>req resp items. exchange net req h = (Inr resp, h') \<and> StatusCode resp = 200 \<and>
     hr_body req = JObj [(''input'', JArr (map JStr texts)), (''model'', JStr model)] \<and>
     decode_body openaiResponse resp = Ok items \<and> length embs = length texts \<and>
     list_all (\<lambda>j. embs ! j \<noteq> [] \<and> (embs ! j, int j) \<in> set items) [0 ..< length texts]"
proof -
  from assms obtain req resp items where x: "exchange net req h = (Inr resp, h')" "StatusCode resp = 200"
    and b: "hr_body req = JObj [(''input'', JArr (map JStr texts)), (''model'', JStr model)]"
    and d: "decode_body openaiResponse resp = Ok items"
    and ne: "firstEmpty 0 (placeItems items (replicate (length texts) [])) = None"
    and e: "embs = placeItems items (replicate (length texts) [])"
    by (auto simp: OpenAI_GenerateEmbeddings_def Let_def andThen_Ok post_Ok split: if_splits option.splits outcome.splits)
  have "embs ! j \<noteq> [] \<and> (embs ! j, int j) \<in> set items" if j: "j < length texts" for j
  proof -
    have n: "embs ! j \<noteq> []" using ne e j by (metis firstEmpty_None length_placeItems length_replicate nth_mem)
    moreover have "embs ! j = (case List.find (\<lambda>(_, i). i = int j) (rev items) of Some (e, _) \<Rightarrow> e | None \<Rightarrow> [])"
      using placeItems_at [of j "replicate (length texts) []" items] j e by (simp split: option.splits)
    ultimately obtain v i where "List.find (\<lambda>(_, i). i = int j) (rev items) = Some (v, i)" "embs ! j = v"
      by (auto split: option.splits)
    then show ?thesis using n by (auto simp: find_Some_iff) (metis length_rev nth_mem set_rev)
  qed
  then show ?thesis using x b d e by (intro exI [of _ req] exI [of _ resp] exI [of _ items]) (auto simp: list_all_iff)
qed

lemma openai_vectors_by_index_witness:
  "\<exists>req resp items. exchange demo_net req () = (Inr resp, ()) \<and> decode_body openaiResponse resp = Ok items \<and>
     ([f_zero, f_one], 0) \<in> set items"
proof -
  have "[''a'', ''b''] \<noteq> []" by simp
  from openai_vectors_by_index [OF demo_embeddings [of "''key''" "''m''" _ _ "()"] this] show ?thesis
    by (simp add: upt_rec) blast
qed

section \<open>Errors of a provider\<close>

definition refuses :: "'h net \<Rightarrow> bool" where
  "refuses net \<longleftrightarrow> (\<forall>req h resp h'. exchange net req h = (Inr resp, h') \<longrightarrow> StatusCode resp \<noteq> 200)"

lemma refused_legacy:
  assumes "refuses net"
  shows "callLegacyEmbeddings net host model text h \<noteq> (Ok emb, h')"
  using assms by (auto simp: callLegacyEmbeddings_def andThen_Ok post_Ok refuses_def split: if_splits)

lemma refused_clients:
  assumes "refuses net" and "texts \<noteq> []"
  shows "GenerateEmbeddings net client texts h \<noteq> (Ok embs, h')"
proof (cases client)
  case (OpenAIEmbeddingClient key model)
  then show ?thesis using assms
    by (auto simp: OpenAI_GenerateEmbeddings_def Let_def andThen_Ok post_Ok refuses_def split: if_splits outcome.splits)
next
  case (CohereEmbeddingClient key model)
  then show ?thesis using assms
    by (auto simp: Cohere_GenerateEmbeddings_def Let_def andThen_Ok post_Ok refuses_def split: if_splits outcome.splits)
next
  case (OllamaEmbeddingClient host model)
  have batch: "tryBatchEmbed net host model texts h \<noteq> (Ok embs, h')" for h embs h'
    using assms by (auto simp: tryBatchEmbed_def andThen_Ok post_Ok refuses_def split: if_splits)
  have loop: "legacyLoop net host model 0 texts h \<noteq> (Ok embs, h')" for h embs h'
    using assms refused_legacy [of net]
    by (cases texts) (auto simp: andThen_Ok wrap_error_Ok)
  show ?thesis using OllamaEmbeddingClient assms(2) batch loop
    by (auto simp: Ollama_GenerateEmbeddings_def elim!: handle_OkE)
qed

text \<open>C39 When a provider refuses every request, each client reports an error: no vectors are made
  up, and the fallback of Ollama does not hide the failure.\<close>

theorem refusing_provider_is_an_error:
  assumes "\<And>req h resp h'. exchange net req h = (Inr resp, h') \<Longrightarrow> StatusCode resp \<noteq> 200"
    and "texts \<noteq> []"
  shows "\<exists>e h'. GenerateEmbeddings net client texts h = (Err e, h')"
proof -
  have "refuses net" using assms(1) by (auto simp: refuses_def)
  then have no: "GenerateEmbeddings net client texts h \<noteq> (Ok embs, h')" for embs h'
    by (rule refused_clients) (rule assms(2))
  obtain r h' where r: "GenerateEmbeddings net client texts h = (r, h')" by fastforce
  have "returns r" using safe_opD [OF embed.client_returns [of net client texts], of h] r by simp
  then show ?thesis using no r by (cases r) auto
qed

lemma refusing_provider_is_an_error_witness:
  "\<exists>e h'. GenerateEmbeddings (demo_net\<lparr>exchange := \<lambda>req h. (Inr \<lparr>StatusCode = 503, Body = None\<rparr>, h)\<rparr>)
     (OllamaEmbeddingClient ''http://h'' ''m'') [''a''] () = (Err e, h')"
  by (rule refusing_provider_is_an_error) auto

end
