(* ===== verification/Server.thy ===== *)
theory Server
  imports Handlers
begin

text \<open>
  The server around the handlers: the connection of \<open>internal/db/connection.go\<close>, the metrics of
  \<open>internal/metrics\<close> (the gRPC interceptor, the HTTP middleware, the collector of pool
  statistics) and the wiring of \<open>cmd/vector-sync/main.go\<close>, which registers the handlers on the
  repositories of one pool and warms the cache in the background.
\<close>

section \<open>Connecting\<close>

text \<open>The environment is a parameter, as are \<open>sql.Open\<close> and the pool behind it.\<close>

definition dbURL :: "(string \<Rightarrow> string) \<Rightarrow> string" where
  "dbURL getenv =
     (if getenv ''DB_URL'' \<noteq> [] then getenv ''DB_URL''
      else
        let host = (if getenv ''DB_HOST'' = [] then ''localhost'' else getenv ''DB_HOST'');
            port = (if getenv ''DB_PORT'' = [] then ''5432'' else getenv ''DB_PORT'')
        in fmt_Sprintf ''postgres://%s:%s@%s:%s/%s?sslmode=disable''
             [FStr (getenv ''DB_USER''), FStr (getenv ''DB_PASSWORD''), FStr host, FStr port, FStr (getenv ''DB_NAME'')])"

text \<open>Durations are seconds.\<close>

record pool_config =
  MaxOpenConns :: int
  MaxIdleConns :: int
  ConnMaxLifetime :: int
  ConnMaxIdleTime :: int

definition poolConfig :: pool_config where
  "poolConfig = \<lparr>MaxOpenConns = 50, MaxIdleConns = 25, ConnMaxLifetime = 10 * 60, ConnMaxIdleTime = 5 * 60\<rparr>"

definition Connect ::
  "(string \<Rightarrow> string) \<Rightarrow> (string \<Rightarrow> 'd driver result) \<Rightarrow> ('d pool, gerror, 'd driver \<times> pool_config) op" where
  "Connect getenv sql_Open =
     andThen (lift (sql_Open (dbURL getenv))) (\<lambda>drv.
     andThen (on_server (drv_Ping drv)) (\<lambda>_.
       ret (drv, poolConfig)))"

section \<open>Metrics of requests\<close>

text \<open>A gauge of running calls, and numbers of observations of two histograms by their labels.\<close>

record request_meters =
  RPCInflight :: "string \<Rightarrow> int"
  RPCDuration :: "string \<times> string \<Rightarrow> nat"
  HTTPDuration :: "string \<Rightarrow> nat"

definition rpc_begin :: "string \<Rightarrow> request_meters \<Rightarrow> request_meters" where
  "rpc_begin method m = m\<lparr>RPCInflight := (RPCInflight m)(method := RPCInflight m method + 1)\<rparr>"

definition rpc_end :: "string \<Rightarrow> string \<Rightarrow> request_meters \<Rightarrow> request_meters" where
  "rpc_end method code m =
     m\<lparr>RPCInflight := (RPCInflight m)(method := RPCInflight m method - 1),
       RPCDuration := bump (method, code) 1 (RPCDuration m)\<rparr>"

text \<open>The interceptor around a handler. The code of an error is given by the library
  (\<open>codeOf\<close>); a handler that panics leaves it without the second half.\<close>

definition UnaryServerInterceptor ::
  "(gerror \<Rightarrow> string) \<Rightarrow> string \<Rightarrow> ('w, gerror, 'a) op \<Rightarrow> (request_meters \<times> 'w, gerror, 'a) op" where
  "UnaryServerInterceptor codeOf method handler s =
     (case s of (m, w) \<Rightarrow>
        let m = rpc_begin method m in
        case handler w of
          (Ok x, w') \<Rightarrow> (Ok x, (rpc_end method ''OK'' m, w'))
        | (Err e, w') \<Rightarrow> (Err e, (rpc_end method (codeOf e) m, w'))
        | (Panic p, w') \<Rightarrow> (Panic p, (m, w'))
        | (Diverge, w') \<Rightarrow> (Diverge, (m, w')))"

text \<open>The recorder keeps the last status code written through it, 200 before any. The wrapped
  handler is given by the codes it writes.\<close>

definition WriteHeader :: "int \<Rightarrow> int \<Rightarrow> int" where
  "WriteHeader new_code recorded = new_code"

definition HTTPMiddleware :: "int list \<Rightarrow> request_meters \<Rightarrow> request_meters" where
  "HTTPMiddleware written m =
     m\<lparr>HTTPDuration := bump (strconv_Itoa (fold WriteHeader written 200)) 1 (HTTPDuration m)\<rparr>"

section \<open>Statistics of the pool\<close>

record DBStats =
  OpenConnections :: int
  InUse :: int
  Idle :: int
  WaitCount :: int
  WaitDuration :: int
  MaxIdleClosed :: int
  MaxLifetimeClosed :: int

datatype metric_kind = GaugeValue | CounterValue

text \<open>A value is an integer, or a duration in nanoseconds shown in seconds.\<close>

datatype metric_value = Number int | Seconds int

definition metric_name :: "string \<Rightarrow> string" where
  "metric_name name = ''vectorsync'' @ ''_'' @ ''db'' @ ''_'' @ name"

definition Describe :: "string list" where
  "Describe =
     map metric_name
       [''open_connections'', ''in_use_connections'', ''idle_connections'', ''wait_total'',
        ''wait_duration_seconds_total'', ''max_idle_closed_total'', ''max_lifetime_closed_total'']"

definition Collect :: "DBStats \<Rightarrow> (string \<times> metric_kind \<times> metric_value) list" where
  "Collect s =
     [(metric_name ''open_connections'', GaugeValue, Number (OpenConnections s)),
      (metric_name ''in_use_connections'', GaugeValue, Number (InUse s)),
      (metric_name ''idle_connections'', GaugeValue, Number (Idle s)),
      (metric_name ''wait_total'', CounterValue, Number (WaitCount s)),
      (metric_name ''wait_duration_seconds_total'', CounterValue, Seconds (WaitDuration s)),
      (metric_name ''max_idle_closed_total'', CounterValue, Number (MaxIdleClosed s)),
      (metric_name ''max_lifetime_closed_total'', CounterValue, Number (MaxLifetimeClosed s))]"

section \<open>Requests and responses\<close>

datatype 's request =
    CreateCollectionCall "'s CreateCollectionRequest"
  | ListCollectionsCall int int
  | ListCollectionCall string
  | DeleteCollectionCall string
  | CreateDocumentCall "'s CreateDocumentRequest"
  | IngestDocumentCall "'s IngestDocumentRequest"
  | UpsertDocumentCall "'s UpsertDocumentRequest"
  | ListDocumentsCall string int int bool
  | ListDocumentCall string
  | DeleteDocumentCall string
  | SearchDocumentsCall "'s SearchDocumentRequest"
  | FullTextSearchCall FullTextSearchRequest
  | BatchInsertCall string "'s CreateDocumentRequest list"
  | BatchDeleteCall string "string list"
  | HybridSearchCall "'s HybridSearchRequest"
  | HealthCheckCall string

datatype 's response =
    CollectionResponse "'s pb_Collection"
  | CollectionsResponse "'s pb_Collection list"
  | DeleteCollectionResponse "string \<times> int \<times> int"
  | CreateDocumentResponse "string \<times> int \<times> int"
  | IngestDocumentResponse "int \<times> string list"
  | UpsertDocumentResponse "string \<times> bool \<times> int \<times> int"
  | DocumentsResponse "'s pb_Document list"
  | DocumentResponse "'s pb_Document"
  | DeleteDocumentResponse "string \<times> int"
  | SearchResponse "('s pb_Document \<times> fp) list"
  | BatchResponse "string list \<times> int"
  | HealthCheckResponse ServingStatus

text \<open>The full name of a method, the label of its metrics.\<close>

fun FullMethod :: "'s request \<Rightarrow> string" where
  "FullMethod (CreateCollectionCall _) = ''/collection.CollectionService/CreateCollection''"
| "FullMethod (ListCollectionsCall _ _) = ''/collection.CollectionService/ListCollections''"
| "FullMethod (ListCollectionCall _) = ''/collection.CollectionService/ListCollection''"
| "FullMethod (DeleteCollectionCall _) = ''/collection.CollectionService/DeleteCollection''"
| "FullMethod (CreateDocumentCall _) = ''/document.DocumentService/CreateDocument''"
| "FullMethod (IngestDocumentCall _) = ''/document.DocumentService/IngestDocument''"
| "FullMethod (UpsertDocumentCall _) = ''/document.DocumentService/UpsertDocument''"
| "FullMethod (ListDocumentsCall _ _ _ _) = ''/document.DocumentService/ListDocuments''"
| "FullMethod (ListDocumentCall _) = ''/document.DocumentService/ListDocument''"
| "FullMethod (DeleteDocumentCall _) = ''/document.DocumentService/DeleteDocument''"
| "FullMethod (SearchDocumentsCall _) = ''/document.DocumentService/SearchDocuments''"
| "FullMethod (FullTextSearchCall _) = ''/document.DocumentService/FullTextSearch''"
| "FullMethod (BatchInsertCall _ _) = ''/document.DocumentService/BatchInsert''"
| "FullMethod (BatchDeleteCall _ _) = ''/document.DocumentService/BatchDelete''"
| "FullMethod (HybridSearchCall _) = ''/document.DocumentService/HybridSearch''"
| "FullMethod (HealthCheckCall _) = ''/health.HealthService/Check''"

section \<open>Wiring\<close>

text \<open>What surrounds the server: the protocol library, the driver, the order in which the
  serialising goroutines run, the network, and the clock's answer for this call.\<close>

record ('s, 'd, 'h) environment =
  structs_of :: "'s structs"
  driver_of :: "'d driver"
  schedule_of :: "nat \<Rightarrow> nat list"
  net_of :: "'h net"
  now_of :: int

definition responding :: "('a \<Rightarrow> 'b) \<Rightarrow> ('w, gerror, 'a) op \<Rightarrow> ('w, gerror, 'b) op" where
  "responding f m = andThen m (\<lambda>x. ret (f x))"

text \<open>The handlers as \<open>main\<close> builds them: both services on the repositories of one pool, the
  document service with the cache.\<close>

fun dispatch ::
  "('s, 'd, 'h) environment \<Rightarrow> 's request \<Rightarrow> (('d pool, 'h) world, gerror, 's response) op" where
  "dispatch env (CreateCollectionCall req) =
     responding CollectionResponse (on_store (Handler_CreateCollection (structs_of env) (NewCollectionRepo (driver_of env)) req))"
| "dispatch env (ListCollectionsCall limit offset) =
     responding CollectionsResponse (on_store (Handler_ListCollections (structs_of env) (NewCollectionRepo (driver_of env)) limit offset))"
| "dispatch env (ListCollectionCall i) =
     responding CollectionResponse (on_store (Handler_ListCollection (structs_of env) (NewCollectionRepo (driver_of env)) i))"
| "dispatch env (DeleteCollectionCall i) =
     responding DeleteCollectionResponse (on_store (Handler_DeleteCollection (NewCollectionRepo (driver_of env)) (now_of env) i))"
| "dispatch env (CreateDocumentCall req) =
     responding CreateDocumentResponse
       (Handler_CreateDocument (structs_of env) (NewDocumentRepo (driver_of env) (schedule_of env)) (NewCollectionRepo (driver_of env)) req)"
| "dispatch env (IngestDocumentCall req) =
     responding IngestDocumentResponse
       (Handler_IngestDocument (structs_of env) (NewDocumentRepo (driver_of env) (schedule_of env)) (NewCollectionRepo (driver_of env))
          (net_of env) req)"
| "dispatch env (UpsertDocumentCall req) =
     responding UpsertDocumentResponse
       (Handler_UpsertDocument (structs_of env) (NewDocumentRepo (driver_of env) (schedule_of env)) (NewCollectionRepo (driver_of env)) req)"
| "dispatch env (ListDocumentsCall i limit offset includeVector) =
     responding DocumentsResponse
       (Handler_ListDocuments (structs_of env) (NewDocumentRepo (driver_of env) (schedule_of env)) (NewCollectionRepo (driver_of env))
          i limit offset includeVector)"
| "dispatch env (ListDocumentCall i) =
     responding DocumentResponse (Handler_ListDocument (structs_of env) (NewDocumentRepo (driver_of env) (schedule_of env)) i)"
| "dispatch env (DeleteDocumentCall i) =
     responding DeleteDocumentResponse (Handler_DeleteDocument (NewDocumentRepo (driver_of env) (schedule_of env)) (now_of env) i)"
| "dispatch env (SearchDocumentsCall req) =
     responding SearchResponse
       (Handler_SearchDocuments (structs_of env) (NewDocumentRepo (driver_of env) (schedule_of env)) (NewCollectionRepo (driver_of env)) req)"
| "dispatch env (FullTextSearchCall req) =
     responding SearchResponse
       (Handler_FullTextSearch (structs_of env) (NewDocumentRepo (driver_of env) (schedule_of env)) (NewCollectionRepo (driver_of env)) req)"
| "dispatch env (BatchInsertCall i docs) =
     responding BatchResponse
       (Handler_BatchInsert (structs_of env) (NewDocumentRepo (driver_of env) (schedule_of env)) (NewCollectionRepo (driver_of env)) i docs)"
| "dispatch env (BatchDeleteCall i ids) =
     responding BatchResponse
       (Handler_BatchDelete (NewDocumentRepo (driver_of env) (schedule_of env)) (NewCollectionRepo (driver_of env)) i ids)"
| "dispatch env (HybridSearchCall req) =
     responding SearchResponse
       (Handler_HybridSearch (structs_of env) (NewDocumentRepo (driver_of env) (schedule_of env)) (NewCollectionRepo (driver_of env)) req)"
| "dispatch env (HealthCheckCall service) =
     responding HealthCheckResponse (on_store (Health_Check (Some (driver_of env)) service))"

text \<open>A call as the gRPC server runs it, through the interceptor.\<close>

definition serve ::
  "('s, 'd, 'h) environment \<Rightarrow> (gerror \<Rightarrow> string) \<Rightarrow> 's request \<Rightarrow>
     (request_meters \<times> ('d pool, 'h) world, gerror, 's response) op" where
  "serve env codeOf req = UnaryServerInterceptor codeOf (FullMethod req) (dispatch env req)"

text \<open>The steps of a running server: a call, a waiting goroutine of the repositories, or the
  goroutine that warms the cache. The schedule, the
  network and the clock may differ from step to step.\<close>

inductive server_step ::
  "'s structs \<Rightarrow> 'd driver \<Rightarrow> ('d pool, 'h) world \<Rightarrow> ('d pool, 'h) world \<Rightarrow> bool" for st drv where
  call: "structs_of env = st \<Longrightarrow> driver_of env = drv \<Longrightarrow> server_step st drv w (snd (dispatch env req w))"
| goroutine: "server_step st drv w (w\<lparr>store := run_goroutine drv i (store w)\<rparr>)"
| warm: "server_step st drv w (snd (WarmFromDB drv w))"

inductive_cases server_stepE: "server_step st drv w w'"

definition started :: "'d \<Rightarrow> 'h \<Rightarrow> ('d pool, 'h) world" where
  "started d h =
     \<lparr>store = \<lparr>server = d, goroutines = [], HNSWBuildDuration = 0, HNSWBuildErrors = 0\<rparr>, remote = h,
      cache = NewCollectionCache, meters = no_meters\<rparr>"

text \<open>Calls that overlap: each runs the first half of the interceptor when it comes and the
  second half when its handler returns, in any order.\<close>

record calls =
  request_meters_of :: request_meters
  running :: "string list"
  answered :: "string list"

inductive calls_step :: "calls \<Rightarrow> calls \<Rightarrow> bool" where
  begin_call: "calls_step s (s\<lparr>request_meters_of := rpc_begin method (request_meters_of s),
                               running := running s @ [method]\<rparr>)"
| end_call: "i < length (running s) \<Longrightarrow>
     calls_step s (s\<lparr>request_meters_of := rpc_end (running s ! i) code (request_meters_of s),
                     running := take i (running s) @ drop (Suc i) (running s),
                     answered := running s ! i # answered s\<rparr>)"

inductive_cases calls_stepE: "calls_step s s'"

definition no_calls :: calls where
  "no_calls = \<lparr>request_meters_of = \<lparr>RPCInflight = (\<lambda>_. 0), RPCDuration = (\<lambda>_. 0), HTTPDuration = (\<lambda>_. 0)\<rparr>,
     running = [], answered = []\<rparr>"

end
