(* ===== verification/Server_Facts.thy ===== *)
theory Server_Facts
  imports Server Service_Facts
begin

text \<open>
  Facts about the server as a whole: when the database driver returns from its calls, so does
  every request; and what every step of the server keeps.
\<close>

section \<open>Everything returns\<close>

text \<open>A driver whose calls neither panic nor hang.\<close>

definition safe_driver :: "'d driver \<Rightarrow> bool" where
  "safe_driver drv \<longleftrightarrow>
     (\<forall>q as. safe_op (drv_Query drv q as)) \<and>
     (\<forall>q as. safe_op (drv_Exec drv q as)) \<and> (\<forall>q as d r d'. drv_Exec drv q as d = (Ok r, d') \<longrightarrow> returns r) \<and>
     safe_op (drv_Begin drv) \<and> safe_op (drv_Commit drv) \<and> safe_op (drv_Ping drv)"

lemma safe_on_server: "safe_op m \<Longrightarrow> safe_op (on_server m)"
  by (auto simp: safe_op_def on_server_def split: prod.splits) (metis fst_conv)

lemma safe_spawn: "safe_op (spawn t)"
  by (simp add: spawn_def)

lemma returns_scans:
  "returns (scan_string v)" "returns (scan_NullString v)" "returns (scan_bytes v)" "returns (scan_int v)"
  "returns (scan_bool v)" "returns (scan_time v)" "returns (scan_float32 v)"
  by (cases v; simp; fail)+ (cases v rule: scan_float32.cases; auto split: fp.splits)

lemma returns_json: "returns (json_Marshal m)" "returns (json_Unmarshal j)"
  by (auto simp: json_Marshal_def split: option.splits) (cases j rule: json_Unmarshal.cases; simp)

lemma returns_parseParts: "returns (parseParts i ps)"
proof (induction ps arbitrary: i)
  case (Cons p ps)
  have p: "returns (ParseFloat32 (strings_TrimSpace p))"
    by (auto simp: ParseFloat32_def Let_def split: option.splits prod.splits fp.splits)
  then show ?case
    using Cons.IH [of "Suc i"]
    by (cases "ParseFloat32 (strings_TrimSpace p)"; cases "parseParts (Suc i) ps") simp_all
qed simp

lemma returns_stringToVector: "returns (stringToVector s)"
  by (simp add: stringToVector_def returns_parseParts Let_def)

lemmas returns_basic = returns_scans returns_json returns_stringToVector returns_chain

lemma returns_docColumns: "returns (docColumns row)"
  by (cases row rule: docColumns.cases) (auto intro!: returns_basic)

lemma returns_docColumnsV: "returns (docColumnsV row)"
  by (cases row rule: docColumnsV.cases) (auto intro!: returns_basic returns_docColumns split: prod.splits)

lemma returns_upsertColumns: "returns (upsertColumns row)"
  by (cases row rule: upsertColumns.cases) (auto intro!: returns_basic returns_docColumns simp del: docColumns.simps)

lemma returns_decodeMetadata: "returns (decodeMetadata r)"
  by (auto simp: decodeMetadata_def intro!: returns_basic split: prod.splits option.splits)

lemma returns_decodeVector: "returns (decodeVector r)"
  by (auto simp: decodeVector_def intro!: returns_basic split: prod.splits)

lemma returns_scanDocument: "returns (scanDocument iv row)"
  by (auto simp: scanDocument_def intro!: returns_chain returns_docColumns returns_docColumnsV
      returns_decodeMetadata returns_decodeVector)

lemma returns_scanResult: "returns (scanResult iv row)"
  by (auto simp: scanResult_def intro!: returns_chain returns_scans returns_docColumns returns_docColumnsV
      returns_decodeMetadata returns_decodeVector split: prod.splits)

lemma returns_scanColumns: "returns (scanColumns row)"
  by (cases row rule: scanColumns.cases) (auto intro!: returns_basic)

lemma returns_decodeSchema: "returns (decodeSchema r)"
  by (auto simp: decodeSchema_def intro!: returns_basic split: prod.splits option.splits)

lemma returns_scanCollection: "returns (scanCollection row)"
  by (auto simp: scanCollection_def intro!: returns_chain returns_scanColumns returns_decodeSchema)

lemma returns_scanCount: "returns (scanCount row)"
  by (cases row rule: scanCount.cases) (auto simp: returns_scans)

lemma returns_scan_rows: "(\<And>r. returns (scan r)) \<Longrightarrow> returns (scan_rows scan rs)"
  by (induction rs) (auto intro!: returns_chain)

lemma returns_collect_rows: "(\<And>r. returns (scan r)) \<Longrightarrow> returns (collect_rows scan wrap rs)"
  by (auto simp: collect_rows_def check_Err_def intro!: returns_chain returns_scan_rows split: option.splits)

lemma returns_first_row: "(\<And>r. returns (scan r)) \<Longrightarrow> returns (first_row scan rs)"
  by (auto simp: first_row_def intro!: returns_chain split: list.splits option.splits)

lemma returns_addFilters: "returns (addFilters kvs q args i)"
  by (induction kvs q args i rule: addFilters.induct) (auto intro!: returns_chain returns_json simp del: fmt_Sprintf.simps)

lemma returns_checkMarshal: "list_all (\<lambda>r. returns (snd r)) ps \<Longrightarrow> returns (checkMarshal i ps)"
  by (induction i ps rule: checkMarshal.induct) (auto intro!: returns_chain)

lemma safe_QueryRow:
  "safe_driver drv \<Longrightarrow> (\<And>r. returns (scan r)) \<Longrightarrow> safe_op (QueryRow drv q as scan)"
  by (auto simp: QueryRow_def safe_driver_def intro!: safe_andThen safe_on_server returns_first_row)

lemma safe_Query: "safe_driver drv \<Longrightarrow> safe_op (on_server (drv_Query drv q as))"
  by (simp add: safe_driver_def safe_on_server)

subsection \<open>Repositories\<close>

lemma safe_CollectionRepo:
  assumes "safe_driver drv"
  shows "safe_op (CollectionRepo_Create drv name dimn schema metric ep em)"
    and "safe_op (CollectionRepo_List drv limit offset)"
    and "safe_op (CollectionRepo_ListById drv i)"
    and "safe_op (CollectionRepo_DeleteById drv i)"
  using assms
  by (auto simp: CollectionRepo_Create_def CollectionRepo_List_def CollectionRepo_ListById_def oneCollection_def
      CollectionRepo_DeleteById_def Let_def returns_json returns_decodeSchema returns_scanCollection
      intro!: safe_andThen safe_QueryRow safe_spawn safe_Query returns_scanColumns returns_scanCount returns_scan_rows)

lemma safe_returnedDocument: "safe_op (returnedDocument r)"
  by (simp add: returnedDocument_def returns_decodeMetadata)

lemma safe_marshalMetadata: "safe_op (marshalMetadata m)"
  by (simp add: marshalMetadata_def returns_json)

lemma safe_runSearch: "safe_driver drv \<Longrightarrow> safe_op (runSearch drv iv stmt)"
  by (auto simp: runSearch_def intro!: safe_andThen safe_wrap safe_Query returns_collect_rows returns_scanResult)

lemma returns_searchQuery: "returns (searchQuery c v k f t iv m)"
  by (auto simp: searchQuery_def Let_def intro!: returns_chain returns_addFilters simp del: fmt_Sprintf.simps
      split: prod.splits)

lemma returns_hybridQuery: "returns (hybridQuery c text v k f vw tw iv m)"
  by (auto simp: hybridQuery_def intro!: returns_chain returns_addFilters split: prod.splits)

lemma safe_DocumentRepo_one:
  assumes "safe_driver drv"
  shows "safe_op (DocumentRepo_Create drv cid content vec md)"
    and "safe_op (DocumentRepo_Upsert drv did cid content vec md)"
    and "safe_op (DocumentRepo_List drv cid limit offset iv)"
    and "safe_op (DocumentRepo_GetById drv did)"
  using assms
  by (auto simp: DocumentRepo_Create_def DocumentRepo_Upsert_def DocumentRepo_List_def DocumentRepo_GetById_def
      Let_def returns_decodeVector returns_decodeMetadata
      intro!: safe_andThen safe_marshalMetadata safe_returnedDocument safe_wrap safe_QueryRow safe_Query
        returns_docColumns returns_docColumnsV returns_upsertColumns returns_collect_rows returns_scanDocument
      split: prod.splits)

lemma safe_DocumentRepo_DeleteById:
  assumes "safe_driver drv"
  shows "safe_op (DocumentRepo_DeleteById drv did)"
proof -
  have x: "safe_op (on_server (drv_Exec drv q as))" for q as
    using assms by (simp add: safe_driver_def safe_on_server)
  have "returns r" if "drv_Exec drv q as d = (Ok r, d')" for q as d r d'
    using assms that unfolding safe_driver_def by blast
  then have "returns r" if "on_server (drv_Exec drv q as) p = (Ok r, p')" for q as p r p'
    using that by (auto simp: on_server_def split: prod.splits)
  then show ?thesis
    unfolding DocumentRepo_DeleteById_def
    by (intro safe_andThen_Ok [OF x] safe_opD safe_andThen safe_if) simp_all
qed

lemma safe_DocumentRepo_search:
  assumes "safe_driver drv"
  shows "safe_op (DocumentRepo_Search drv cid v k f t iv m)"
    and "safe_op (DocumentRepo_FullTextSearch drv cid q limit r iv)"
    and "safe_op (DocumentRepo_HybridSearch drv cid qt v k f vw tw iv m)"
    and "safe_op (DocumentRepo_BatchDelete drv cid ids)"
  using assms
  by (auto simp: DocumentRepo_Search_def DocumentRepo_FullTextSearch_def DocumentRepo_HybridSearch_def
      DocumentRepo_BatchDelete_def returns_searchQuery returns_hybridQuery
      intro!: safe_andThen safe_runSearch safe_Query returns_collect_rows returns_scanDocument)

lemma serialize_returns:
  "list_all (\<lambda>r. returns (snd r)) prepped \<Longrightarrow> list_all (\<lambda>r. returns (snd r)) (fold (serialize docs) is prepped)"
proof (induction "is" arbitrary: prepped)
  case (Cons i "is")
  have "list_all (\<lambda>r. returns (snd r)) (serialize docs i prepped)"
    using Cons.prems set_update_subset_insert [of prepped i]
    by (fastforce simp: serialize_def returns_json list_all_iff)
  then show ?case using Cons.IH by simp
qed simp

lemma prepareBatch_returns: "list_all (\<lambda>r. returns (snd r)) (prepareBatch sched docs)"
  by (auto simp: prepareBatch_def Let_def intro!: serialize_returns) (simp_all add: list_all_iff)

lemma safe_batchBody:
  assumes "safe_driver drv"
  shows "safe_op (batchBody drv sched docs)"
proof -
  have x: "safe_op (on_server (drv_Exec drv q as))" for q as
    using assms by (simp add: safe_driver_def safe_on_server)
  have m: "returns (checkMarshal 0 (prepareBatch sched docs))"
    by (rule returns_checkMarshal [OF prepareBatch_returns])
  show ?thesis
    unfolding batchBody_def using assms
    by (auto simp: m intro!: safe_andThen safe_wrap x safe_Query returns_collect_rows returns_scanDocument
        split: prod.splits)
qed

lemma safe_DocumentRepo_BatchInsert:
  assumes "safe_driver drv"
  shows "safe_op (DocumentRepo_BatchInsert drv sched cid docs)"
proof -
  have b: "safe_op (on_server (drv_Begin drv))" and c: "safe_op (on_server (drv_Commit drv))"
    using assms by (simp_all add: safe_driver_def safe_on_server)
  show ?thesis
    unfolding DocumentRepo_BatchInsert_def
  proof (intro safe_andThen safe_wrap b, rule safe_opI)
    fix u p
    obtain r p' where r: "batchBody drv sched docs p = (r, p')" by fastforce
    have "returns r" using safe_opD [OF safe_batchBody [OF assms], of sched docs p] r by simp
    moreover have "returns (fst (andThen (wrap_error g (on_server (drv_Commit drv))) (\<lambda>_. ret x) p'))" for g x
      by (intro safe_opD safe_andThen safe_wrap c) simp
    ultimately show "returns (fst (case batchBody drv sched docs p of
         (Ok docs, p') \<Rightarrow>
           andThen (wrap_error (ErrWrap ''failed to commit batch insert: %w'' []) (on_server (drv_Commit drv)))
             (\<lambda>_. ret (int (length docs), docs)) p'
       | (Err e, p') \<Rightarrow> (Err e, p'\<lparr>server := drv_Rollback drv (server p')\<rparr>)
       | (Panic m, p') \<Rightarrow> (Panic m, p'\<lparr>server := drv_Rollback drv (server p')\<rparr>)
       | (Diverge, p') \<Rightarrow> (Diverge, p')))"
      by (cases r) (simp_all add: r)
  qed
qed

subsection \<open>Services\<close>

definition safe_collections :: "'d CollectionRepository \<Rightarrow> bool" where
  "safe_collections cr \<longleftrightarrow>
     (\<forall>name dimn schema metric ep em. safe_op (cr_Create cr name dimn schema metric ep em)) \<and>
     (\<forall>limit offset. safe_op (cr_List cr limit offset)) \<and>
     (\<forall>i. safe_op (cr_ListById cr i)) \<and> (\<forall>i. safe_op (cr_DeleteById cr i))"

definition safe_documents :: "'d DocumentRepository \<Rightarrow> bool" where
  "safe_documents dr \<longleftrightarrow>
     (\<forall>c t v m. safe_op (dr_Create dr c t v m)) \<and> (\<forall>i c t v m. safe_op (dr_Upsert dr i c t v m)) \<and>
     (\<forall>c l f b. safe_op (dr_List dr c l f b)) \<and> (\<forall>i. safe_op (dr_GetById dr i)) \<and>
     (\<forall>i. safe_op (dr_DeleteById dr i)) \<and> (\<forall>c v k f t b m. safe_op (dr_Search dr c v k f t b m)) \<and>
     (\<forall>c q l r b. safe_op (dr_FullTextSearch dr c q l r b)) \<and> (\<forall>c ds. safe_op (dr_BatchInsert dr c ds)) \<and>
     (\<forall>c ids. safe_op (dr_BatchDelete dr c ids)) \<and>
     (\<forall>c q v k f x y b m. safe_op (dr_HybridSearch dr c q v k f x y b m))"

lemma safe_NewCollectionRepo: "safe_driver drv \<Longrightarrow> safe_collections (NewCollectionRepo drv)"
  by (simp add: safe_collections_def NewCollectionRepo_def safe_CollectionRepo)

lemma safe_NewDocumentRepo: "safe_driver drv \<Longrightarrow> safe_documents (NewDocumentRepo drv sched)"
  by (simp add: safe_documents_def NewDocumentRepo_def safe_DocumentRepo_one safe_DocumentRepo_DeleteById
      safe_DocumentRepo_search safe_DocumentRepo_BatchInsert)

lemma safe_lookup: "safe_collections cr \<Longrightarrow> safe_op (getCollectionInfo cr i)"
  by (simp add: safe_collections_def safe_getInfo)

text \<open>The calls of a repository inside a service.\<close>

lemma safe_store_calls:
  assumes "safe_documents dr"
  shows "safe_op (on_store (dr_Create dr c t v m))" "safe_op (on_store (dr_Upsert dr i c t v m))"
    "safe_op (on_store (dr_List dr c l f b))" "safe_op (on_store (dr_GetById dr i))"
    "safe_op (on_store (dr_DeleteById dr i))" "safe_op (on_store (dr_Search dr c v k f' t' b m'))"
    "safe_op (on_store (dr_FullTextSearch dr c q l r b))" "safe_op (on_store (dr_BatchInsert dr c ds))"
    "safe_op (on_store (dr_BatchDelete dr c ids))" "safe_op (on_store (dr_HybridSearch dr c q v k f' x y b m'))"
  using assms by (simp_all add: safe_documents_def safe_on_store)

lemmas safe_parts = safe_andThen safe_handle safe_wrap safe_lookup safe_checkVector safe_store_calls

lemma safe_document_service:
  assumes "safe_documents dr" and "safe_collections cr"
  shows "safe_op (CreateDocument dr cr cid t v m)"
    and "safe_op (UpsertDocument dr cr did cid t v m)"
    and "safe_op (ListDocuments dr cr cid limit offset iv)"
    and "safe_op (GetDocument dr did)"
    and "safe_op (DeleteDocument dr did)"
  using assms
  by (auto simp: CreateDocument_def UpsertDocument_def ListDocuments_def GetDocument_def DeleteDocument_def Let_def
      intro!: safe_parts)

lemma safe_search_service:
  assumes "safe_documents dr" and "safe_collections cr"
  shows "safe_op (SearchDocuments dr cr cid v k f t iv)"
    and "safe_op (FullTextSearchDocuments dr cr cid q limit r iv)"
    and "safe_op (HybridSearchDocuments dr cr cid q v k f vw tw iv)"
    and "safe_op (BatchDelete dr cr cid ids)"
  using assms
  by (auto simp: SearchDocuments_def FullTextSearchDocuments_def HybridSearchDocuments_def BatchDelete_def Let_def
      safe_topK safe_weights intro!: safe_parts)

lemma safe_batch_service:
  assumes "safe_documents dr" and "safe_collections cr"
  shows "safe_op (BatchInsert dr cr cid docs)" and "safe_op (IngestDocument dr cr net cid t m config)"
proof -
  have c: "safe_op (cr_ListById cr cid)" and d: "\<And>ds. safe_op (dr_BatchInsert dr cid ds)"
    using assms by (simp_all add: safe_documents_def safe_collections_def)
  show "safe_op (BatchInsert dr cr cid docs)" by (rule safe_BatchInsert [OF c d])
  obtain cs where "Chunk (GetChunker (Strategy config)) t (ChunkSize config) (ChunkOverlap config) = Some cs"
    using chunker.total by blast
  then show "safe_op (IngestDocument dr cr net cid t m config)"
    unfolding IngestDocument_def
    by (auto simp: Let_def intro!: safe_andThen safe_getEmbeddingInfo safe_ingestChunks c d)
qed

lemma safe_collection_service:
  assumes "safe_collections cr"
  shows "safe_op (CreateCollection cr name dimn schema metric ep em)" "safe_op (ListCollections cr limit offset)"
    "safe_op (ListCollection cr i)" "safe_op (DeleteCollection cr i)"
  using assms
  by (auto simp: safe_collections_def CreateCollection_def ListCollections_def ListCollection_def DeleteCollection_def
      Let_def intro!: safe_handle)

lemma safe_Health: "safe_driver drv \<Longrightarrow> safe_op (Health_Check (Some drv) service)"
  by (auto simp: Health_Check_def CheckReadiness_def CheckLiveness_def safe_driver_def
      intro!: safe_handle safe_andThen safe_on_server)

subsection \<open>Requests\<close>

lemma safe_responding: "safe_op m \<Longrightarrow> safe_op (responding f m)"
  by (auto simp: responding_def intro!: safe_andThen)

lemma safe_dispatch:
  assumes "safe_driver (driver_of env)"
  shows "safe_op (dispatch env req)"
proof -
  have c: "safe_collections (NewCollectionRepo (driver_of env))" by (rule safe_NewCollectionRepo [OF assms])
  have d: "safe_documents (NewDocumentRepo (driver_of env) (schedule_of env))" by (rule safe_NewDocumentRepo [OF assms])
  note services = safe_document_service [OF d c] safe_search_service [OF d c] safe_batch_service [OF d c]
    safe_collection_service [OF c] safe_Health [OF assms]
  show ?thesis
    by (cases req)
       (auto simp: Handler_CreateCollection_def Handler_ListCollections_def Handler_ListCollection_def
         Handler_DeleteCollection_def Handler_CreateDocument_def Handler_IngestDocument_def Handler_UpsertDocument_def
         Handler_ListDocuments_def Handler_ListDocument_def Handler_DeleteDocument_def Handler_SearchDocuments_def
         Handler_FullTextSearch_def Handler_BatchInsert_def Handler_BatchDelete_def Handler_HybridSearch_def Let_def
         intro!: safe_responding safe_on_store safe_andThen services)
qed

section \<open>What every step keeps\<close>

text \<open>The waiting goroutines are statements on the index of some collection, for one of the
  three operator classes.\<close>

fun index_task :: "task \<Rightarrow> bool" where
  "index_task (BuildIndex q) =
     (\<exists>i ops. ops \<in> {''vector_l2_ops'', ''vector_ip_ops'', ''vector_cosine_ops''} \<and> q = indexQuery i ops)"
| "index_task (DropIndex q) = (\<exists>i. q = dropIndexQuery i)"

definition tasks_ok :: "'d pool \<Rightarrow> bool" where
  "tasks_ok p \<longleftrightarrow> list_all index_task (goroutines p)"

definition cache_ok :: "cache \<Rightarrow> bool" where
  "cache_ok c \<longleftrightarrow> (\<forall>info\<in>ran c. is_int32 (ci_dimension info))"

definition server_ok :: "('d pool, 'h) world \<Rightarrow> bool" where
  "server_ok w \<longleftrightarrow> cache_ok (cache w) \<and> tasks_ok (store w)"

lemma cache_ok_Insert: "cache_ok c \<Longrightarrow> is_int32 d \<Longrightarrow> cache_ok (cache_Insert i d m p e c)"
  by (auto simp: cache_ok_def cache_Insert_def ran_def)

lemma preserves_on_server [preserves_intros]: "preserves tasks_ok (on_server m)"
  by (auto simp: preserves_def tasks_ok_def)

lemma preserves_spawn: "index_task t \<Longrightarrow> preserves tasks_ok (spawn t)"
  by (auto simp: preserves_def tasks_ok_def spawn_run)

lemma preserves_QueryRow [preserves_intros]: "preserves tasks_ok (QueryRow drv q as scan)"
  by (auto simp: preserves_def tasks_ok_def)

lemma opsClass_cases: "distanceMetricOpsClass m \<in> {''vector_l2_ops'', ''vector_ip_ops'', ''vector_cosine_ops''}"
  by (simp add: distanceMetricOpsClass_def)

lemma build_task: "index_task (BuildIndex (indexQuery i (distanceMetricOpsClass m)))"
  unfolding index_task.simps using opsClass_cases by blast

lemma drop_task: "index_task (DropIndex (dropIndexQuery i))"
  by auto

lemma tasks_CollectionRepo:
  "preserves tasks_ok (CollectionRepo_Create drv name dimn schema metric ep em)"
  "preserves tasks_ok (CollectionRepo_List drv limit offset)"
  "preserves tasks_ok (CollectionRepo_ListById drv i)"
  "preserves tasks_ok (CollectionRepo_DeleteById drv i)"
  unfolding CollectionRepo_Create_def CollectionRepo_List_def CollectionRepo_ListById_def oneCollection_def
    CollectionRepo_DeleteById_def Let_def
  by (intro preserves_intros preserves_spawn build_task drop_task)+

lemma tasks_one:
  "preserves tasks_ok (DocumentRepo_Create drv cid content vec md)"
  "preserves tasks_ok (DocumentRepo_List drv cid limit offset iv)"
  "preserves tasks_ok (DocumentRepo_GetById drv did)"
  "preserves tasks_ok (DocumentRepo_DeleteById drv did)"
  unfolding DocumentRepo_Create_def DocumentRepo_List_def DocumentRepo_GetById_def DocumentRepo_DeleteById_def
    Let_def marshalMetadata_def returnedDocument_def
  by (intro preserves_intros)+

lemma tasks_Upsert: "preserves tasks_ok (DocumentRepo_Upsert drv did cid content vec md)"
  unfolding DocumentRepo_Upsert_def Let_def marshalMetadata_def returnedDocument_def
  by (auto intro!: preserves_intros split: prod.splits)

lemma tasks_search:
  "preserves tasks_ok (DocumentRepo_Search drv cid v k f t iv m)"
  "preserves tasks_ok (DocumentRepo_FullTextSearch drv cid q limit r iv)"
  "preserves tasks_ok (DocumentRepo_HybridSearch drv cid qt v k f vw tw iv m)"
  "preserves tasks_ok (DocumentRepo_BatchDelete drv cid ids)"
  unfolding DocumentRepo_Search_def DocumentRepo_FullTextSearch_def DocumentRepo_HybridSearch_def
    DocumentRepo_BatchDelete_def runSearch_def
  by (intro preserves_intros)+

lemma tasks_BatchInsert:
  fixes drv :: "'d driver"
  shows "preserves tasks_ok (DocumentRepo_BatchInsert drv sched cid docs)"
proof -
  have b: "preserves tasks_ok (batchBody drv sched docs)"
    unfolding batchBody_def by (auto intro!: preserves_intros split: prod.splits)
  have c: "preserves tasks_ok (andThen (wrap_error g (on_server (drv_Commit drv))) (\<lambda>_. ret x))" for g x
    by (intro preserves_intros)
  show ?thesis
    unfolding DocumentRepo_BatchInsert_def
  proof (intro preserves_andThen preserves_wrap preserves_on_server, rule preservesI)
    fix u and p :: "'d pool" assume "tasks_ok p"
    moreover obtain r p' where r: "batchBody drv sched docs p = (r, p')" by fastforce
    ultimately have p': "tasks_ok p'" using preservesD [OF b, of p] by simp
    then have "tasks_ok (p'\<lparr>server := s\<rparr>)" for s by (simp add: tasks_ok_def)
    moreover have "tasks_ok (snd (andThen (wrap_error g (on_server (drv_Commit drv))) (\<lambda>_. ret x) p'))" for g x
      by (rule preservesD [OF c p'])
    ultimately show "tasks_ok (snd (case batchBody drv sched docs p of
         (Ok docs, p') \<Rightarrow>
           andThen (wrap_error (ErrWrap ''failed to commit batch insert: %w'' []) (on_server (drv_Commit drv)))
             (\<lambda>_. ret (int (length docs), docs)) p'
       | (Err e, p') \<Rightarrow> (Err e, p'\<lparr>server := drv_Rollback drv (server p')\<rparr>)
       | (Panic m, p') \<Rightarrow> (Panic m, p'\<lparr>server := drv_Rollback drv (server p')\<rparr>)
       | (Diverge, p') \<Rightarrow> (Diverge, p')))"
      using p' by (cases r) (simp_all add: r)
  qed
qed

end
