(* ===== verification/Server_Properties.thy ===== *)
theory Server_Properties
  imports Server_Facts Service_Properties
begin

text \<open>
  The properties of the running server: no request takes it down, what holds in every state
  that it can reach, and that the gauges of its metrics are exact.
\<close>

section \<open>Requests keep the invariant\<close>

definition keeps_collections :: "('d \<Rightarrow> bool) \<Rightarrow> 'd CollectionRepository \<Rightarrow> bool" where
  "keeps_collections I cr \<longleftrightarrow>
     (\<forall>name dimn schema metric ep em. preserves I (cr_Create cr name dimn schema metric ep em)) \<and>
     (\<forall>limit offset. preserves I (cr_List cr limit offset)) \<and>
     (\<forall>i. preserves I (cr_ListById cr i)) \<and> (\<forall>i. preserves I (cr_DeleteById cr i))"

definition keeps_documents :: "('d \<Rightarrow> bool) \<Rightarrow> 'd DocumentRepository \<Rightarrow> bool" where
  "keeps_documents I dr \<longleftrightarrow>
     (\<forall>c t v m. preserves I (dr_Create dr c t v m)) \<and> (\<forall>i c t v m. preserves I (dr_Upsert dr i c t v m)) \<and>
     (\<forall>c l f b. preserves I (dr_List dr c l f b)) \<and> (\<forall>i. preserves I (dr_GetById dr i)) \<and>
     (\<forall>i. preserves I (dr_DeleteById dr i)) \<and> (\<forall>c v k f t b m. preserves I (dr_Search dr c v k f t b m)) \<and>
     (\<forall>c q l r b. preserves I (dr_FullTextSearch dr c q l r b)) \<and> (\<forall>c ds. preserves I (dr_BatchInsert dr c ds)) \<and>
     (\<forall>c ids. preserves I (dr_BatchDelete dr c ids)) \<and>
     (\<forall>c q v k f x y b m. preserves I (dr_HybridSearch dr c q v k f x y b m))"

lemma keeps_NewCollectionRepo: "keeps_collections tasks_ok (NewCollectionRepo drv)"
  by (simp add: keeps_collections_def NewCollectionRepo_def tasks_CollectionRepo)

lemma keeps_NewDocumentRepo: "keeps_documents tasks_ok (NewDocumentRepo drv sched)"
  by (simp add: keeps_documents_def NewDocumentRepo_def tasks_one tasks_Upsert tasks_search tasks_BatchInsert)

lemma ok_on_store: "preserves tasks_ok m \<Longrightarrow> preserves server_ok (on_store m)"
  by (rule preserves_on_store) (auto simp: server_ok_def dest: preservesD)

lemma ok_on_remote [preserves_intros]: "preserves server_ok (on_remote m)"
  by (rule preserves_on_remote) (simp add: server_ok_def)

lemma ok_counts [preserves_intros]:
  "preserves server_ok (countChunks s n)" "preserves server_ok (countEmbed pr st)" "preserves server_ok (GetInfo i)"
  by (auto simp: preserves_def countChunks_def countEmbed_def count_def update_def server_ok_def GetInfo_run)

lemma ok_fetch:
  assumes "keeps_collections tasks_ok cr"
  shows "preserves server_ok (fetchCollection cr i)"
proof -
  have "preserves server_ok (update (\<lambda>w. w\<lparr>cache := cache_Insert i (to_int32 d) m p e (cache w)\<rparr>))" for d m p e
    by (rule preserves_update) (simp add: server_ok_def cache_ok_Insert is_int32_to_int32)
  moreover have "preserves server_ok (on_store (cr_ListById cr i))"
    using assms by (simp add: keeps_collections_def ok_on_store)
  ultimately show ?thesis
    unfolding fetchCollection_def
    by (intro preserves_handle preserves_andThen preserves_if preserves_prims) simp_all
qed

lemma ok_lookup:
  assumes "keeps_collections tasks_ok cr"
  shows "preserves server_ok (getCollectionInfo cr i)" and "preserves server_ok (getCollectionEmbeddingInfo cr i)"
  unfolding getCollectionInfo_def getCollectionEmbeddingInfo_def
  by (auto intro!: preserves_intros ok_fetch [OF assms] split: prod.splits)

lemma ok_checkVector [preserves_intros]: "preserves server_ok (checkVector what i xs)"
  by (induction xs arbitrary: i) (auto intro: preserves_intros)

lemma ok_store_calls:
  assumes "keeps_documents tasks_ok dr"
  shows "preserves server_ok (on_store (dr_Create dr c t v m))" "preserves server_ok (on_store (dr_Upsert dr i c t v m))"
    "preserves server_ok (on_store (dr_List dr c l f b))" "preserves server_ok (on_store (dr_GetById dr i))"
    "preserves server_ok (on_store (dr_DeleteById dr i))" "preserves server_ok (on_store (dr_Search dr c v k f' t' b m'))"
    "preserves server_ok (on_store (dr_FullTextSearch dr c q l r b))" "preserves server_ok (on_store (dr_BatchInsert dr c ds))"
    "preserves server_ok (on_store (dr_BatchDelete dr c ids))"
    "preserves server_ok (on_store (dr_HybridSearch dr c q v k f' x y b m'))"
  using assms by (simp_all add: keeps_documents_def ok_on_store)

lemma ok_document_service:
  assumes "keeps_documents tasks_ok dr" and "keeps_collections tasks_ok cr"
  shows "preserves server_ok (CreateDocument dr cr cid t v m)"
    and "preserves server_ok (UpsertDocument dr cr did cid t v m)"
    and "preserves server_ok (ListDocuments dr cr cid limit offset iv)"
    and "preserves server_ok (GetDocument dr did)"
    and "preserves server_ok (DeleteDocument dr did)"
  using assms
  by (auto simp: CreateDocument_def UpsertDocument_def ListDocuments_def GetDocument_def DeleteDocument_def Let_def
      intro!: preserves_intros ok_lookup ok_store_calls split: prod.splits)

lemma ok_search_service:
  assumes "keeps_documents tasks_ok dr" and "keeps_collections tasks_ok cr"
  shows "preserves server_ok (SearchDocuments dr cr cid v k f t iv)"
    and "preserves server_ok (FullTextSearchDocuments dr cr cid q limit r iv)"
    and "preserves server_ok (HybridSearchDocuments dr cr cid q v k f vw tw iv)"
    and "preserves server_ok (BatchDelete dr cr cid ids)"
  using assms
  by (auto simp: SearchDocuments_def FullTextSearchDocuments_def HybridSearchDocuments_def BatchDelete_def Let_def
      intro!: preserves_intros ok_lookup ok_store_calls split: prod.splits)

lemma ok_batch_service:
  assumes "keeps_documents tasks_ok dr" and "keeps_collections tasks_ok cr"
  shows "preserves server_ok (BatchInsert dr cr cid docs)"
  using assms
  by (auto simp: BatchInsert_def intro!: preserves_intros ok_lookup ok_store_calls split: prod.splits option.splits)

lemma ok_ingest:
  assumes "keeps_documents tasks_ok dr" and "keeps_collections tasks_ok cr"
  shows "preserves server_ok (IngestDocument dr cr net cid t m config)"
proof -
  have "preserves server_ok (ingestChunks dr cr net cid m' s p mo chunks)" for m' s p mo chunks
    unfolding ingestChunks_def
    by (auto intro!: preserves_intros ok_lookup ok_batch_service assms split: prod.splits)
  then show ?thesis
    unfolding IngestDocument_def
    by (auto simp: Let_def intro!: preserves_intros ok_lookup assms split: prod.splits option.splits)
qed

lemma tasks_collection_service:
  assumes "keeps_collections tasks_ok cr"
  shows "preserves tasks_ok (CreateCollection cr name dimn schema metric ep em)"
    and "preserves tasks_ok (ListCollections cr limit offset)"
    and "preserves tasks_ok (ListCollection cr i)" and "preserves tasks_ok (DeleteCollection cr i)"
  using assms
  by (auto simp: keeps_collections_def CreateCollection_def ListCollections_def ListCollection_def DeleteCollection_def
      Let_def intro!: preserves_intros)

lemma tasks_Health: "preserves tasks_ok (Health_Check db service)"
  by (auto simp: Health_Check_def CheckReadiness_def CheckLiveness_def intro!: preserves_intros split: option.splits)

lemma ok_dispatch: "preserves server_ok (dispatch env req)"
proof -
  note c = keeps_NewCollectionRepo [of "driver_of env"]
  note d = keeps_NewDocumentRepo [of "driver_of env" "schedule_of env"]
  note services = ok_document_service [OF d c] ok_search_service [OF d c] ok_batch_service [OF d c]
    ok_ingest [OF d c] tasks_collection_service [OF c] tasks_Health
  show ?thesis
    by (cases req)
       (auto simp: responding_def Handler_CreateCollection_def Handler_ListCollections_def Handler_ListCollection_def
         Handler_DeleteCollection_def Handler_CreateDocument_def Handler_IngestDocument_def Handler_UpsertDocument_def
         Handler_ListDocuments_def Handler_ListDocument_def Handler_DeleteDocument_def Handler_SearchDocuments_def
         Handler_FullTextSearch_def Handler_BatchInsert_def Handler_BatchDelete_def Handler_HybridSearch_def Let_def
         intro!: preserves_intros ok_on_store services split: prod.splits)
qed

lemma ok_goroutine: "server_ok w \<Longrightarrow> server_ok (w\<lparr>store := run_goroutine drv i (store w)\<rparr>)"
proof -
  assume "server_ok w"
  moreover have "list_all index_task (take i ts @ drop (Suc i) ts)" if "list_all index_task ts" for ts
    using that by (auto simp: list_all_iff dest: in_set_takeD in_set_dropD)
  ultimately show ?thesis by (simp add: server_ok_def tasks_ok_def run_goroutine_def)
qed

lemma warmRows_ok: "cache_ok c \<Longrightarrow> warmRows rows c = (r, c') \<Longrightarrow> cache_ok c'"
proof (induction rows arbitrary: c)
  case (Cons row rows)
  show ?case
  proof (cases "scanWarm row")
    case (Ok x)
    obtain i d m p e where x: "x = (i, d, m, p, e)" by (cases x) auto
    have "is_int32 d"
      using Ok unfolding x by (cases row rule: scanWarm.cases) (auto elim!: scan_int32.elims split: if_splits)
    then show ?thesis using Cons Ok x by (auto intro: cache_ok_Insert)
  qed (use Cons.prems in auto)
qed simp

lemma ok_warm: "preserves server_ok (WarmFromDB drv)"
  unfolding WarmFromDB_def
proof (intro preserves_andThen ok_on_store preserves_on_server, rule preservesI)
  fix rs :: rows and w :: "('a pool, 'b) world" assume w: "server_ok w"
  obtain r c where "warmRows (row_list rs) (cache w) = (r, c)" by fastforce
  then show "server_ok (snd (case warmRows (row_list rs) (cache w) of
         (r, c) \<Rightarrow> (chain r (\<lambda>_. check_Err (\<lambda>e. e) rs), w\<lparr>cache := c\<rparr>)))"
    using w warmRows_ok [of "cache w"] by (simp add: server_ok_def)
qed

lemma server_step_ok: "server_step st drv w w' \<Longrightarrow> server_ok w \<Longrightarrow> server_ok w'"
  by (erule server_stepE) (auto intro: preservesD [OF ok_dispatch] preservesD [OF ok_warm] ok_goroutine)

lemma started_ok: "server_ok (started d h)"
  by (simp add: server_ok_def started_def cache_ok_def tasks_ok_def NewCollectionCache_def)

lemma reachable_ok: "(server_step st drv)\<^sup>*\<^sup>* (started d h) w \<Longrightarrow> server_ok w"
  by (induction rule: rtranclp_induct) (auto intro: started_ok server_step_ok)

section \<open>Properties\<close>

text \<open>C3 No request makes the server panic or hang, whatever the client sends and however the
  embedding provider answers, as long as the database driver returns from its calls; this
  includes the metrics around the call.\<close>

theorem no_request_takes_the_server_down:
  assumes "safe_driver (driver_of env)"
  shows "returns (fst (serve env codeOf req (m, w)))"
proof -
  obtain r w' where r: "dispatch env req w = (r, w')" by fastforce
  have "returns r" using safe_opD [OF safe_dispatch [OF assms], of req w] r by simp
  then show ?thesis by (cases r) (simp_all add: serve_def UnaryServerInterceptor_def Let_def r)
qed

definition demo_env :: "((string \<times> jval) list, nat \<times> nat option, unit) environment" where
  "demo_env = \<lparr>structs_of = \<lparr>AsMap = (\<lambda>s. s), NewStruct = Some\<rparr>, driver_of = snapshot_driver,
     schedule_of = (\<lambda>n. [0 ..< n]), net_of = demo_net, now_of = 0\<rparr>"

lemma snapshot_safe: "safe_driver snapshot_driver"
  by (auto simp: safe_driver_def snapshot_driver_def safe_op_def ret_def)

lemma no_request_takes_the_server_down_witness:
  "returns (fst (serve demo_env (\<lambda>_. ''Unknown'') (HybridSearchCall
     \<lparr>hs_CollectionId = ''c'', hs_QueryVector = [NaN], hs_QueryText = [], hs_TopK = - 3, hs_VectorWeight = NaN,
      hs_TextWeight = Inf True, hs_IncludeVector = True, hs_Metadata = Some [(''k'', [])]\<rparr>)
     (request_meters_of no_calls, started (0, None) ())))"
  by (rule no_request_takes_the_server_down) (simp add: demo_env_def snapshot_safe)



lemma count_list_remove:
  assumes "i < length xs"
  shows "count_list xs m = count_list (take i xs @ drop (Suc i) xs) m + (if xs ! i = m then 1 else 0)"
proof -
  have "count_list xs m = count_list (take i xs @ xs ! i # drop (Suc i) xs) m"
    using assms by (simp add: id_take_nth_drop [symmetric])
  then show ?thesis by simp
qed

definition gauge_exact :: "calls \<Rightarrow> bool" where
  "gauge_exact s \<longleftrightarrow> (\<forall>m. RPCInflight (request_meters_of s) m = int (count_list (running s) m))"

lemma calls_step_gauge: "calls_step s s' \<Longrightarrow> gauge_exact s \<Longrightarrow> gauge_exact s'"
proof (erule calls_stepE)
  fix name
  assume "gauge_exact s" "s' = s\<lparr>request_meters_of := rpc_begin name (request_meters_of s), running := running s @ [name]\<rparr>"
  then show "gauge_exact s'" by (simp add: gauge_exact_def rpc_begin_def)
next
  fix i code
  assume "gauge_exact s" "i < length (running s)"
    "s' = s\<lparr>request_meters_of := rpc_end (running s ! i) code (request_meters_of s),
            running := take i (running s) @ drop (Suc i) (running s), answered := running s ! i # answered s\<rparr>"
  then show "gauge_exact s'"
    using count_list_remove [of i "running s"] by (auto simp: gauge_exact_def rpc_end_def simp del: count_list_append)
qed

lemma no_calls_gauge: "gauge_exact no_calls"
  by (simp add: gauge_exact_def no_calls_def)

lemma reachable_gauge: "calls_step\<^sup>*\<^sup>* no_calls s \<Longrightarrow> gauge_exact s"
  by (induction rule: rtranclp_induct) (auto intro: no_calls_gauge calls_step_gauge)



section \<open>Background work\<close>

text \<open>The steps in which the scheduler lets one of the waiting goroutines run, and how many of
  the waiting ones build an index.\<close>

inductive goroutine_step :: "'d driver \<Rightarrow> 'd pool \<Rightarrow> 'd pool \<Rightarrow> bool" for drv where
  run: "i < length (goroutines p) \<Longrightarrow> goroutine_step drv p (run_goroutine drv i p)"

inductive_simps goroutine_step_iff: "goroutine_step drv p p'"

definition builds :: "'d pool \<Rightarrow> nat" where
  "builds p = length (filter (\<lambda>t. case t of BuildIndex _ \<Rightarrow> True | DropIndex _ \<Rightarrow> False) (goroutines p))"

lemma run_task_meters:
  "HNSWBuildDuration (run_task drv t p) = HNSWBuildDuration p + (case t of BuildIndex _ \<Rightarrow> 1 | DropIndex _ \<Rightarrow> 0)"
  by (cases t) (auto simp: on_server_def split: prod.splits outcome.splits)

lemma goroutine_step_counts:
  fixes p :: "'d pool"
  assumes "goroutine_step drv p p'"
  shows "length (goroutines p) = Suc (length (goroutines p'))"
    and "HNSWBuildDuration p' + builds p' = HNSWBuildDuration p + builds p"
proof -
  from assms obtain i where i: "i < length (goroutines p)" "p' = run_goroutine drv i p" by (auto simp: goroutine_step_iff)
  then have g: "goroutines p' = take i (goroutines p) @ drop (Suc i) (goroutines p)" by (simp add: run_goroutine_removes)
  have split: "goroutines p = take i (goroutines p) @ goroutines p ! i # drop (Suc i) (goroutines p)"
    using i by (simp add: id_take_nth_drop)
  show "length (goroutines p) = Suc (length (goroutines p'))" using i g by simp
  have "builds p = builds p' + (case goroutines p ! i of BuildIndex _ \<Rightarrow> 1 | DropIndex _ \<Rightarrow> 0)"
    unfolding builds_def g by (subst split) (auto split: task.splits)
  then show "HNSWBuildDuration p' + builds p' = HNSWBuildDuration p + builds p"
    using i by (simp add: run_goroutine_def run_task_meters)
qed



end
