(* ===== verification/Frame.thy ===== *)
theory Frame
  imports Server_Properties
begin

text \<open>
  What stays as it is. A predicate on the database that survives every statement outside a set
  \<open>E\<close> of statements survives every operation of the repositories that sends none of \<open>E\<close>, the
  background tasks included, and every request built from such operations. The locale \<open>spared\<close> says which
  statements lie outside \<open>E\<close> for all arguments; it is interpreted for the statements that delete
  a collection and for those that can change one document.
\<close>

section \<open>Predicates on the pool\<close>

definition on_pool :: "('d \<Rightarrow> bool) \<Rightarrow> 'd pool \<Rightarrow> bool" where
  "on_pool P p = P (server p)"

lemma pool_on_server: "preserves P m \<Longrightarrow> preserves (on_pool P) (on_server m)"
  by (auto simp: preserves_def on_pool_def on_server_def split: prod.splits)

lemma pool_QueryRow: "preserves P (drv_Query drv q args) \<Longrightarrow> preserves (on_pool P) (QueryRow drv q args scan)"
  unfolding QueryRow_def by (intro preserves_intros pool_on_server)

lemma pool_spawn: "preserves (on_pool P) (spawn t)"
  by (auto simp: preserves_def on_pool_def spawn_run)

definition driver_spares :: "(string \<Rightarrow> sqlarg list \<Rightarrow> bool) \<Rightarrow> ('d \<Rightarrow> bool) \<Rightarrow> 'd driver \<Rightarrow> bool" where
  "driver_spares E P drv \<longleftrightarrow>
     (\<forall>q args. \<not> E q args \<longrightarrow> preserves P (drv_Query drv q args)) \<and>
     (\<forall>q args. \<not> E q args \<longrightarrow> preserves P (drv_Exec drv q args)) \<and> preserves P (drv_Begin drv) \<and> preserves P (drv_Commit drv) \<and>
     (\<forall>d. P d \<longrightarrow> P (drv_Rollback drv d)) \<and> preserves P (drv_Ping drv)"

lemma pool_driver:
  assumes "driver_spares E P drv"
  shows "\<not> E q args \<Longrightarrow> preserves (on_pool P) (on_server (drv_Query drv q args))"
    and "\<not> E q args \<Longrightarrow> preserves (on_pool P) (QueryRow drv q args scan)"
    and "\<not> E q args \<Longrightarrow> preserves (on_pool P) (on_server (drv_Exec drv q args))"
    and "preserves (on_pool P) (on_server (drv_Begin drv))"
    and "preserves (on_pool P) (on_server (drv_Commit drv))"
    and "preserves (on_pool P) (on_server (drv_Ping drv))"
    and "P (server p) \<Longrightarrow> P (drv_Rollback drv (server p))"
  using assms by (simp_all add: driver_spares_def pool_on_server pool_QueryRow)

section \<open>Arguments of statements\<close>

lemma addFilters_args:
  "addFilters kvs q args i = Ok (q', args', i') \<Longrightarrow> \<exists>more. args' = args @ more"
  by (induction kvs arbitrary: q args i) (auto, fastforce)

text \<open>The searches end with their limit, behind at least one argument.\<close>

lemma search_args:
  "searchQuery c v k f t iv m = Ok stmt \<Longrightarrow> \<exists>as. as \<noteq> [] \<and> snd stmt = as @ [AInt k]"
  "\<exists>as. as \<noteq> [] \<and> snd (fullTextQuery c qt limit r iv) = as @ [AInt limit]"
  "hybridQuery c qt v k f vw tw iv m = Ok stmt \<Longrightarrow> \<exists>as. as \<noteq> [] \<and> snd stmt = as @ [AInt k]"
  by (auto simp: searchQuery_def fullTextQuery_def hybridQuery_def hybridHead_def Let_def split: if_splits prod.splits
      dest!: addFilters_args)

lemma batchLoop_args: "length (snd (batchLoop n i docs q args)) = length args + 4 * length docs"
  by (induction n i docs q args rule: batchLoop.induct) (simp_all add: Let_def)

lemma batchQuery_args: "length (snd (batchQuery docs prepped)) = 4 * length (zip docs prepped)"
  using batchLoop_args [of "length docs" 0 "zip docs prepped"
      "''INSERT INTO documents (collection_id, vector, metadata, content) VALUES''" "[]"]
  by (simp add: batchQuery_def case_prod_beta)

lemma preserves_lift_then:
  "(\<And>x. r = Ok x \<Longrightarrow> preserves I (f x)) \<Longrightarrow> preserves I (andThen (lift r) f)"
  by (cases r) (auto simp: preserves_def andThen_def handle_def lift_def fail_def)

section \<open>Operations outside the set\<close>

locale spared =
  fixes E :: "string \<Rightarrow> sqlarg list \<Rightarrow> bool"
  assumes no_args: "\<not> E q []"
    and limited: "as \<noteq> [] \<Longrightarrow> \<not> E q (as @ [AInt n])"
    and by_id: "\<not> E documentById args" "\<not> E collectionById args"
    and one_insert: "\<not> E insertDocument args" "\<not> E insertCollection args"
    and fourfold: "4 dvd length args \<Longrightarrow> \<not> E q args"
begin

lemma two_limits: "\<not> E q [AInt m, AInt n]" "\<not> E q [AStr c, AInt m, AInt n]"
  using limited [of "[AInt m]" q n] limited [of "[AStr c, AInt m]" q n] by simp_all

lemmas outside = no_args two_limits by_id one_insert

lemma spared_collections:
  assumes "driver_spares E P drv"
  shows "preserves (on_pool P) (CollectionRepo_Create drv name dimn schema metric ep em)"
    and "preserves (on_pool P) (CollectionRepo_List drv limit offset)"
    and "preserves (on_pool P) (CollectionRepo_ListById drv i)"
  unfolding CollectionRepo_Create_def CollectionRepo_List_def CollectionRepo_ListById_def oneCollection_def Let_def
  by (intro preserves_intros pool_spawn pool_driver [OF assms] outside)+

lemma spared_documents:
  assumes "driver_spares E P drv"
  shows "preserves (on_pool P) (DocumentRepo_Create drv cid content vec md)"
    and "preserves (on_pool P) (DocumentRepo_List drv cid limit offset iv)"
    and "preserves (on_pool P) (DocumentRepo_GetById drv did)"
  unfolding DocumentRepo_Create_def DocumentRepo_List_def DocumentRepo_GetById_def Let_def marshalMetadata_def
    returnedDocument_def
  by (intro preserves_intros pool_driver [OF assms] outside)+

lemma spared_search:
  assumes "driver_spares E P drv"
  shows "preserves (on_pool P) (DocumentRepo_Search drv cid v k f t iv m)"
    and "preserves (on_pool P) (DocumentRepo_FullTextSearch drv cid qt limit r iv)"
    and "preserves (on_pool P) (DocumentRepo_HybridSearch drv cid qt v k f vw tw iv m)"
proof -
  have run: "preserves (on_pool P) (runSearch drv iv stmt)" if "\<exists>as. as \<noteq> [] \<and> snd stmt = as @ [AInt n]" for stmt n
  proof -
    have "\<not> E (fst stmt) (snd stmt)" using that limited by force
    then show ?thesis unfolding runSearch_def by (intro preserves_intros pool_driver [OF assms])
  qed
  show "preserves (on_pool P) (DocumentRepo_Search drv cid v k f t iv m)"
    "preserves (on_pool P) (DocumentRepo_FullTextSearch drv cid qt limit r iv)"
    "preserves (on_pool P) (DocumentRepo_HybridSearch drv cid qt v k f vw tw iv m)"
    unfolding DocumentRepo_Search_def DocumentRepo_FullTextSearch_def DocumentRepo_HybridSearch_def
    by (rule preserves_lift_then, erule run [OF search_args(1)])
       (rule run [OF search_args(2)], rule preserves_lift_then, erule run [OF search_args(3)])
qed

lemma spared_upsert:
  assumes "driver_spares E P drv" and "\<And>m. \<not> E upsertDocument [AStr did, AStr cid, AStr (vectorToString vec), AJson m, AStr content]"
  shows "preserves (on_pool P) (DocumentRepo_Upsert drv did cid content vec md)"
  unfolding DocumentRepo_Upsert_def Let_def marshalMetadata_def returnedDocument_def
  by (auto intro!: preserves_intros pool_driver [OF assms(1)] assms(2) split: prod.splits)

lemma spared_delete:
  assumes "driver_spares E P drv"
  shows "\<not> E deleteDocument [AStr did] \<Longrightarrow> preserves (on_pool P) (DocumentRepo_DeleteById drv did)"
    and "\<not> E batchDelete [AIds ids, AStr cid] \<Longrightarrow> preserves (on_pool P) (DocumentRepo_BatchDelete drv cid ids)"
    and "\<not> E deleteCollection [AStr cid] \<Longrightarrow> preserves (on_pool P) (CollectionRepo_DeleteById drv cid)"
  unfolding DocumentRepo_DeleteById_def DocumentRepo_BatchDelete_def CollectionRepo_DeleteById_def Let_def
  by (intro preserves_intros pool_spawn pool_driver [OF assms]; assumption?)+

lemma spared_batch:
  assumes "driver_spares E P drv"
  shows "preserves (on_pool P) (DocumentRepo_BatchInsert drv sched cid docs)"
proof -
  note keeps = pool_driver [OF assms]
  have "\<not> E (fst (batchQuery docs prepped)) (snd (batchQuery docs prepped))" for prepped
    by (rule fourfold) (simp add: batchQuery_args)
  then have q: "preserves (on_pool P) (case batchQuery docs prepped of (q, args) \<Rightarrow> on_server (drv_Query drv q args))" for prepped
    using keeps(1) by (simp add: case_prod_beta)
  have b: "preserves (on_pool P) (batchBody drv sched docs)"
    unfolding batchBody_def by (intro preserves_intros keeps q no_args)
  have c: "preserves (on_pool P) (andThen (wrap_error g (on_server (drv_Commit drv))) (\<lambda>_. ret x))" for g and x :: "int \<times> Document list"
    by (intro preserves_intros keeps)
  show ?thesis
    unfolding DocumentRepo_BatchInsert_def
  proof (intro preserves_andThen preserves_wrap keeps, rule preservesI)
    fix u and p :: "'a pool" assume "on_pool P p"
    moreover obtain r p' where r: "batchBody drv sched docs p = (r, p')" by fastforce
    ultimately have p': "on_pool P p'" using preservesD [OF b, of p] by simp
    then have "on_pool P (p'\<lparr>server := drv_Rollback drv (server p')\<rparr>)" using keeps(7) by (simp add: on_pool_def)
    with p' preservesD [OF c p'] show "on_pool P (snd (case batchBody drv sched docs p of
         (Ok docs, p') \<Rightarrow>
           andThen (wrap_error (ErrWrap ''failed to commit batch insert: %w'' []) (on_server (drv_Commit drv)))
             (\<lambda>_. ret (int (length docs), docs)) p'
       | (Err e, p') \<Rightarrow> (Err e, p'\<lparr>server := drv_Rollback drv (server p')\<rparr>)
       | (Panic m, p') \<Rightarrow> (Panic m, p'\<lparr>server := drv_Rollback drv (server p')\<rparr>)
       | (Diverge, p') \<Rightarrow> (Diverge, p')))"
      by (cases r) (simp_all add: r)
  qed
qed

lemma spared_task:
  assumes "driver_spares E P drv" and "on_pool P p"
  shows "on_pool P (run_task drv t p)"
proof -
  have "on_pool P (snd (on_server (drv_Exec drv q []) p))" for q
    by (rule preservesD [OF pool_driver(3) [OF assms(1) no_args] assms(2)])
  then have e: "P (server (snd (on_server (drv_Exec drv q []) p)))" for q by (simp add: on_pool_def)
  then have "on_server (drv_Exec drv q []) p = (r, p') \<Longrightarrow> P (server p')" for q r p'
    by (metis snd_conv)
  with e show ?thesis by (cases t) (auto simp: on_pool_def split: prod.splits outcome.splits)
qed

lemma spared_goroutine: "driver_spares E P drv \<Longrightarrow> on_pool P p \<Longrightarrow> on_pool P (run_goroutine drv i p)"
  unfolding run_goroutine_def by (auto intro!: spared_task) (simp_all add: on_pool_def)

end

section \<open>Services\<close>

text \<open>A store whose predicate \<open>Q\<close> survives every operation of the repositories but the three that
  change or delete documents by id and the deletion of a collection; for these each use says
  so itself.\<close>

definition store_holds :: "('d \<Rightarrow> bool) \<Rightarrow> ('d, 'h) world \<Rightarrow> bool" where
  "store_holds Q w = Q (store w)"

lemma holds_on_store: "preserves Q m \<Longrightarrow> preserves (store_holds Q) (on_store m)"
  by (auto simp: preserves_def store_holds_def on_store_def split: prod.splits)

lemma holds_elsewhere [preserves_intros]:
  "preserves (store_holds Q) (on_remote n)" "preserves (store_holds Q) (countChunks s k)"
  "preserves (store_holds Q) (countEmbed pr st)" "preserves (store_holds Q) (GetInfo i)"
  "preserves (store_holds Q) (update (\<lambda>w. w\<lparr>cache := f w\<rparr>))"
  by (auto simp: preserves_def store_holds_def on_remote_def countChunks_def countEmbed_def count_def update_def GetInfo_run
      split: prod.splits)

lemma holds_checkVector [preserves_intros]: "preserves (store_holds Q) (checkVector what i xs)"
  by (induction xs arbitrary: i) (auto intro: preserves_intros)

locale kept_store =
  fixes Q :: "'d \<Rightarrow> bool" and dr :: "'d DocumentRepository" and cr :: "'d CollectionRepository"
  assumes documents: "preserves Q (dr_Create dr c t v m)" "preserves Q (dr_List dr c l f b)" "preserves Q (dr_GetById dr i)"
      "preserves Q (dr_Search dr c v k md th b me)" "preserves Q (dr_FullTextSearch dr c q l r b)"
      "preserves Q (dr_BatchInsert dr c ds)" "preserves Q (dr_HybridSearch dr c q v k md x y b me)"
    and collections: "preserves Q (cr_Create cr name dimn schema metric ep em)" "preserves Q (cr_List cr l f)"
      "preserves Q (cr_ListById cr i)"
begin

lemma holds_lookup:
  "preserves (store_holds Q) (getCollectionInfo cr i)" "preserves (store_holds Q) (getCollectionEmbeddingInfo cr i)"
proof -
  have "preserves (store_holds Q) (fetchCollection cr i)"
    unfolding fetchCollection_def by (intro preserves_intros holds_on_store collections)
  then show "preserves (store_holds Q) (getCollectionInfo cr i)" "preserves (store_holds Q) (getCollectionEmbeddingInfo cr i)"
    unfolding getCollectionInfo_def getCollectionEmbeddingInfo_def by (auto intro!: preserves_intros split: prod.splits)
qed

lemmas holds_steps = preserves_intros holds_lookup holds_on_store documents collections

lemma holds_document_service:
  "preserves (store_holds Q) (CreateDocument dr cr cid t v m)"
  "preserves (store_holds Q) (ListDocuments dr cr cid limit offset iv)"
  "preserves (store_holds Q) (GetDocument dr did)"
  "preserves (store_holds Q) (BatchInsert dr cr cid docs)"
  by (auto simp: CreateDocument_def ListDocuments_def GetDocument_def BatchInsert_def Let_def
      intro!: holds_steps split: prod.splits option.splits)

lemma holds_search_service:
  "preserves (store_holds Q) (SearchDocuments dr cr cid v k f th iv)"
  "preserves (store_holds Q) (FullTextSearchDocuments dr cr cid q limit r iv)"
  "preserves (store_holds Q) (HybridSearchDocuments dr cr cid q v k f vw tw iv)"
  by (auto simp: SearchDocuments_def FullTextSearchDocuments_def HybridSearchDocuments_def Let_def
      intro!: holds_steps split: prod.splits)

lemma holds_ingest: "preserves (store_holds Q) (IngestDocument dr cr net cid t m config)"
proof -
  have "preserves (store_holds Q) (ingestChunks dr cr net cid m' s p mo chunks)" for m' s p mo chunks
    unfolding ingestChunks_def by (auto intro!: holds_steps holds_document_service split: prod.splits)
  then show ?thesis
    unfolding IngestDocument_def by (auto simp: Let_def intro!: holds_steps split: prod.splits option.splits)
qed

lemma holds_changing_service:
  "(\<And>t v m. preserves Q (dr_Upsert dr did cid t v m)) \<Longrightarrow> preserves (store_holds Q) (UpsertDocument dr cr did cid t v m)"
  "preserves Q (dr_DeleteById dr did) \<Longrightarrow> preserves (store_holds Q) (DeleteDocument dr did)"
  "preserves Q (dr_BatchDelete dr cid ids) \<Longrightarrow> preserves (store_holds Q) (BatchDelete dr cr cid ids)"
  by (auto simp: UpsertDocument_def DeleteDocument_def BatchDelete_def Let_def intro!: holds_steps split: prod.splits)

lemma holds_collection_service:
  "preserves Q (CreateCollection cr name dimn schema metric ep em)" "preserves Q (ListCollections cr l f)"
  "preserves Q (ListCollection cr i)" "preserves Q (cr_DeleteById cr i) \<Longrightarrow> preserves Q (DeleteCollection cr i)"
  by (auto simp: CreateCollection_def ListCollections_def ListCollection_def DeleteCollection_def Let_def
      intro!: preserves_intros collections)

end

text \<open>The repositories of a driver that spares \<open>P\<close>.\<close>

context spared begin

lemma kept: "driver_spares E P drv \<Longrightarrow> kept_store (on_pool P) (NewDocumentRepo drv sched) (NewCollectionRepo drv)"
  by unfold_locales (simp_all add: NewDocumentRepo_def NewCollectionRepo_def spared_documents spared_search spared_batch
      spared_collections)

end

interpretation index_tasks: kept_store tasks_ok "NewDocumentRepo drv sched" "NewCollectionRepo drv" for drv sched
  using keeps_NewDocumentRepo [of drv sched] keeps_NewCollectionRepo [of drv]
  by unfold_locales (simp_all add: keeps_documents_def keeps_collections_def)

end
