(* ===== verification/Cache_Refinement.thy ===== *)
theory Cache_Refinement
  imports Frame
begin

text \<open>
  The cache of collections is an optimisation: a server with a cache refines the server that
  asks the database every time. The abstract view of the database is a map \<open>T\<close> from its state
  to the facts about the collections in it. Two worlds agree when they have the same store
  and network and both caches hold only what the table holds; every request but the deletion
  of a collection has the same outcome in two worlds that agree and leaves worlds that agree.
\<close>

section \<open>Operations that respect a relation\<close>

named_theorems relates_intros \<open>rules that prove that an operation respects a relation\<close>

definition relates :: "('w \<Rightarrow> 'w \<Rightarrow> bool) \<Rightarrow> ('w, 'e, 'a) op \<Rightarrow> bool" where
  "relates R m \<longleftrightarrow> (\<forall>w1 w2. R w1 w2 \<longrightarrow> fst (m w1) = fst (m w2) \<and> R (snd (m w1)) (snd (m w2)))"

lemma relatesD: "relates R m \<Longrightarrow> R w1 w2 \<Longrightarrow> fst (m w1) = fst (m w2) \<and> R (snd (m w1)) (snd (m w2))"
  by (simp add: relates_def)

lemma relates_handle [relates_intros]:
  assumes m: "relates R m" and f: "\<And>x. relates R (f x)" and g: "\<And>e. relates R (g e)"
  shows "relates R (handle m f g)"
  unfolding relates_def
proof (intro allI impI)
  fix w1 w2 assume r: "R w1 w2"
  obtain r1 v1 r2 v2 where e: "m w1 = (r1, v1)" "m w2 = (r2, v2)" by fastforce
  with relatesD [OF m r] have "r1 = r2" "R v1 v2" by simp_all
  then show "fst (handle m f g w1) = fst (handle m f g w2) \<and> R (snd (handle m f g w1)) (snd (handle m f g w2))"
    using e relatesD [OF f] relatesD [OF g] by (cases r2) (simp_all add: handle_def)
qed

lemma relates_prims [relates_intros]:
  "relates R (ret x)" "relates R (fail e)" "relates R (panic p)" "relates R diverge" "relates R (lift r)"
  by (simp_all add: relates_def ret_def fail_def panic_def diverge_def lift_def)

lemma relates_andThen [relates_intros]:
  "relates R m \<Longrightarrow> (\<And>x. relates R (f x)) \<Longrightarrow> relates R (andThen m f)"
  unfolding andThen_def by (intro relates_intros)

lemma relates_wrap [relates_intros]: "relates R m \<Longrightarrow> relates R (wrap_error g m)"
  by (auto simp: relates_def wrap_error_def split: prod.splits) (metis fst_conv snd_conv)+

lemma relates_if [relates_intros]:
  "(b \<Longrightarrow> relates R m) \<Longrightarrow> (\<not> b \<Longrightarrow> relates R n) \<Longrightarrow> relates R (if b then m else n)"
  by simp

section \<open>The table of collections\<close>

type_synonym 'd table = "'d \<Rightarrow> string \<rightharpoonup> collectionInfo"

definition infoOf :: "Collection \<Rightarrow> collectionInfo" where
  "infoOf c = \<lparr>ci_dimension = c_VectorDimension c, ci_distanceMetric = c_DistanceMetric c,
     ci_embeddingProvider = c_EmbeddingProvider c, ci_embeddingModel = c_EmbeddingModel c\<rparr>"

text \<open>What a database does with a table of collections: a row once there stays as it is through
  every statement but the deletion of a collection, and a query by id reads it and changes
  nothing. A query for an id that is not there gives no row, or is refused: PostgreSQL refuses a
  text that is no UUID. The column of the dimension is a 32-bit integer.\<close>

definition deletes_collection :: "string \<Rightarrow> sqlarg list \<Rightarrow> bool" where
  "deletes_collection q args \<longleftrightarrow> q = deleteCollection \<and> length args = 1"

abbreviation driver_keeps :: "('d \<Rightarrow> bool) \<Rightarrow> 'd driver \<Rightarrow> bool" where
  "driver_keeps \<equiv> driver_spares deletes_collection"

definition reads_collection :: "'d driver \<Rightarrow> 'd table \<Rightarrow> string \<Rightarrow> 'd \<Rightarrow> bool" where
  "reads_collection drv T cid d \<longleftrightarrow>
     (case T d cid of
        None \<Rightarrow> drv_Query drv collectionById [AStr cid] d = (Ok \<lparr>row_list = [], rows_Err = None\<rparr>, d) \<or>
          (\<exists>e. drv_Query drv collectionById [AStr cid] d = (Err e, d))
      | Some info \<Rightarrow> \<exists>c. infoOf c = info \<and> is_int32 (c_VectorDimension c) \<and>
          drv_Query drv collectionById [AStr cid] d = (Ok \<lparr>row_list = [collectionRow c], rows_Err = None\<rparr>, d))"

definition collection_table :: "'d driver \<Rightarrow> 'd table \<Rightarrow> bool" where
  "collection_table drv T \<longleftrightarrow>
     (\<forall>cid info. driver_keeps (\<lambda>d. T d cid = Some info) drv) \<and> (\<forall>cid d. reads_collection drv T cid d)"

definition coherent :: "'d table \<Rightarrow> ('d pool, 'h) world \<Rightarrow> bool" where
  "coherent T w \<longleftrightarrow> cache w \<subseteq>\<^sub>m T (server (store w))"

definition agree :: "'d table \<Rightarrow> ('d pool, 'h) world \<Rightarrow> ('d pool, 'h) world \<Rightarrow> bool" where
  "agree T w1 w2 \<longleftrightarrow> store w1 = store w2 \<and> remote w1 = remote w2 \<and> coherent T w1 \<and> coherent T w2"

section \<open>The repositories keep the table\<close>

text \<open>Which statements delete a collection is decided by the text or the number of arguments.\<close>

lemma other_statements:
  "collectionById \<noteq> deleteCollection" "documentById \<noteq> deleteCollection" "insertDocument \<noteq> deleteCollection"
  "insertCollection \<noteq> deleteCollection" "deleteDocument \<noteq> deleteCollection"
  by code_simp+

interpretation deletion: spared deletes_collection
  by unfold_locales (auto simp: deletes_collection_def other_statements other_statements [symmetric])

lemma deletes_nothing [simp]: "\<not> deletes_collection q []"
  by (rule deletion.no_args)

lemma pool_documents:
  assumes "driver_keeps P drv"
  shows "keeps_documents (on_pool P) (NewDocumentRepo drv sched)"
  by (simp add: keeps_documents_def NewDocumentRepo_def deletion.spared_documents [OF assms]
      deletion.spared_search [OF assms] deletion.spared_batch [OF assms] deletion.spared_upsert [OF assms]
      deletion.spared_delete [OF assms] deletes_collection_def other_statements)

section \<open>Lookups\<close>

text \<open>In a world whose cache holds only what the table holds, a lookup answers from the table,
  whether it hits or misses, and changes only the cache and the counters.\<close>

definition same_but_cache :: "('d, 'h) world \<Rightarrow> ('d, 'h) world \<Rightarrow> bool" where
  "same_but_cache w w' \<longleftrightarrow> store w' = store w \<and> remote w' = remote w"

definition missing_cause :: "'d driver \<Rightarrow> string \<Rightarrow> 'd \<Rightarrow> gerror" where
  "missing_cause drv cid d = (case fst (drv_Query drv collectionById [AStr cid] d) of Err e \<Rightarrow> e | _ \<Rightarrow> ErrNoRows)"

lemma QueryRow_collection:
  fixes p :: "'d pool"
  assumes "collection_table drv T"
  shows "case T (server p) cid of
      None \<Rightarrow> CollectionRepo_ListById drv cid p = (Err (missing_cause drv cid (server p)), p)
    | Some info \<Rightarrow> \<exists>c. infoOf c = info \<and> is_int32 (c_VectorDimension c) \<and> CollectionRepo_ListById drv cid p = (Ok c, p)"
proof -
  have scan: "\<exists>mb. scanColumns (collectionRow c) = Ok mb \<and> decodeSchema mb = Ok c" for c
    using scan_collectionRow [of c] by (simp add: scanCollection_def)
  have r: "reads_collection drv T cid (server p)" using assms by (simp add: collection_table_def)
  show ?thesis
  proof (cases "T (server p) cid")
    case None
    with r show ?thesis
      by (auto simp: reads_collection_def CollectionRepo_ListById_def oneCollection_def QueryRow_def op_simps
          first_row_def missing_cause_def)
  next
    case (Some info)
    with r obtain c where c: "infoOf c = info" "is_int32 (c_VectorDimension c)"
      "drv_Query drv collectionById [AStr cid] (server p) = (Ok \<lparr>row_list = [collectionRow c], rows_Err = None\<rparr>, server p)"
      by (auto simp: reads_collection_def)
    moreover obtain mb where "scanColumns (collectionRow c) = Ok mb" "decodeSchema mb = Ok c" using scan by blast
    ultimately show ?thesis using Some
      by (auto simp: CollectionRepo_ListById_def oneCollection_def QueryRow_def op_simps first_row_def)
  qed
qed

text \<open>The error handling of \<open>fetchCollection\<close>.\<close>

definition fetch_failed :: "string \<Rightarrow> gerror \<Rightarrow> gerror" where
  "fetch_failed cid e =
     (if e = ErrNoRows then ErrFmt ''collection_id %s not found'' [FStr cid]
      else ErrWrap ''failed to fetch collection: %w'' [] e)"

lemma fetch_from_table:
  fixes w :: "('d pool, 'h) world"
  assumes "collection_table drv T"
  shows "case T (server (store w)) cid of
      None \<Rightarrow> fetchCollection (NewCollectionRepo drv) cid w =
        (Err (fetch_failed cid (missing_cause drv cid (server (store w)))), w)
    | Some info \<Rightarrow> \<exists>c. infoOf c = info \<and>
        fetchCollection (NewCollectionRepo drv) cid w = (Ok c, w\<lparr>cache := (cache w)(cid \<mapsto> info)\<rparr>)"
proof (cases "T (server (store w)) cid")
  case None
  with QueryRow_collection [OF assms, where p = "store w" and cid = cid] show ?thesis
    by (simp add: fetchCollection_def handle_def on_store_def NewCollectionRepo_def fail_def fetch_failed_def)
next
  case (Some info)
  with QueryRow_collection [OF assms, where p = "store w" and cid = cid] obtain c where
    c: "infoOf c = info" "is_int32 (c_VectorDimension c)" "CollectionRepo_ListById drv cid (store w) = (Ok c, store w)" by auto
  then have "fetchCollection (NewCollectionRepo drv) cid w = (Ok c, w\<lparr>cache := (cache w)(cid \<mapsto> info)\<rparr>)"
    by (auto simp: fetchCollection_def handle_def on_store_def NewCollectionRepo_def op_simps cache_Insert_def
        to_int32_id infoOf_def)
  with Some c(1) show ?thesis by auto
qed

definition table_answer ::
  "'d driver \<Rightarrow> 'd table \<Rightarrow> string \<Rightarrow> (collectionInfo \<Rightarrow> 'a) \<Rightarrow> ('d pool, 'h) world \<Rightarrow> 'a result" where
  "table_answer drv T cid f w =
     (case T (server (store w)) cid of
        None \<Rightarrow> Err (fetch_failed cid (missing_cause drv cid (server (store w))))
      | Some info \<Rightarrow> Ok (f info))"

definition answers ::
  "'d driver \<Rightarrow> 'd table \<Rightarrow> string \<Rightarrow> (collectionInfo \<Rightarrow> 'a) \<Rightarrow> (('d pool, 'h) world, gerror, 'a) op \<Rightarrow> bool" where
  "answers drv T cid f m \<longleftrightarrow> (\<forall>w. coherent T w \<longrightarrow>
     fst (m w) = table_answer drv T cid f w \<and> same_but_cache w (snd (m w)) \<and> coherent T (snd (m w)))"

lemma answersD: "answers drv T cid f m \<Longrightarrow> coherent T w \<Longrightarrow> fst (m w) = table_answer drv T cid f w"
  by (simp add: answers_def)

lemma cached_in_table: "coherent T w \<Longrightarrow> cache w cid = Some info \<Longrightarrow> T (server (store w)) cid = Some info"
  by (auto simp: coherent_def map_le_def dest: bspec [OF _ domI])

lemma coherent_remember:
  "coherent T w \<Longrightarrow> T (server (store w)) cid = Some info \<Longrightarrow> coherent T (w\<lparr>cache := (cache w)(cid \<mapsto> info)\<rparr>)"
  by (auto simp: coherent_def map_le_def)

lemma coherent_counted [simp]: "coherent T (counted l w) = coherent T w"
  by (simp add: coherent_def)

text \<open>Both lookups, in the shape they share.\<close>

lemma lookup_answers:
  assumes T: "collection_table drv T"
    and hit: "\<And>w info. cache w cid = Some info \<Longrightarrow> m w = (Ok (f info), counted ''hit'' w)"
    and miss: "\<And>w. cache w cid = None \<Longrightarrow>
      m w = andThen (fetchCollection (NewCollectionRepo drv) cid) (\<lambda>c. ret (f (infoOf c))) (counted ''miss'' w)"
  shows "answers drv T cid f m"
  unfolding answers_def
proof (intro allI impI)
  fix w :: "('a pool, 'b) world" assume w: "coherent T w"
  show "fst (m w) = table_answer drv T cid f w \<and> same_but_cache w (snd (m w)) \<and> coherent T (snd (m w))"
  proof (cases "cache w cid")
    case (Some info)
    with w show ?thesis by (simp add: hit table_answer_def cached_in_table same_but_cache_def)
  next
    case None
    let ?w = "counted ''miss'' w"
    show ?thesis
    proof (cases "T (server (store w)) cid")
      case None
      with \<open>cache w cid = None\<close> fetch_from_table [OF T, where w = ?w and cid = cid] w show ?thesis
        by (simp add: miss andThen_run table_answer_def same_but_cache_def)
    next
      case (Some info)
      with fetch_from_table [OF T, where w = ?w and cid = cid] obtain c where c: "infoOf c = info"
        "fetchCollection (NewCollectionRepo drv) cid ?w = (Ok c, ?w\<lparr>cache := (cache ?w)(cid \<mapsto> info)\<rparr>)" by auto
      have "coherent T (?w\<lparr>cache := (cache ?w)(cid \<mapsto> info)\<rparr>)"
        by (rule coherent_remember) (use w Some in simp_all)
      with \<open>cache w cid = None\<close> c Some show ?thesis
        by (simp add: miss andThen_run ret_run table_answer_def same_but_cache_def)
    qed
  qed
qed

lemma getCollectionInfo_answers:
  assumes "collection_table drv T"
  shows "answers drv T cid (\<lambda>info. (ci_dimension info, ci_distanceMetric info)) (getCollectionInfo (NewCollectionRepo drv) cid)"
  by (rule lookup_answers [OF assms])
     (simp_all add: getCollectionInfo_hit, simp add: getCollectionInfo_def op_simps counted_def infoOf_def)

lemma getCollectionEmbeddingInfo_answers:
  assumes "collection_table drv T"
  shows "answers drv T cid (\<lambda>info. (ci_embeddingProvider info, ci_embeddingModel info))
           (getCollectionEmbeddingInfo (NewCollectionRepo drv) cid)"
  by (rule lookup_answers [OF assms])
     (simp_all add: getCollectionEmbeddingInfo_hit, simp add: getCollectionEmbeddingInfo_def op_simps counted_def infoOf_def)

section \<open>Requests\<close>

lemma answers_relates: "answers drv T cid f m \<Longrightarrow> relates (agree T) m"
  by (auto simp: relates_def answers_def agree_def table_answer_def same_but_cache_def split: option.splits)

lemma relates_on_store:
  assumes "\<And>cid info. preserves (on_pool (\<lambda>d. T d cid = Some info)) m"
  shows "relates (agree T) (on_store m)"
proof -
  have le: "T (server p) \<subseteq>\<^sub>m T (server (snd (m p)))" for p
    using preservesD [OF assms] by (force simp: map_le_def on_pool_def)
  show ?thesis
    unfolding relates_def agree_def coherent_def
    by (auto simp: on_store_def split: prod.splits) (metis le map_le_trans snd_conv)+
qed

lemma relates_on_remote [relates_intros]: "relates (agree T) (on_remote m)"
  by (auto simp: relates_def agree_def coherent_def on_remote_def split: prod.splits)

lemma relates_counts [relates_intros]:
  "relates (agree T) (countChunks s n)" "relates (agree T) (countEmbed pr st)"
  by (auto simp: relates_def countChunks_def countEmbed_def count_def update_def agree_def coherent_def)

lemma relates_checkVector [relates_intros]: "relates R (checkVector what i xs)"
  by (induction xs arbitrary: i) (auto intro: relates_intros)

lemma relates_lookups:
  assumes "collection_table drv T"
  shows "relates (agree T) (getCollectionInfo (NewCollectionRepo drv) cid)"
    and "relates (agree T) (getCollectionEmbeddingInfo (NewCollectionRepo drv) cid)"
  using assms by (blast intro: answers_relates getCollectionInfo_answers getCollectionEmbeddingInfo_answers)+

lemma relates_store_calls:
  assumes "\<And>cid info. keeps_documents (on_pool (\<lambda>d. T d cid = Some info)) dr"
  shows "relates (agree T) (on_store (dr_Create dr c t v m))" "relates (agree T) (on_store (dr_Upsert dr i c t v m))"
    "relates (agree T) (on_store (dr_List dr c l f b))" "relates (agree T) (on_store (dr_GetById dr i))"
    "relates (agree T) (on_store (dr_DeleteById dr i))" "relates (agree T) (on_store (dr_Search dr c v k f' t' b m'))"
    "relates (agree T) (on_store (dr_FullTextSearch dr c q l r b))" "relates (agree T) (on_store (dr_BatchInsert dr c ds))"
    "relates (agree T) (on_store (dr_BatchDelete dr c ids))"
    "relates (agree T) (on_store (dr_HybridSearch dr c q v k f' x y b m'))"
  using assms by (simp_all add: keeps_documents_def relates_on_store)

lemma table_documents:
  "collection_table drv T \<Longrightarrow> keeps_documents (on_pool (\<lambda>d. T d cid = Some info)) (NewDocumentRepo drv sched)"
  by (simp add: collection_table_def pool_documents)

lemma relates_document_service:
  assumes "collection_table drv T"
  shows "relates (agree T) (CreateDocument (NewDocumentRepo drv sched) (NewCollectionRepo drv) cid t v m)"
    and "relates (agree T) (UpsertDocument (NewDocumentRepo drv sched) (NewCollectionRepo drv) did cid t v m)"
    and "relates (agree T) (ListDocuments (NewDocumentRepo drv sched) (NewCollectionRepo drv) cid limit offset iv)"
    and "relates (agree T) (GetDocument (NewDocumentRepo drv sched) did)"
    and "relates (agree T) (DeleteDocument (NewDocumentRepo drv sched) did)"
  using table_documents [OF assms]
  by (auto simp: CreateDocument_def UpsertDocument_def ListDocuments_def GetDocument_def DeleteDocument_def Let_def
      intro!: relates_intros relates_lookups [OF assms] relates_store_calls split: prod.splits)

lemma relates_search_service:
  assumes "collection_table drv T"
  shows "relates (agree T) (SearchDocuments (NewDocumentRepo drv sched) (NewCollectionRepo drv) cid v k f th iv)"
    and "relates (agree T) (FullTextSearchDocuments (NewDocumentRepo drv sched) (NewCollectionRepo drv) cid q limit r iv)"
    and "relates (agree T) (HybridSearchDocuments (NewDocumentRepo drv sched) (NewCollectionRepo drv) cid q v k f vw tw iv)"
    and "relates (agree T) (BatchDelete (NewDocumentRepo drv sched) (NewCollectionRepo drv) cid ids)"
    and "relates (agree T) (BatchInsert (NewDocumentRepo drv sched) (NewCollectionRepo drv) cid docs)"
  using table_documents [OF assms]
  by (auto simp: SearchDocuments_def FullTextSearchDocuments_def HybridSearchDocuments_def BatchDelete_def BatchInsert_def
      Let_def intro!: relates_intros relates_lookups [OF assms] relates_store_calls split: prod.splits option.splits)

lemma relates_ingest:
  assumes "collection_table drv T"
  shows "relates (agree T) (IngestDocument (NewDocumentRepo drv sched) (NewCollectionRepo drv) net cid t m config)"
proof -
  have "relates (agree T) (ingestChunks (NewDocumentRepo drv sched) (NewCollectionRepo drv) net cid m' s p mo chunks)"
    for m' s p mo chunks
    unfolding ingestChunks_def
    by (auto intro!: relates_intros relates_lookups relates_search_service assms split: prod.splits)
  then show ?thesis
    unfolding IngestDocument_def
    by (auto simp: Let_def intro!: relates_intros relates_lookups [OF assms] split: prod.splits option.splits)
qed

lemma relates_collection_service:
  assumes T: "collection_table drv T"
  shows "relates (agree T) (on_store (Handler_CreateCollection st (NewCollectionRepo drv) req))"
    and "relates (agree T) (on_store (Handler_ListCollections st (NewCollectionRepo drv) limit offset))"
    and "relates (agree T) (on_store (Handler_ListCollection st (NewCollectionRepo drv) i))"
    and "relates (agree T) (on_store (Health_Check (Some drv) service))"
proof -
  have keeps: "driver_keeps (\<lambda>d. T d cid = Some info) drv" for cid info
    using T by (simp add: collection_table_def)
  show "relates (agree T) (on_store (Handler_CreateCollection st (NewCollectionRepo drv) req))"
    "relates (agree T) (on_store (Handler_ListCollections st (NewCollectionRepo drv) limit offset))"
    "relates (agree T) (on_store (Handler_ListCollection st (NewCollectionRepo drv) i))"
    by (auto simp: Handler_CreateCollection_def Handler_ListCollections_def Handler_ListCollection_def
        CreateCollection_def ListCollections_def ListCollection_def NewCollectionRepo_def Let_def
        intro!: relates_on_store preserves_intros deletion.spared_collections [OF keeps])
  show "relates (agree T) (on_store (Health_Check (Some drv) service))"
    by (auto simp: Health_Check_def CheckReadiness_def CheckLiveness_def
        intro!: relates_on_store preserves_intros pool_driver [OF keeps])
qed

lemma relates_dispatch:
  assumes T: "collection_table (driver_of env) T" and req: "\<And>i. req \<noteq> DeleteCollectionCall i"
  shows "relates (agree T) (dispatch env req)"
proof -
  note services = relates_document_service [OF T] relates_search_service [OF T] relates_ingest [OF T]
    relates_collection_service [OF T]
  show ?thesis
    using req
    by (cases req)
       (auto simp: responding_def Handler_CreateDocument_def Handler_IngestDocument_def Handler_UpsertDocument_def
         Handler_ListDocuments_def Handler_ListDocument_def Handler_DeleteDocument_def Handler_SearchDocuments_def
         Handler_FullTextSearch_def Handler_BatchInsert_def Handler_BatchDelete_def Handler_HybridSearch_def Let_def
         intro!: relates_intros services split: prod.splits)
qed

section \<open>Sessions\<close>

text \<open>A session is a sequence of requests, each with its environment; the abstract server forgets
  its cache before every request.\<close>

fun session ::
  "(('s, 'd, 'h) environment \<times> 's request) list \<Rightarrow> ('d pool, 'h) world \<Rightarrow> 's response result list \<times> ('d pool, 'h) world" where
  "session [] w = ([], w)"
| "session ((env, req) # rest) w =
     (case dispatch env req w of (r, w') \<Rightarrow> (case session rest w' of (rs, w'') \<Rightarrow> (r # rs, w'')))"

fun cacheless_session ::
  "(('s, 'd, 'h) environment \<times> 's request) list \<Rightarrow> ('d pool, 'h) world \<Rightarrow> 's response result list \<times> ('d pool, 'h) world" where
  "cacheless_session [] w = ([], w)"
| "cacheless_session ((env, req) # rest) w =
     (case dispatch env req (w\<lparr>cache := NewCollectionCache\<rparr>) of (r, w') \<Rightarrow>
        (case cacheless_session rest w' of (rs, w'') \<Rightarrow> (r # rs, w'')))"

lemma agree_forget: "agree T w1 w2 \<Longrightarrow> agree T w1 (w2\<lparr>cache := NewCollectionCache\<rparr>)"
  by (auto simp: agree_def coherent_def NewCollectionCache_def)

lemma sessions_agree:
  assumes "agree T w1 w2"
    and "\<forall>(env, req)\<in>set reqs. collection_table (driver_of env) T \<and> (\<forall>i. req \<noteq> DeleteCollectionCall i)"
  shows "fst (session reqs w1) = fst (cacheless_session reqs w2) \<and>
         agree T (snd (session reqs w1)) (snd (cacheless_session reqs w2))"
  using assms
proof (induction reqs arbitrary: w1 w2)
  case (Cons er reqs)
  obtain env req where er: "er = (env, req)" by fastforce
  let ?w2 = "w2\<lparr>cache := NewCollectionCache\<rparr>"
  obtain r1 v1 r2 v2 where d: "dispatch env req w1 = (r1, v1)" "dispatch env req ?w2 = (r2, v2)" by fastforce
  have "relates (agree T) (dispatch env req)" using Cons.prems(2) er by (auto intro: relates_dispatch)
  from relatesD [OF this agree_forget [OF Cons.prems(1)]] d have a: "r1 = r2" "agree T v1 v2" by simp_all
  have "\<forall>(env, req)\<in>set reqs. collection_table (driver_of env) T \<and> (\<forall>i. req \<noteq> DeleteCollectionCall i)"
    using Cons.prems(2) by simp
  from Cons.IH [OF a(2) this] show ?case using er d a(1)
    by (cases "session reqs v1"; cases "cacheless_session reqs v2") simp
qed simp

text \<open>C4 The cache is invisible: in any sequence of requests without a deletion of a collection,
  every response and the final database are those of the server that asks the database
  every time, whatever correct entries the cache starts with.\<close>

theorem cached_server_refines_cacheless:
  assumes "coherent T w"
    and "\<forall>(env, req)\<in>set reqs. collection_table (driver_of env) T \<and> (\<forall>i. req \<noteq> DeleteCollectionCall i)"
  shows "fst (session reqs w) = fst (cacheless_session reqs w) \<and>
         store (snd (session reqs w)) = store (snd (cacheless_session reqs w))"
  using sessions_agree [of T w w reqs] assms by (simp add: agree_def)

text \<open>A database with one collection that counts the other statements it gets.\<close>

definition table_driver :: "nat driver" where
  "table_driver =
     \<lparr>drv_Query = (\<lambda>q args d.
        if q = collectionById
        then (Ok \<lparr>row_list = (if args = [AStr ''c''] then [collectionRow demo_collection] else []), rows_Err = None\<rparr>, d)
        else (Ok \<lparr>row_list = [], rows_Err = None\<rparr>, d + 1)),
      drv_Exec = (\<lambda>q args d. (Ok (Ok 1), d + 1)), drv_Begin = ret (), drv_Commit = ret (),
      drv_Rollback = (\<lambda>d. d), drv_Ping = ret ()\<rparr>"

definition demo_table :: "nat table" where
  "demo_table d cid = (if cid = ''c'' then Some (infoOf demo_collection) else None)"

lemma table_driver_ok: "collection_table table_driver demo_table"
proof -
  have "is_int32 (c_VectorDimension demo_collection)" by (simp add: is_int32_def demo_collection_def)
  then have "reads_collection table_driver demo_table cid d" for cid d
    by (cases "cid = ''c''") (auto simp: reads_collection_def demo_table_def table_driver_def)
  moreover have "driver_keeps (\<lambda>d. demo_table d cid = Some info) table_driver" for cid info
    by (auto simp: driver_spares_def table_driver_def preserves_def demo_table_def ret_def)
  ultimately show ?thesis by (simp add: collection_table_def)
qed

definition table_env :: "((string \<times> jval) list, nat, unit) environment" where
  "table_env = \<lparr>structs_of = \<lparr>AsMap = (\<lambda>s. s), NewStruct = Some\<rparr>, driver_of = table_driver,
     schedule_of = (\<lambda>n. [0 ..< n]), net_of = demo_net, now_of = 0\<rparr>"

lemma cached_server_refines_cacheless_witness:
  "let reqs = [(table_env, ListDocumentsCall ''c'' 0 0 True), (table_env, ListDocumentsCall ''x'' 0 0 True),
               (table_env, ListDocumentsCall ''c'' 5 0 False)]
   in fst (session reqs (started 0 ())) = fst (cacheless_session reqs (started 0 ()))"
proof -
  have "coherent demo_table (started 0 () :: (nat pool, unit) world)"
    by (simp add: coherent_def started_def NewCollectionCache_def)
  moreover have "collection_table (driver_of table_env) demo_table" by (simp add: table_env_def table_driver_ok)
  ultimately show ?thesis
    unfolding Let_def by (intro cached_server_refines_cacheless [THEN conjunct1]) auto
qed

section \<open>What the cache tells\<close>

text \<open>The steps of the running server without deletions of collections: requests, background
  tasks and the warming of the cache, in any order.\<close>

inductive steady_step ::
  "'s structs \<Rightarrow> 'd driver \<Rightarrow> ('d pool, 'h) world \<Rightarrow> ('d pool, 'h) world \<Rightarrow> bool" for st drv where
  call: "structs_of env = st \<Longrightarrow> driver_of env = drv \<Longrightarrow> \<forall>i. req \<noteq> DeleteCollectionCall i \<Longrightarrow>
     steady_step st drv w (snd (dispatch env req w))"
| goroutine: "steady_step st drv w (w\<lparr>store := run_goroutine drv i (store w)\<rparr>)"
| warm: "steady_step st drv w (snd (WarmFromDB drv w))"

inductive_cases steady_stepE: "steady_step st drv w w'"

text \<open>The statement that warms the cache answers with rows of the table.\<close>

definition warms_from_table :: "'d driver \<Rightarrow> 'd table \<Rightarrow> bool" where
  "warms_from_table drv T \<longleftrightarrow>
     (\<forall>d rs d'. drv_Query drv warmQuery [] d = (Ok rs, d') \<longrightarrow>
        list_all (\<lambda>row. case scanWarm row of
            Ok (i, dimn, metric, ep, em) \<Rightarrow>
              T d' i = Some \<lparr>ci_dimension = dimn, ci_distanceMetric = metric, ci_embeddingProvider = ep, ci_embeddingModel = em\<rparr>
          | _ \<Rightarrow> True) (row_list rs))"

lemma coherent_dispatch:
  "collection_table (driver_of env) T \<Longrightarrow> \<forall>i. req \<noteq> DeleteCollectionCall i \<Longrightarrow> coherent T w \<Longrightarrow>
     coherent T (snd (dispatch env req w))"
  using relatesD [OF relates_dispatch, of env T req w w] by (simp add: agree_def)

lemma coherent_store:
  assumes "\<And>cid info. T (server (store w)) cid = Some info \<Longrightarrow> T (server p) cid = Some info"
  shows "coherent T w \<Longrightarrow> coherent T (w\<lparr>store := p\<rparr>)"
  using assms by (auto simp: coherent_def map_le_def) (metis domI)

lemma coherent_goroutine:
  assumes "collection_table drv T"
  shows "coherent T w \<Longrightarrow> coherent T (w\<lparr>store := run_goroutine drv i (store w)\<rparr>)"
  using assms deletion.spared_goroutine [where drv = drv and p = "store w"]
  by (intro coherent_store) (auto simp: collection_table_def on_pool_def)

lemma warmRows_table:
  assumes "c \<subseteq>\<^sub>m tbl"
    and "list_all (\<lambda>row. case scanWarm row of
            Ok (i, dimn, metric, ep, em) \<Rightarrow>
              tbl i = Some \<lparr>ci_dimension = dimn, ci_distanceMetric = metric, ci_embeddingProvider = ep, ci_embeddingModel = em\<rparr>
          | _ \<Rightarrow> True) rows"
  shows "snd (warmRows rows c) \<subseteq>\<^sub>m tbl"
  using assms
proof (induction rows arbitrary: c)
  case (Cons row rows)
  show ?case
  proof (cases "scanWarm row")
    case (Ok x)
    obtain i d m p e where x: "x = (i, d, m, p, e)" by (cases x) auto
    have "cache_Insert i d m p e c \<subseteq>\<^sub>m tbl"
      using Cons.prems Ok by (auto simp: x cache_Insert_def map_le_def)
    with Cons Ok show ?thesis by (simp add: x)
  qed (use Cons.prems in auto)
qed simp

lemma coherent_warm:
  assumes T: "collection_table drv T" and warm: "warms_from_table drv T"
  shows "coherent T w \<Longrightarrow> coherent T (snd (WarmFromDB drv w))"
proof -
  assume w: "coherent T w"
  obtain r d where q: "drv_Query drv warmQuery [] (server (store w)) = (r, d)" by fastforce
  have "preserves (\<lambda>d. T d cid = Some info) (drv_Query drv warmQuery [])" for cid info
    using T by (simp add: collection_table_def driver_spares_def)
  from preservesD [OF this] q have d: "coherent T (w\<lparr>store := store w\<lparr>server := d\<rparr>\<rparr>)"
    by (intro coherent_store w) force
  show ?thesis
  proof (cases r)
    case (Ok rs)
    have "snd (warmRows (row_list rs) (cache w)) \<subseteq>\<^sub>m T d"
      by (rule warmRows_table) (use warm q d Ok in \<open>simp_all add: warms_from_table_def coherent_def\<close>)
    with Ok q show ?thesis
      by (cases "warmRows (row_list rs) (cache w)")
         (simp add: WarmFromDB_def andThen_run on_store_run on_server_run coherent_def)
  qed (use q d in \<open>simp_all add: WarmFromDB_def andThen_run on_store_run on_server_run\<close>)
qed

lemma steady_coherent:
  assumes "collection_table drv T" and "warms_from_table drv T" and "(steady_step st drv)\<^sup>*\<^sup>* (started d h) w"
  shows "coherent T w"
  using assms(3)
proof (induction rule: rtranclp_induct)
  case base
  show ?case by (simp add: coherent_def started_def NewCollectionCache_def)
next
  case (step w w')
  from step.hyps(2) step.IH assms(1,2) show ?case
    by (elim steady_stepE) (auto intro: coherent_dispatch coherent_goroutine coherent_warm)
qed

text \<open>C9 As long as no collection is deleted the cache never lies: in every state that requests,
  background tasks and warming can reach, a lookup answers with the dimension and the metric
  that are in the table, and fails exactly when the collection is not there: it reports it as
  missing, or passes on the refusal of the database.\<close>

theorem cache_tells_the_table:
  assumes "collection_table drv T" and "warms_from_table drv T" and "(steady_step st drv)\<^sup>*\<^sup>* (started d h) w"
  shows "case T (server (store w)) cid of
      Some info \<Rightarrow> fst (getCollectionInfo (NewCollectionRepo drv) cid w) = Ok (ci_dimension info, ci_distanceMetric info)
    | None \<Rightarrow>
        fst (getCollectionInfo (NewCollectionRepo drv) cid w) = Err (ErrFmt ''collection_id %s not found'' [FStr cid]) \<or>
        (\<exists>e. fst (drv_Query drv collectionById [AStr cid] (server (store w))) = Err e \<and>
           fst (getCollectionInfo (NewCollectionRepo drv) cid w) = Err (ErrWrap ''failed to fetch collection: %w'' [] e))"
  using answersD [OF getCollectionInfo_answers [OF assms(1)] steady_coherent [OF assms], of cid]
  by (auto simp: table_answer_def fetch_failed_def missing_cause_def split: option.splits outcome.splits)

lemma cache_tells_the_table_witness:
  "fst (getCollectionInfo (NewCollectionRepo table_driver) ''c''
     (snd (dispatch table_env (ListDocumentsCall ''c'' 0 0 True) (started 0 ())))) = Ok (2, ''cosine'')"
proof -
  have "warms_from_table table_driver demo_table"
  proof -
    have "take 12 warmQuery \<noteq> take 12 collectionById" by code_simp
    then have "warmQuery \<noteq> collectionById" by auto
    then show ?thesis by (simp add: warms_from_table_def table_driver_def)
  qed
  moreover have "(steady_step (structs_of table_env) table_driver)\<^sup>*\<^sup>* (started 0 ())
      (snd (dispatch table_env (ListDocumentsCall ''c'' 0 0 True) (started 0 ())))"
    by (intro r_into_rtranclp steady_step.call) (simp_all add: table_env_def)
  ultimately show ?thesis
    using cache_tells_the_table [OF table_driver_ok, where cid = "''c''"]
    by (fastforce simp: demo_table_def infoOf_def demo_collection_def)
qed

end
