(* ===== verification/Gateway.thy ===== *)
theory Gateway
  imports Server_Properties
begin

text \<open>
  The HTTP gateway: the generated handlers of \<open>api/proto/v1/generated/*.pb.gw.go\<close>, which turn an
  HTTP request into a call of a method of the gRPC server, and the multiplexers that \<open>main\<close>
  puts in front of them. Parameters are the codec of messages (JSON bodies and query
  parameters), the annotation of the context and the HTTP status of an error, which belong
  to the gateway library, and the client, that is the gRPC server itself in \<open>main\<close>.
\<close>

section \<open>Requests\<close>

type_synonym form = "(string \<times> string list) list"
type_synonym path_params = "string \<rightharpoonup> string"

record 'b http_request =
  hq_method :: string
  hq_path :: "string list"
  hq_body :: 'b
  hq_form :: "form result"

text \<open>Decoding a body fills the message and may report an error; filling a message from query
  parameters starts from the empty one.\<close>

record ('b, 's) codec =
  dec_CreateCollection :: "'b \<Rightarrow> 's CreateCollectionRequest \<times> gerror option"
  dec_CreateDocument :: "'b \<Rightarrow> 's CreateDocumentRequest \<times> gerror option"
  dec_IngestDocument :: "'b \<Rightarrow> 's IngestDocumentRequest \<times> gerror option"
  dec_UpsertDocument :: "'b \<Rightarrow> 's UpsertDocumentRequest \<times> gerror option"
  dec_SearchDocument :: "'b \<Rightarrow> 's SearchDocumentRequest \<times> gerror option"
  dec_FullTextSearch :: "'b \<Rightarrow> FullTextSearchRequest \<times> gerror option"
  dec_BatchInsert :: "'b \<Rightarrow> (string \<times> 's CreateDocumentRequest list) \<times> gerror option"
  dec_BatchDelete :: "'b \<Rightarrow> (string \<times> string list) \<times> gerror option"
  dec_HybridSearch :: "'b \<Rightarrow> 's HybridSearchRequest \<times> gerror option"
  pop_ListCollections :: "form \<Rightarrow> (int \<times> int) result"
  pop_ListDocuments :: "form \<Rightarrow> (string \<times> int \<times> int \<times> bool) result"
  pop_HealthCheck :: "form \<Rightarrow> string result"

datatype gateway_error = InvalidArgument gerror | RpcError gerror

type_synonym ('w, 's) client = "'s request \<Rightarrow> ('w, gerror, 's response) op"
type_synonym ('b, 's, 'w) gateway_handler =
  "('b, 's) codec \<Rightarrow> ('w, 's) client \<Rightarrow> 'b http_request \<Rightarrow> path_params \<Rightarrow> ('w, gateway_error, 's response) op"

section \<open>Steps that the handlers share\<close>

text \<open>\<open>errors.Is(err, io.EOF)\<close>\<close>

primrec is_EOF :: "gerror \<Rightarrow> bool" where
  "is_EOF ErrNoRows = False"
| "is_EOF (ErrNew s) = (s = ''EOF'')"
| "is_EOF (ErrFmt f as) = False"
| "is_EOF (ErrWrap f as e) = is_EOF e"

text \<open>An empty body is no error: the message stays as it is.\<close>

definition read_body :: "'m \<times> gerror option \<Rightarrow> (gateway_error, 'm) outcome" where
  "read_body r =
     (case r of
        (protoReq, Some err) \<Rightarrow> if \<not> is_EOF err then Err (InvalidArgument err) else Ok protoReq
      | (protoReq, None) \<Rightarrow> Ok protoReq)"

definition invalid :: "'m result \<Rightarrow> (gateway_error, 'm) outcome" where
  "invalid r = (case r of Ok x \<Rightarrow> Ok x | Err e \<Rightarrow> Err (InvalidArgument e) | Panic m \<Rightarrow> Panic m | Diverge \<Rightarrow> Diverge)"

definition path_id :: "path_params \<Rightarrow> (gateway_error, string) outcome" where
  "path_id pathParams =
     (case pathParams ''id'' of
        None \<Rightarrow> Err (InvalidArgument (ErrFmt ''missing parameter %s'' [FStr ''id'']))
      | Some val \<Rightarrow> Ok val)"

definition read_form :: "(form \<Rightarrow> 'm result) \<Rightarrow> 'b http_request \<Rightarrow> (gateway_error, 'm) outcome" where
  "read_form populate req = chain (invalid (hq_form req)) (\<lambda>f. invalid (populate f))"

definition call_client :: "('w, 's) client \<Rightarrow> 's request \<Rightarrow> ('w, gateway_error, 's response) op" where
  "call_client client r w =
     (case client r w of
        (Ok msg, w') \<Rightarrow> (Ok msg, w')
      | (Err e, w') \<Rightarrow> (Err (RpcError e), w')
      | (Panic m, w') \<Rightarrow> (Panic m, w')
      | (Diverge, w') \<Rightarrow> (Diverge, w'))"

section \<open>Collections\<close>

definition request_CollectionService_CreateCollection_0 :: "('b, 's, 'w) gateway_handler" where
  "request_CollectionService_CreateCollection_0 codec client req pathParams =
     andThen (lift (read_body (dec_CreateCollection codec (hq_body req)))) (\<lambda>protoReq.
       call_client client (CreateCollectionCall protoReq))"

definition request_CollectionService_ListCollection_0 :: "('b, 's, 'w) gateway_handler" where
  "request_CollectionService_ListCollection_0 codec client req pathParams =
     andThen (lift (path_id pathParams)) (\<lambda>i. call_client client (ListCollectionCall i))"

definition request_CollectionService_ListCollections_0 :: "('b, 's, 'w) gateway_handler" where
  "request_CollectionService_ListCollections_0 codec client req pathParams =
     andThen (lift (read_form (pop_ListCollections codec) req)) (\<lambda>(limit, offset).
       call_client client (ListCollectionsCall limit offset))"

definition request_CollectionService_DeleteCollection_0 :: "('b, 's, 'w) gateway_handler" where
  "request_CollectionService_DeleteCollection_0 codec client req pathParams =
     andThen (lift (path_id pathParams)) (\<lambda>i. call_client client (DeleteCollectionCall i))"

section \<open>Documents\<close>

definition request_DocumentService_CreateDocument_0 :: "('b, 's, 'w) gateway_handler" where
  "request_DocumentService_CreateDocument_0 codec client req pathParams =
     andThen (lift (read_body (dec_CreateDocument codec (hq_body req)))) (\<lambda>protoReq.
       call_client client (CreateDocumentCall protoReq))"

definition request_DocumentService_IngestDocument_0 :: "('b, 's, 'w) gateway_handler" where
  "request_DocumentService_IngestDocument_0 codec client req pathParams =
     andThen (lift (read_body (dec_IngestDocument codec (hq_body req)))) (\<lambda>protoReq.
       call_client client (IngestDocumentCall protoReq))"

text \<open>The id of an upsert is the one in the path, whatever the body says.\<close>

definition request_DocumentService_UpsertDocument_0 :: "('b, 's, 'w) gateway_handler" where
  "request_DocumentService_UpsertDocument_0 codec client req pathParams =
     andThen (lift (read_body (dec_UpsertDocument codec (hq_body req)))) (\<lambda>protoReq.
     andThen (lift (path_id pathParams)) (\<lambda>i.
       call_client client (UpsertDocumentCall (protoReq\<lparr>ud_Id := i\<rparr>))))"

definition request_DocumentService_ListDocument_0 :: "('b, 's, 'w) gateway_handler" where
  "request_DocumentService_ListDocument_0 codec client req pathParams =
     andThen (lift (path_id pathParams)) (\<lambda>i. call_client client (ListDocumentCall i))"

definition request_DocumentService_ListDocuments_0 :: "('b, 's, 'w) gateway_handler" where
  "request_DocumentService_ListDocuments_0 codec client req pathParams =
     andThen (lift (read_form (pop_ListDocuments codec) req)) (\<lambda>(collectionId, limit, offset, includeVector).
       call_client client (ListDocumentsCall collectionId limit offset includeVector))"

definition request_DocumentService_DeleteDocument_0 :: "('b, 's, 'w) gateway_handler" where
  "request_DocumentService_DeleteDocument_0 codec client req pathParams =
     andThen (lift (path_id pathParams)) (\<lambda>i. call_client client (DeleteDocumentCall i))"

definition request_DocumentService_SearchDocuments_0 :: "('b, 's, 'w) gateway_handler" where
  "request_DocumentService_SearchDocuments_0 codec client req pathParams =
     andThen (lift (read_body (dec_SearchDocument codec (hq_body req)))) (\<lambda>protoReq.
       call_client client (SearchDocumentsCall protoReq))"

definition request_DocumentService_FullTextSearch_0 :: "('b, 's, 'w) gateway_handler" where
  "request_DocumentService_FullTextSearch_0 codec client req pathParams =
     andThen (lift (read_body (dec_FullTextSearch codec (hq_body req)))) (\<lambda>protoReq.
       call_client client (FullTextSearchCall protoReq))"

definition request_DocumentService_BatchInsert_0 :: "('b, 's, 'w) gateway_handler" where
  "request_DocumentService_BatchInsert_0 codec client req pathParams =
     andThen (lift (read_body (dec_BatchInsert codec (hq_body req)))) (\<lambda>(collectionId, documents).
       call_client client (BatchInsertCall collectionId documents))"

definition request_DocumentService_BatchDelete_0 :: "('b, 's, 'w) gateway_handler" where
  "request_DocumentService_BatchDelete_0 codec client req pathParams =
     andThen (lift (read_body (dec_BatchDelete codec (hq_body req)))) (\<lambda>(collectionId, ids).
       call_client client (BatchDeleteCall collectionId ids))"

definition request_DocumentService_HybridSearch_0 :: "('b, 's, 'w) gateway_handler" where
  "request_DocumentService_HybridSearch_0 codec client req pathParams =
     andThen (lift (read_body (dec_HybridSearch codec (hq_body req)))) (\<lambda>protoReq.
       call_client client (HybridSearchCall protoReq))"

section \<open>Health\<close>

definition request_HealthService_Check_0 :: "('b, 's, 'w) gateway_handler" where
  "request_HealthService_Check_0 codec client req pathParams =
     andThen (lift (read_form (pop_HealthCheck codec) req)) (\<lambda>service. call_client client (HealthCheckCall service))"

definition request_HealthService_Check_1 :: "('b, 's, 'w) gateway_handler" where
  "request_HealthService_Check_1 codec client req pathParams =
     andThen (lift (read_form (pop_HealthCheck codec) req)) (\<lambda>service. call_client client (HealthCheckCall service))"

section \<open>Routes\<close>

text \<open>The pattern of a path: literal components and variables. A route also has the name under
  which its calls are annotated.\<close>

datatype segment = Lit string | Var string

record ('b, 's, 'w) route =
  rt_method :: string
  rt_pattern :: "segment list"
  rt_name :: string
  rt_handler :: "('b, 's, 'w) gateway_handler"

fun match_pattern :: "segment list \<Rightarrow> string list \<Rightarrow> path_params option" where
  "match_pattern [] [] = Some (\<lambda>_. None)"
| "match_pattern (Lit s # ps) (c # cs) = (if s = c then match_pattern ps cs else None)"
| "match_pattern (Var v # ps) (c # cs) = map_option (\<lambda>m. m(v \<mapsto> c)) (match_pattern ps cs)"
| "match_pattern _ _ = None"

definition RegisterCollectionServiceHandlerClient :: "('b, 's, 'w) route list" where
  "RegisterCollectionServiceHandlerClient =
    [\<lparr>rt_method = ''POST'', rt_pattern = [Lit ''api'', Lit ''v1'', Lit ''collections''],
      rt_name = ''/collection.CollectionService/CreateCollection'', rt_handler = request_CollectionService_CreateCollection_0\<rparr>,
     \<lparr>rt_method = ''GET'', rt_pattern = [Lit ''api'', Lit ''v1'', Lit ''collections'', Var ''id''],
      rt_name = ''/collection.CollectionService/ListCollection'', rt_handler = request_CollectionService_ListCollection_0\<rparr>,
     \<lparr>rt_method = ''GET'', rt_pattern = [Lit ''api'', Lit ''v1'', Lit ''collections''],
      rt_name = ''/collection.CollectionService/ListCollections'', rt_handler = request_CollectionService_ListCollections_0\<rparr>,
     \<lparr>rt_method = ''DELETE'', rt_pattern = [Lit ''api'', Lit ''v1'', Lit ''collections'', Var ''id''],
      rt_name = ''/collection.CollectionService/DeleteCollection'', rt_handler = request_CollectionService_DeleteCollection_0\<rparr>]"

definition RegisterDocumentServiceHandlerClient :: "('b, 's, 'w) route list" where
  "RegisterDocumentServiceHandlerClient =
    [\<lparr>rt_method = ''POST'', rt_pattern = [Lit ''api'', Lit ''v1'', Lit ''documents''],
      rt_name = ''/document.DocumentService/CreateDocument'', rt_handler = request_DocumentService_CreateDocument_0\<rparr>,
     \<lparr>rt_method = ''POST'', rt_pattern = [Lit ''api'', Lit ''v1'', Lit ''documents'', Lit ''ingest''],
      rt_name = ''/document.DocumentService/IngestDocument'', rt_handler = request_DocumentService_IngestDocument_0\<rparr>,
     \<lparr>rt_method = ''PUT'', rt_pattern = [Lit ''api'', Lit ''v1'', Lit ''documents'', Var ''id''],
      rt_name = ''/document.DocumentService/UpsertDocument'', rt_handler = request_DocumentService_UpsertDocument_0\<rparr>,
     \<lparr>rt_method = ''GET'', rt_pattern = [Lit ''api'', Lit ''v1'', Lit ''documents'', Var ''id''],
      rt_name = ''/document.DocumentService/ListDocument'', rt_handler = request_DocumentService_ListDocument_0\<rparr>,
     \<lparr>rt_method = ''GET'', rt_pattern = [Lit ''api'', Lit ''v1'', Lit ''documents''],
      rt_name = ''/document.DocumentService/ListDocuments'', rt_handler = request_DocumentService_ListDocuments_0\<rparr>,
     \<lparr>rt_method = ''DELETE'', rt_pattern = [Lit ''api'', Lit ''v1'', Lit ''documents'', Var ''id''],
      rt_name = ''/document.DocumentService/DeleteDocument'', rt_handler = request_DocumentService_DeleteDocument_0\<rparr>,
     \<lparr>rt_method = ''POST'', rt_pattern = [Lit ''api'', Lit ''v1'', Lit ''documents'', Lit ''search''],
      rt_name = ''/document.DocumentService/SearchDocuments'', rt_handler = request_DocumentService_SearchDocuments_0\<rparr>,
     \<lparr>rt_method = ''POST'', rt_pattern = [Lit ''api'', Lit ''v1'', Lit ''documents'', Lit ''text-search''],
      rt_name = ''/document.DocumentService/FullTextSearch'', rt_handler = request_DocumentService_FullTextSearch_0\<rparr>,
     \<lparr>rt_method = ''POST'', rt_pattern = [Lit ''api'', Lit ''v1'', Lit ''documents'', Lit ''batch''],
      rt_name = ''/document.DocumentService/BatchInsert'', rt_handler = request_DocumentService_BatchInsert_0\<rparr>,
     \<lparr>rt_method = ''POST'', rt_pattern = [Lit ''api'', Lit ''v1'', Lit ''documents'', Lit ''batch-delete''],
      rt_name = ''/document.DocumentService/BatchDelete'', rt_handler = request_DocumentService_BatchDelete_0\<rparr>,
     \<lparr>rt_method = ''POST'', rt_pattern = [Lit ''api'', Lit ''v1'', Lit ''documents'', Lit ''hybrid-search''],
      rt_name = ''/document.DocumentService/HybridSearch'', rt_handler = request_DocumentService_HybridSearch_0\<rparr>]"

definition RegisterHealthServiceHandlerClient :: "('b, 's, 'w) route list" where
  "RegisterHealthServiceHandlerClient =
    [\<lparr>rt_method = ''GET'', rt_pattern = [Lit ''health'', Lit ''live''],
      rt_name = ''/health.HealthService/Check'', rt_handler = request_HealthService_Check_0\<rparr>,
     \<lparr>rt_method = ''GET'', rt_pattern = [Lit ''health'', Lit ''ready''],
      rt_name = ''/health.HealthService/Check'', rt_handler = request_HealthService_Check_1\<rparr>]"

text \<open>The multiplexer of \<open>main\<close> with the three services. A route fits a request when its method and
  its pattern do.\<close>

definition gateway_routes :: "('b, 's, 'w) route list" where
  "gateway_routes =
     RegisterCollectionServiceHandlerClient @ RegisterDocumentServiceHandlerClient @ RegisterHealthServiceHandlerClient"

definition fits :: "'b http_request \<Rightarrow> ('b, 's, 'w) route \<Rightarrow> path_params option" where
  "fits req r = (if rt_method r = hq_method req then match_pattern (rt_pattern r) (hq_path req) else None)"

fun find_route :: "'b http_request \<Rightarrow> ('b, 's, 'w) route list \<Rightarrow> (('b, 's, 'w) route \<times> path_params) option" where
  "find_route req [] = None"
| "find_route req (r # rs) = (case fits req r of Some params \<Rightarrow> Some (r, params) | None \<Rightarrow> find_route req rs)"

datatype 's http_response = Forwarded "'s response" | HTTPError gateway_error | NoRoute | MetricsPage

definition gateway ::
  "('b, 's) codec \<Rightarrow> ('b http_request \<Rightarrow> string \<Rightarrow> gerror option) \<Rightarrow> ('w, 's) client \<Rightarrow> 'b http_request \<Rightarrow>
     ('w, gateway_error, 's http_response) op" where
  "gateway codec annotate client req =
     (case find_route req gateway_routes of
        None \<Rightarrow> ret NoRoute
      | Some (r, params) \<Rightarrow>
          (case annotate req (rt_name r) of
             Some e \<Rightarrow> ret (HTTPError (RpcError e))
           | None \<Rightarrow> handle (rt_handler r codec client req params) (\<lambda>resp. ret (Forwarded resp)) (\<lambda>e. ret (HTTPError e))))"

text \<open>The root multiplexer: the page of metrics, and the gateway behind the middleware, which
  counts the request under the status that was written. \<open>written\<close> gives the codes that the
  library writes for a response.\<close>

definition serve_http ::
  "('s, 'd, 'h) environment \<Rightarrow> (gerror \<Rightarrow> string) \<Rightarrow> ('b, 's) codec \<Rightarrow>
     ('b http_request \<Rightarrow> string \<Rightarrow> gerror option) \<Rightarrow> ('s http_response \<Rightarrow> int list) \<Rightarrow> 'b http_request \<Rightarrow>
     (request_meters \<times> ('d pool, 'h) world, gateway_error, 's http_response) op" where
  "serve_http env codeOf codec annotate written req =
     (if hq_path req = [''metrics''] then ret MetricsPage
      else andThen (gateway codec annotate (serve env codeOf) req) (\<lambda>resp.
             andThen (update (\<lambda>(m, w). (HTTPMiddleware (written resp) m, w))) (\<lambda>_. ret resp)))"

section \<open>Facts\<close>

text \<open>Two patterns that no path can match both.\<close>

fun apart :: "segment list \<Rightarrow> segment list \<Rightarrow> bool" where
  "apart [] [] = False"
| "apart (Lit s # ps) (Lit t # qs) = (s \<noteq> t \<or> apart ps qs)"
| "apart (p # ps) (q # qs) = apart ps qs"
| "apart _ _ = True"

lemma apart_match: "apart ps qs \<Longrightarrow> match_pattern ps cs = None \<or> match_pattern qs cs = None"
proof (induction ps arbitrary: qs cs)
  case Nil
  then show ?case by (cases qs; cases cs) auto
next
  case (Cons p ps)
  have empty: "match_pattern (p # ps) [] = None" by (cases p) auto
  show ?case
  proof (cases qs)
    case Nil
    then show ?thesis using empty by (cases cs) auto
  next
    case (Cons q qs')
    show ?thesis
    proof (cases cs)
      case (Cons c cs')
      with Cons.IH [of qs' cs'] Cons.prems \<open>qs = q # qs'\<close> show ?thesis by (cases p; cases q) auto
    qed (use empty in simp)
  qed
qed

definition route_keys :: "('b, 's, 'w) route list \<Rightarrow> (string \<times> segment list \<times> string) list" where
  "route_keys rs = map (\<lambda>r. (rt_method r, rt_pattern r, rt_name r)) rs"

lemma gateway_route_keys:
  "route_keys gateway_routes =
     [(''POST'', [Lit ''api'', Lit ''v1'', Lit ''collections''], ''/collection.CollectionService/CreateCollection''),
      (''GET'', [Lit ''api'', Lit ''v1'', Lit ''collections'', Var ''id''], ''/collection.CollectionService/ListCollection''),
      (''GET'', [Lit ''api'', Lit ''v1'', Lit ''collections''], ''/collection.CollectionService/ListCollections''),
      (''DELETE'', [Lit ''api'', Lit ''v1'', Lit ''collections'', Var ''id''], ''/collection.CollectionService/DeleteCollection''),
      (''POST'', [Lit ''api'', Lit ''v1'', Lit ''documents''], ''/document.DocumentService/CreateDocument''),
      (''POST'', [Lit ''api'', Lit ''v1'', Lit ''documents'', Lit ''ingest''], ''/document.DocumentService/IngestDocument''),
      (''PUT'', [Lit ''api'', Lit ''v1'', Lit ''documents'', Var ''id''], ''/document.DocumentService/UpsertDocument''),
      (''GET'', [Lit ''api'', Lit ''v1'', Lit ''documents'', Var ''id''], ''/document.DocumentService/ListDocument''),
      (''GET'', [Lit ''api'', Lit ''v1'', Lit ''documents''], ''/document.DocumentService/ListDocuments''),
      (''DELETE'', [Lit ''api'', Lit ''v1'', Lit ''documents'', Var ''id''], ''/document.DocumentService/DeleteDocument''),
      (''POST'', [Lit ''api'', Lit ''v1'', Lit ''documents'', Lit ''search''], ''/document.DocumentService/SearchDocuments''),
      (''POST'', [Lit ''api'', Lit ''v1'', Lit ''documents'', Lit ''text-search''], ''/document.DocumentService/FullTextSearch''),
      (''POST'', [Lit ''api'', Lit ''v1'', Lit ''documents'', Lit ''batch''], ''/document.DocumentService/BatchInsert''),
      (''POST'', [Lit ''api'', Lit ''v1'', Lit ''documents'', Lit ''batch-delete''], ''/document.DocumentService/BatchDelete''),
      (''POST'', [Lit ''api'', Lit ''v1'', Lit ''documents'', Lit ''hybrid-search''], ''/document.DocumentService/HybridSearch''),
      (''GET'', [Lit ''health'', Lit ''live''], ''/health.HealthService/Check''),
      (''GET'', [Lit ''health'', Lit ''ready''], ''/health.HealthService/Check'')]"
  by (simp add: route_keys_def gateway_routes_def RegisterCollectionServiceHandlerClient_def
      RegisterDocumentServiceHandlerClient_def RegisterHealthServiceHandlerClient_def)

text \<open>Every two routes differ in the method or are apart.\<close>

fun all_apart :: "(string \<times> segment list \<times> string) list \<Rightarrow> bool" where
  "all_apart [] = True"
| "all_apart ((m, p, n) # ks) = (list_all (\<lambda>(m', p', n'). m \<noteq> m' \<or> apart p p') ks \<and> all_apart ks)"

lemma routes_apart: "all_apart (route_keys gateway_routes)"
  unfolding gateway_route_keys by code_simp

lemma all_apart_nth:
  assumes "all_apart (route_keys rs)" and "i < j" and "j < length rs"
  shows "fits req (rs ! i) = None \<or> fits req (rs ! j) = None"
  using assms
proof (induction rs arbitrary: i j)
  case (Cons r rs)
  show ?case
  proof (cases i)
    case 0
    from Cons.prems(2,3) obtain k where k: "j = Suc k" "k < length rs" by (cases j) auto
    then have "rs ! k \<in> set rs" by simp
    with Cons.prems(1) have "rt_method r \<noteq> rt_method (rs ! k) \<or> apart (rt_pattern r) (rt_pattern (rs ! k))"
      by (auto simp: route_keys_def list_all_iff)
    with 0 k show ?thesis using apart_match by (auto simp: fits_def)
  next
    case (Suc i')
    with Cons show ?thesis by (cases j) (auto simp: route_keys_def)
  qed
qed simp

end
