(* ===== verification/Gateway_Properties.thy ===== *)
theory Gateway_Properties
  imports Gateway
begin

text \<open>
  What the gateway does with a request: the route is unique, so the order of registration does
  not matter; a request becomes at most one call of the method that its route names; the id
  of an upsert is the one in the path; and the probe for readiness never asks the database.
\<close>

section \<open>Routing\<close>

lemma find_route_Some:
  "find_route req rs = Some (r, params) \<Longrightarrow> r \<in> set rs \<and> fits req r = Some params"
  by (induction rs) (auto split: option.splits)

lemma find_route_None: "find_route req rs = None \<longleftrightarrow> (\<forall>r\<in>set rs. fits req r = None)"
  by (induction rs) (auto split: option.splits)

lemma unique_route:
  fixes r1 r2 :: "('b, 's, 'w) route"
  assumes "r1 \<in> set gateway_routes" and "r2 \<in> set gateway_routes"
    and "fits req r1 \<noteq> None" and "fits req r2 \<noteq> None"
  shows "r1 = r2"
proof -
  let ?g = "gateway_routes :: ('b, 's, 'w) route list"
  from assms(1) obtain i where i: "?g ! i = r1" "i < length ?g" unfolding in_set_conv_nth by blast
  from assms(2) obtain j where j: "?g ! j = r2" "j < length ?g" unfolding in_set_conv_nth by blast
  have "fits req r1 = None \<or> fits req r2 = None" if "i < j"
    using all_apart_nth [OF routes_apart that j(2), of req] unfolding i j .
  then have "\<not> i < j" using assms(3,4) by blast
  moreover have "fits req r2 = None \<or> fits req r1 = None" if "j < i"
    using all_apart_nth [OF routes_apart that i(2), of req] unfolding i j .
  then have "\<not> j < i" using assms(3,4) by blast
  ultimately have "i = j" by simp
  then show ?thesis using i j by simp
qed

text \<open>C34 At most one route fits a request, so whatever order the multiplexer tries them in, it
  finds the same handler and the same path parameters.\<close>

theorem route_order_is_irrelevant:
  assumes "set rs = set (gateway_routes :: ('b, 's, 'w) route list)"
  shows "find_route req rs = find_route req gateway_routes"
proof (cases "find_route req rs")
  case None
  with assms show ?thesis by (metis find_route_None)
next
  case (Some rp)
  obtain r params where rp: "rp = (r, params)" by fastforce
  have r: "r \<in> set rs" "fits req r = Some params" using find_route_Some [of req rs r params] Some rp by simp_all
  then have "\<not> (\<forall>r\<in>set (gateway_routes :: ('b, 's, 'w) route list). fits req r = None)" using assms by force
  then have "find_route req (gateway_routes :: ('b, 's, 'w) route list) \<noteq> None" by (simp add: find_route_None)
  then obtain rp' where f: "find_route req (gateway_routes :: ('b, 's, 'w) route list) = Some rp'" by blast
  obtain r' params' where rp': "rp' = (r', params')" by fastforce
  have r': "r' \<in> set gateway_routes" "fits req r' = Some params'"
    using find_route_Some [of req gateway_routes r' params'] f rp' by simp_all
  have "r' = r" using unique_route [of r' r] r r' assms by auto
  with f r r' Some rp rp' show ?thesis by simp
qed

lemma route_order_is_irrelevant_witness:
  "find_route \<lparr>hq_method = ''GET'', hq_path = [''health'', ''live''], hq_body = (), hq_form = Ok []\<rparr>
     (rev (gateway_routes :: (unit, unit, unit) route list)) =
   find_route \<lparr>hq_method = ''GET'', hq_path = [''health'', ''live''], hq_body = (), hq_form = Ok []\<rparr> gateway_routes"
  by (rule route_order_is_irrelevant) simp

section \<open>Calls\<close>

text \<open>A handler makes no call and reports an error, or makes one call of the method \<open>name\<close>.\<close>

definition one_call :: "string \<Rightarrow> ('b, 's, 'w) gateway_handler \<Rightarrow> bool" where
  "one_call name h \<longleftrightarrow>
     (\<forall>codec client req params w.
        (snd (h codec client req params w) = w \<and> (\<forall>resp. fst (h codec client req params w) \<noteq> Ok resp)) \<or>
        (\<exists>call. FullMethod call = name \<and> h codec client req params w = call_client client call w))"

lemma lift_then_cases:
  "(snd (andThen (lift r) f w) = w \<and> (\<forall>y. fst (andThen (lift r) f w) \<noteq> Ok y)) \<or>
   (\<exists>x. r = Ok x \<and> andThen (lift r) f w = f x w)"
  by (cases r) (simp_all add: andThen_run lift_run)

lemma one_call_after:
  assumes "\<And>x. FullMethod (g x) = name"
  shows "(snd (andThen (lift r) (\<lambda>x. call_client client (g x)) w) = w \<and>
          (\<forall>y. fst (andThen (lift r) (\<lambda>x. call_client client (g x)) w) \<noteq> Ok y)) \<or>
         (\<exists>call. FullMethod call = name \<and> andThen (lift r) (\<lambda>x. call_client client (g x)) w = call_client client call w)"
  using lift_then_cases [of r "\<lambda>x. call_client client (g x)" w] assms by blast

lemma one_call_after2:
  assumes "\<And>x y. FullMethod (g x y) = name"
  shows "(snd (andThen (lift r) (\<lambda>x. andThen (lift (q x)) (\<lambda>y. call_client client (g x y))) w) = w \<and>
          (\<forall>z. fst (andThen (lift r) (\<lambda>x. andThen (lift (q x)) (\<lambda>y. call_client client (g x y))) w) \<noteq> Ok z)) \<or>
         (\<exists>call. FullMethod call = name \<and>
            andThen (lift r) (\<lambda>x. andThen (lift (q x)) (\<lambda>y. call_client client (g x y))) w = call_client client call w)"
proof (cases "\<exists>x. r = Ok x")
  case True
  then obtain x where "r = Ok x" by blast
  then show ?thesis using one_call_after [of "g x" name "q x" client w] assms by (simp add: andThen_run lift_run)
next
  case False
  then show ?thesis by (cases r) (simp_all add: andThen_run lift_run)
qed

lemma calls_of_handlers:
  "one_call ''/collection.CollectionService/CreateCollection'' request_CollectionService_CreateCollection_0"
  "one_call ''/collection.CollectionService/ListCollection'' request_CollectionService_ListCollection_0"
  "one_call ''/collection.CollectionService/ListCollections'' request_CollectionService_ListCollections_0"
  "one_call ''/collection.CollectionService/DeleteCollection'' request_CollectionService_DeleteCollection_0"
  "one_call ''/document.DocumentService/CreateDocument'' request_DocumentService_CreateDocument_0"
  "one_call ''/document.DocumentService/IngestDocument'' request_DocumentService_IngestDocument_0"
  "one_call ''/document.DocumentService/UpsertDocument'' request_DocumentService_UpsertDocument_0"
  "one_call ''/document.DocumentService/ListDocument'' request_DocumentService_ListDocument_0"
  "one_call ''/document.DocumentService/ListDocuments'' request_DocumentService_ListDocuments_0"
  "one_call ''/document.DocumentService/DeleteDocument'' request_DocumentService_DeleteDocument_0"
  "one_call ''/document.DocumentService/SearchDocuments'' request_DocumentService_SearchDocuments_0"
  "one_call ''/document.DocumentService/FullTextSearch'' request_DocumentService_FullTextSearch_0"
  "one_call ''/document.DocumentService/BatchInsert'' request_DocumentService_BatchInsert_0"
  "one_call ''/document.DocumentService/BatchDelete'' request_DocumentService_BatchDelete_0"
  "one_call ''/document.DocumentService/HybridSearch'' request_DocumentService_HybridSearch_0"
  "one_call ''/health.HealthService/Check'' request_HealthService_Check_0"
  "one_call ''/health.HealthService/Check'' request_HealthService_Check_1"
  unfolding one_call_def request_CollectionService_CreateCollection_0_def request_CollectionService_ListCollection_0_def
    request_CollectionService_ListCollections_0_def request_CollectionService_DeleteCollection_0_def
    request_DocumentService_CreateDocument_0_def request_DocumentService_IngestDocument_0_def
    request_DocumentService_UpsertDocument_0_def request_DocumentService_ListDocument_0_def
    request_DocumentService_ListDocuments_0_def request_DocumentService_DeleteDocument_0_def
    request_DocumentService_SearchDocuments_0_def request_DocumentService_FullTextSearch_0_def
    request_DocumentService_BatchInsert_0_def request_DocumentService_BatchDelete_0_def
    request_DocumentService_HybridSearch_0_def request_HealthService_Check_0_def request_HealthService_Check_1_def
    case_prod_beta
  by (intro allI one_call_after one_call_after2; simp)+

lemma routes_call: "list_all (\<lambda>r. one_call (rt_name r) (rt_handler r)) gateway_routes"
  by (simp add: gateway_routes_def RegisterCollectionServiceHandlerClient_def RegisterDocumentServiceHandlerClient_def
      RegisterHealthServiceHandlerClient_def calls_of_handlers)

text \<open>C16 An HTTP request is at most one call: either the server is not touched and nothing is
  forwarded, or there is a unique route that fits and one call of exactly the method the
  route names, and its result or its error is what the client gets.\<close>

theorem http_request_is_one_call:
  fixes codec :: "('b, 's) codec" and client :: "('w, 's) client"
  shows "(snd (gateway codec annotate client req w) = w \<and>
      (\<forall>resp. fst (gateway codec annotate client req w) \<noteq> Ok (Forwarded resp))) \<or>
   (\<exists>r params call. find_route req (gateway_routes :: ('b, 's, 'w) route list) = Some (r, params) \<and> FullMethod call = rt_name r \<and>
      snd (gateway codec annotate client req w) = snd (client call w) \<and>
      fst (gateway codec annotate client req w) =
        (case fst (client call w) of
           Ok resp \<Rightarrow> Ok (Forwarded resp)
         | Err e \<Rightarrow> Ok (HTTPError (RpcError e))
         | Panic m \<Rightarrow> Panic m
         | Diverge \<Rightarrow> Diverge))"
proof (cases "find_route req (gateway_routes :: ('b, 's, 'w) route list)")
  case None
  then show ?thesis by (simp add: gateway_def ret_run)
next
  case (Some rp)
  obtain r params where rp: "rp = (r, params)" by fastforce
  have "r \<in> set gateway_routes" using find_route_Some Some rp by blast
  then have one: "one_call (rt_name r) (rt_handler r)" using routes_call by (auto simp: list_all_iff)
  show ?thesis
  proof (cases "annotate req (rt_name r)")
    case None
    obtain o1 w1 where h: "rt_handler r codec client req params w = (o1, w1)" by fastforce
    from one [unfolded one_call_def, rule_format, of codec client req params w] h
    consider "w1 = w" "\<forall>resp. o1 \<noteq> Ok resp"
      | call where "FullMethod call = rt_name r" "call_client client call w = (o1, w1)" by auto
    then show ?thesis
    proof cases
      case 1
      then show ?thesis using h Some rp None
        by (cases o1) (simp_all add: gateway_def handle_run ret_run)
    next
      case (2 call)
      obtain c v where c: "client call w = (c, v)" by fastforce
      have "gateway codec annotate client req w =
          ((case c of Ok resp \<Rightarrow> Ok (Forwarded resp) | Err e \<Rightarrow> Ok (HTTPError (RpcError e)) | Panic m \<Rightarrow> Panic m
            | Diverge \<Rightarrow> Diverge), v)"
        using 2(2) c h Some rp None by (cases c) (auto simp: gateway_def handle_run ret_run call_client_def)
      then show ?thesis using 2(1) c Some rp by (intro disjI2 exI [of _ r] exI [of _ params] exI [of _ call]) simp
    qed
  qed (use Some rp in \<open>simp add: gateway_def ret_run\<close>)
qed

text \<open>The codec on empty bodies and without query parameters: the empty messages.\<close>

definition empty_codec :: "(unit, 's) codec" where
  "empty_codec =
     \<lparr>dec_CreateCollection = (\<lambda>_. (\<lparr>cc_Name = [], cc_VectorDimension = 0, cc_MetadataSchema = None, cc_DistanceMetric = [],
        cc_EmbeddingProvider = [], cc_EmbeddingModel = []\<rparr>, Some (ErrNew ''EOF''))),
      dec_CreateDocument = (\<lambda>_. (\<lparr>cd_CollectionId = [], cd_Content = [], cd_Vector = [], cd_Metadata = None\<rparr>, Some (ErrNew ''EOF''))),
      dec_IngestDocument = (\<lambda>_. (\<lparr>id_CollectionId = [], id_Content = [], id_Metadata = None, id_ChunkingConfig = None\<rparr>,
        Some (ErrNew ''EOF''))),
      dec_UpsertDocument = (\<lambda>_. (\<lparr>ud_Id = [], ud_CollectionId = [], ud_Content = [], ud_Vector = [], ud_Metadata = None\<rparr>,
        Some (ErrNew ''EOF''))),
      dec_SearchDocument = (\<lambda>_. (\<lparr>sd_CollectionId = [], sd_QueryVector = [], sd_TopK = 0, sd_MetadataFilter = None,
        sd_IncludeVector = False, sd_MinThreshold = f_zero\<rparr>, Some (ErrNew ''EOF''))),
      dec_FullTextSearch = (\<lambda>_. (\<lparr>ft_CollectionId = [], ft_Query = [], ft_Limit = 0, ft_MinRank = f_zero,
        ft_IncludeVector = False\<rparr>, Some (ErrNew ''EOF''))),
      dec_BatchInsert = (\<lambda>_. (([], []), Some (ErrNew ''EOF''))),
      dec_BatchDelete = (\<lambda>_. (([], []), Some (ErrNew ''EOF''))),
      dec_HybridSearch = (\<lambda>_. (\<lparr>hs_CollectionId = [], hs_QueryVector = [], hs_QueryText = [], hs_TopK = 0,
        hs_VectorWeight = f_zero, hs_TextWeight = f_zero, hs_IncludeVector = False, hs_Metadata = None\<rparr>, Some (ErrNew ''EOF''))),
      pop_ListCollections = (\<lambda>_. Ok (0, 0)), pop_ListDocuments = (\<lambda>_. Ok ([], 0, 0, False)), pop_HealthCheck = (\<lambda>_. Ok [])\<rparr>"

text \<open>A request for a path of the third group of routes, and one for an upsert.\<close>

lemma route_ready:
  "hq_method req = ''GET'' \<Longrightarrow> hq_path req = [''health'', ''ready''] \<Longrightarrow>
     find_route req gateway_routes =
       Some (\<lparr>rt_method = ''GET'', rt_pattern = [Lit ''health'', Lit ''ready''], rt_name = ''/health.HealthService/Check'',
              rt_handler = request_HealthService_Check_1\<rparr>, \<lambda>_. None)"
  by (simp add: gateway_routes_def RegisterCollectionServiceHandlerClient_def RegisterDocumentServiceHandlerClient_def
      RegisterHealthServiceHandlerClient_def fits_def)

lemma route_upsert:
  "hq_method req = ''PUT'' \<Longrightarrow> hq_path req = [''api'', ''v1'', ''documents'', i] \<Longrightarrow>
     find_route req gateway_routes =
       Some (\<lparr>rt_method = ''PUT'', rt_pattern = [Lit ''api'', Lit ''v1'', Lit ''documents'', Var ''id''],
              rt_name = ''/document.DocumentService/UpsertDocument'', rt_handler = request_DocumentService_UpsertDocument_0\<rparr>,
             [''id'' \<mapsto> i])"
  by (simp add: gateway_routes_def RegisterCollectionServiceHandlerClient_def RegisterDocumentServiceHandlerClient_def
      RegisterHealthServiceHandlerClient_def fits_def)

text \<open>C33 An upsert over HTTP writes the document whose id is in the path: the id in the body is
  ignored, everything else of the body is sent on, and an empty body is an empty message.\<close>

theorem http_upsert_takes_path_id:
  assumes "hq_method req = ''PUT''" and "hq_path req = [''api'', ''v1'', ''documents'', i]"
    and "\<And>name. annotate req name = None"
    and "dec_UpsertDocument codec (hq_body req) = (msg, err)" and "err = None \<or> err = Some (ErrNew ''EOF'')"
    and "client (UpsertDocumentCall (msg\<lparr>ud_Id := i\<rparr>)) w = (Ok resp, w')"
  shows "gateway codec annotate client req w = (Ok (Forwarded resp), w')"
proof -
  have "read_body (dec_UpsertDocument codec (hq_body req)) = Ok msg"
    using assms(4,5) by (auto simp: read_body_def)
  then have "request_DocumentService_UpsertDocument_0 codec client req [''id'' \<mapsto> i] w = (Ok resp, w')"
    using assms(6)
    by (simp add: request_DocumentService_UpsertDocument_0_def path_id_def andThen_run lift_run call_client_def)
  then show ?thesis
    by (simp add: gateway_def route_upsert [OF assms(1,2)] assms(3) handle_run ret_run)
qed

lemma http_upsert_takes_path_id_witness:
  "gateway (empty_codec :: (unit, unit) codec) (\<lambda>_ _. None)
     (\<lambda>call (n :: nat). case call of UpsertDocumentCall m \<Rightarrow> (Ok (UpsertDocumentResponse (ud_Id m, True, 1, 1)), n + 1)
        | _ \<Rightarrow> (Err ErrNoRows, n))
     \<lparr>hq_method = ''PUT'', hq_path = [''api'', ''v1'', ''documents'', ''d7''], hq_body = (), hq_form = Ok []\<rparr> 4 =
   (Ok (Forwarded (UpsertDocumentResponse (''d7'', True, 1, 1))), 5)"
  by (rule http_upsert_takes_path_id) (auto simp: empty_codec_def)

text \<open>C19 The readiness probe of the HTTP interface does not look at the database: without a query
  parameter it is answered SERVING whatever the driver does, also when every ping fails,
  because the call carries an empty service name and is a check for liveness.\<close>

theorem http_ready_ignores_database:
  assumes "hq_method req = ''GET''" and "hq_path req = [''health'', ''ready'']"
    and "hq_form req = Ok []" and "pop_HealthCheck codec [] = Ok []" and "\<And>name. annotate req name = None"
  shows "fst (serve_http env codeOf codec annotate written req s) = Ok (Forwarded (HealthCheckResponse SERVING)) \<and>
         store (snd (snd (serve_http env codeOf codec annotate written req s))) = store (snd s)"
proof -
  obtain m w where s: "s = (m, w)" by fastforce
  have d: "dispatch env (HealthCheckCall []) w = (Ok (HealthCheckResponse SERVING), w)"
    by (simp add: responding_def Health_Check_def CheckLiveness_def andThen_def handle_def on_store_def ret_def)
  then obtain m' where c: "serve env codeOf (HealthCheckCall []) (m, w) = (Ok (HealthCheckResponse SERVING), (m', w))"
    by (simp add: serve_def UnaryServerInterceptor_def Let_def)
  have "request_HealthService_Check_1 codec (serve env codeOf) req params (m, w) = (Ok (HealthCheckResponse SERVING), (m', w))" for params
    by (simp add: request_HealthService_Check_1_def read_form_def assms(3,4) invalid_def andThen_run lift_run
        call_client_def c)
  then have "gateway codec annotate (serve env codeOf) req (m, w) = (Ok (Forwarded (HealthCheckResponse SERVING)), (m', w))"
    by (simp add: gateway_def route_ready [OF assms(1,2)] assms(5) handle_run ret_run)
  then show ?thesis
    using assms(2) by (simp add: s serve_http_def andThen_run update_run ret_run)
qed

text \<open>The same check asked for by its name over gRPC reports a database that does not answer.\<close>

lemma rpc_readiness_asks_database:
  assumes "drv_Ping (driver_of env) (server (store w)) = (Err e, d)"
  shows "fst (dispatch env (HealthCheckCall ''readiness'') w) = Ok (HealthCheckResponse NOT_SERVING)"
  using assms
  by (simp add: responding_def Health_Check_def CheckReadiness_def andThen_def handle_def on_store_def on_server_def
      ret_def fail_def)

definition dead_env :: "((string \<times> jval) list, nat \<times> nat option, unit) environment" where
  "dead_env = demo_env\<lparr>driver_of := snapshot_driver\<lparr>drv_Ping := fail (ErrNew ''connection refused'')\<rparr>\<rparr>"

lemma http_ready_ignores_database_witness:
  "fst (serve_http dead_env (\<lambda>_. ''Unknown'') empty_codec (\<lambda>_ _. None) (\<lambda>_. [])
      \<lparr>hq_method = ''GET'', hq_path = [''health'', ''ready''], hq_body = (), hq_form = Ok []\<rparr>
      (request_meters_of no_calls, started (0, None) ())) = Ok (Forwarded (HealthCheckResponse SERVING))"
  by (rule http_ready_ignores_database [THEN conjunct1]) (simp_all add: empty_codec_def)

lemma http_request_is_one_call_witness:
  "\<exists>r params call. find_route \<lparr>hq_method = ''GET'', hq_path = [''health'', ''ready''], hq_body = (), hq_form = Ok []\<rparr>
       (gateway_routes :: (unit, unit, nat) route list) = Some (r, params) \<and>
     FullMethod (call :: unit request) = rt_name r"
proof -
  let ?req = "\<lparr>hq_method = ''GET'', hq_path = [''health'', ''ready''], hq_body = (), hq_form = Ok []\<rparr>"
  let ?client = "(\<lambda>call n. (Ok (HealthCheckResponse SERVING), n + 1)) :: (nat, unit) client"
  have "snd (gateway empty_codec (\<lambda>_ _. None) ?client ?req 0) = 1"
    by (simp add: gateway_def route_ready handle_def request_HealthService_Check_1_def read_form_def invalid_def
        empty_codec_def andThen_run lift_run call_client_def ret_run)
  then show ?thesis using http_request_is_one_call [of empty_codec "\<lambda>_ _. None" ?client ?req 0] by auto
qed

end
