(* ===== verification/Gateway_Local.thy ===== *)
theory Gateway_Local
  imports Gateway_Properties
begin

text \<open>
  The gateway in process: the second half of \<open>api/proto/v1/generated/*.pb.gw.go\<close>, handlers that
  call a method of the server directly instead of over a connection, and the functions
  \<open>Register*HandlerServer\<close> that register them. \<open>main\<close> does not use them; they are the documented
  alternative, and it is proved that they serve every request as the gateway of \<open>main\<close> does,
  except that the interceptor does not see the calls.
\<close>

section \<open>The call\<close>

definition call_server :: "('w, 's) client \<Rightarrow> 's request \<Rightarrow> ('w, gateway_error, 's response) op" where
  "call_server srv r w =
     (case srv r w of
        (Ok msg, w') \<Rightarrow> (Ok msg, w')
      | (Err e, w') \<Rightarrow> (Err (RpcError e), w')
      | (Panic m, w') \<Rightarrow> (Panic m, w')
      | (Diverge, w') \<Rightarrow> (Diverge, w'))"

section \<open>Collections, in process\<close>

definition local_request_CollectionService_CreateCollection_0 :: "('b, 's, 'w) gateway_handler" where
  "local_request_CollectionService_CreateCollection_0 codec srv req pathParams =
     andThen (lift (read_body (dec_CreateCollection codec (hq_body req)))) (\<lambda>protoReq.
       call_server srv (CreateCollectionCall protoReq))"

definition local_request_CollectionService_ListCollection_0 :: "('b, 's, 'w) gateway_handler" where
  "local_request_CollectionService_ListCollection_0 codec srv req pathParams =
     andThen (lift (path_id pathParams)) (\<lambda>i. call_server srv (ListCollectionCall i))"

definition local_request_CollectionService_ListCollections_0 :: "('b, 's, 'w) gateway_handler" where
  "local_request_CollectionService_ListCollections_0 codec srv req pathParams =
     andThen (lift (read_form (pop_ListCollections codec) req)) (\<lambda>(limit, offset).
       call_server srv (ListCollectionsCall limit offset))"

definition local_request_CollectionService_DeleteCollection_0 :: "('b, 's, 'w) gateway_handler" where
  "local_request_CollectionService_DeleteCollection_0 codec srv req pathParams =
     andThen (lift (path_id pathParams)) (\<lambda>i. call_server srv (DeleteCollectionCall i))"

section \<open>Documents, in process\<close>

definition local_request_DocumentService_CreateDocument_0 :: "('b, 's, 'w) gateway_handler" where
  "local_request_DocumentService_CreateDocument_0 codec srv req pathParams =
     andThen (lift (read_body (dec_CreateDocument codec (hq_body req)))) (\<lambda>protoReq.
       call_server srv (CreateDocumentCall protoReq))"

definition local_request_DocumentService_IngestDocument_0 :: "('b, 's, 'w) gateway_handler" where
  "local_request_DocumentService_IngestDocument_0 codec srv req pathParams =
     andThen (lift (read_body (dec_IngestDocument codec (hq_body req)))) (\<lambda>protoReq.
       call_server srv (IngestDocumentCall protoReq))"

text \<open>The id of an upsert is the one in the path, whatever the body says.\<close>

definition local_request_DocumentService_UpsertDocument_0 :: "('b, 's, 'w) gateway_handler" where
  "local_request_DocumentService_UpsertDocument_0 codec srv req pathParams =
     andThen (lift (read_body (dec_UpsertDocument codec (hq_body req)))) (\<lambda>protoReq.
     andThen (lift (path_id pathParams)) (\<lambda>i.
       call_server srv (UpsertDocumentCall (protoReq\<lparr>ud_Id := i\<rparr>))))"

definition local_request_DocumentService_ListDocument_0 :: "('b, 's, 'w) gateway_handler" where
  "local_request_DocumentService_ListDocument_0 codec srv req pathParams =
     andThen (lift (path_id pathParams)) (\<lambda>i. call_server srv (ListDocumentCall i))"

definition local_request_DocumentService_ListDocuments_0 :: "('b, 's, 'w) gateway_handler" where
  "local_request_DocumentService_ListDocuments_0 codec srv req pathParams =
     andThen (lift (read_form (pop_ListDocuments codec) req)) (\<lambda>(collectionId, limit, offset, includeVector).
       call_server srv (ListDocumentsCall collectionId limit offset includeVector))"

definition local_request_DocumentService_DeleteDocument_0 :: "('b, 's, 'w) gateway_handler" where
  "local_request_DocumentService_DeleteDocument_0 codec srv req pathParams =
     andThen (lift (path_id pathParams)) (\<lambda>i. call_server srv (DeleteDocumentCall i))"

definition local_request_DocumentService_SearchDocuments_0 :: "('b, 's, 'w) gateway_handler" where
  "local_request_DocumentService_SearchDocuments_0 codec srv req pathParams =
     andThen (lift (read_body (dec_SearchDocument codec (hq_body req)))) (\<lambda>protoReq.
       call_server srv (SearchDocumentsCall protoReq))"

definition local_request_DocumentService_FullTextSearch_0 :: "('b, 's, 'w) gateway_handler" where
  "local_request_DocumentService_FullTextSearch_0 codec srv req pathParams =
     andThen (lift (read_body (dec_FullTextSearch codec (hq_body req)))) (\<lambda>protoReq.
       call_server srv (FullTextSearchCall protoReq))"

definition local_request_DocumentService_BatchInsert_0 :: "('b, 's, 'w) gateway_handler" where
  "local_request_DocumentService_BatchInsert_0 codec srv req pathParams =
     andThen (lift (read_body (dec_BatchInsert codec (hq_body req)))) (\<lambda>(collectionId, documents).
       call_server srv (BatchInsertCall collectionId documents))"

definition local_request_DocumentService_BatchDelete_0 :: "('b, 's, 'w) gateway_handler" where
  "local_request_DocumentService_BatchDelete_0 codec srv req pathParams =
     andThen (lift (read_body (dec_BatchDelete codec (hq_body req)))) (\<lambda>(collectionId, ids).
       call_server srv (BatchDeleteCall collectionId ids))"

definition local_request_DocumentService_HybridSearch_0 :: "('b, 's, 'w) gateway_handler" where
  "local_request_DocumentService_HybridSearch_0 codec srv req pathParams =
     andThen (lift (read_body (dec_HybridSearch codec (hq_body req)))) (\<lambda>protoReq.
       call_server srv (HybridSearchCall protoReq))"

section \<open>Health, in process\<close>

definition local_request_HealthService_Check_0 :: "('b, 's, 'w) gateway_handler" where
  "local_request_HealthService_Check_0 codec srv req pathParams =
     andThen (lift (read_form (pop_HealthCheck codec) req)) (\<lambda>service. call_server srv (HealthCheckCall service))"

definition local_request_HealthService_Check_1 :: "('b, 's, 'w) gateway_handler" where
  "local_request_HealthService_Check_1 codec srv req pathParams =
     andThen (lift (read_form (pop_HealthCheck codec) req)) (\<lambda>service. call_server srv (HealthCheckCall service))"

section \<open>Routes, in process\<close>

definition RegisterCollectionServiceHandlerServer :: "('b, 's, 'w) route list" where
  "RegisterCollectionServiceHandlerServer =
    [\<lparr>rt_method = ''POST'', rt_pattern = [Lit ''api'', Lit ''v1'', Lit ''collections''],
      rt_name = ''/collection.CollectionService/CreateCollection'', rt_handler = local_request_CollectionService_CreateCollection_0\<rparr>,
     \<lparr>rt_method = ''GET'', rt_pattern = [Lit ''api'', Lit ''v1'', Lit ''collections'', Var ''id''],
      rt_name = ''/collection.CollectionService/ListCollection'', rt_handler = local_request_CollectionService_ListCollection_0\<rparr>,
     \<lparr>rt_method = ''GET'', rt_pattern = [Lit ''api'', Lit ''v1'', Lit ''collections''],
      rt_name = ''/collection.CollectionService/ListCollections'', rt_handler = local_request_CollectionService_ListCollections_0\<rparr>,
     \<lparr>rt_method = ''DELETE'', rt_pattern = [Lit ''api'', Lit ''v1'', Lit ''collections'', Var ''id''],
      rt_name = ''/collection.CollectionService/DeleteCollection'', rt_handler = local_request_CollectionService_DeleteCollection_0\<rparr>]"

definition RegisterDocumentServiceHandlerServer :: "('b, 's, 'w) route list" where
  "RegisterDocumentServiceHandlerServer =
    [\<lparr>rt_method = ''POST'', rt_pattern = [Lit ''api'', Lit ''v1'', Lit ''documents''],
      rt_name = ''/document.DocumentService/CreateDocument'', rt_handler = local_request_DocumentService_CreateDocument_0\<rparr>,
     \<lparr>rt_method = ''POST'', rt_pattern = [Lit ''api'', Lit ''v1'', Lit ''documents'', Lit ''ingest''],
      rt_name = ''/document.DocumentService/IngestDocument'', rt_handler = local_request_DocumentService_IngestDocument_0\<rparr>,
     \<lparr>rt_method = ''PUT'', rt_pattern = [Lit ''api'', Lit ''v1'', Lit ''documents'', Var ''id''],
      rt_name = ''/document.DocumentService/UpsertDocument'', rt_handler = local_request_DocumentService_UpsertDocument_0\<rparr>,
     \<lparr>rt_method = ''GET'', rt_pattern = [Lit ''api'', Lit ''v1'', Lit ''documents'', Var ''id''],
      rt_name = ''/document.DocumentService/ListDocument'', rt_handler = local_request_DocumentService_ListDocument_0\<rparr>,
     \<lparr>rt_method = ''GET'', rt_pattern = [Lit ''api'', Lit ''v1'', Lit ''documents''],
      rt_name = ''/document.DocumentService/ListDocuments'', rt_handler = local_request_DocumentService_ListDocuments_0\<rparr>,
     \<lparr>rt_method = ''DELETE'', rt_pattern = [Lit ''api'', Lit ''v1'', Lit ''documents'', Var ''id''],
      rt_name = ''/document.DocumentService/DeleteDocument'', rt_handler = local_request_DocumentService_DeleteDocument_0\<rparr>,
     \<lparr>rt_method = ''POST'', rt_pattern = [Lit ''api'', Lit ''v1'', Lit ''documents'', Lit ''search''],
      rt_name = ''/document.DocumentService/SearchDocuments'', rt_handler = local_request_DocumentService_SearchDocuments_0\<rparr>,
     \<lparr>rt_method = ''POST'', rt_pattern = [Lit ''api'', Lit ''v1'', Lit ''documents'', Lit ''text-search''],
      rt_name = ''/document.DocumentService/FullTextSearch'', rt_handler = local_request_DocumentService_FullTextSearch_0\<rparr>,
     \<lparr>rt_method = ''POST'', rt_pattern = [Lit ''api'', Lit ''v1'', Lit ''documents'', Lit ''batch''],
      rt_name = ''/document.DocumentService/BatchInsert'', rt_handler = local_request_DocumentService_BatchInsert_0\<rparr>,
     \<lparr>rt_method = ''POST'', rt_pattern = [Lit ''api'', Lit ''v1'', Lit ''documents'', Lit ''batch-delete''],
      rt_name = ''/document.DocumentService/BatchDelete'', rt_handler = local_request_DocumentService_BatchDelete_0\<rparr>,
     \<lparr>rt_method = ''POST'', rt_pattern = [Lit ''api'', Lit ''v1'', Lit ''documents'', Lit ''hybrid-search''],
      rt_name = ''/document.DocumentService/HybridSearch'', rt_handler = local_request_DocumentService_HybridSearch_0\<rparr>]"

definition RegisterHealthServiceHandlerServer :: "('b, 's, 'w) route list" where
  "RegisterHealthServiceHandlerServer =
    [\<lparr>rt_method = ''GET'', rt_pattern = [Lit ''health'', Lit ''live''],
      rt_name = ''/health.HealthService/Check'', rt_handler = local_request_HealthService_Check_0\<rparr>,
     \<lparr>rt_method = ''GET'', rt_pattern = [Lit ''health'', Lit ''ready''],
      rt_name = ''/health.HealthService/Check'', rt_handler = local_request_HealthService_Check_1\<rparr>]"

definition in_process_routes :: "('b, 's, 'w) route list" where
  "in_process_routes =
     RegisterCollectionServiceHandlerServer @ RegisterDocumentServiceHandlerServer @ RegisterHealthServiceHandlerServer"

definition in_process_gateway ::
  "('b, 's) codec \<Rightarrow> ('b http_request \<Rightarrow> string \<Rightarrow> gerror option) \<Rightarrow> ('w, 's) client \<Rightarrow> 'b http_request \<Rightarrow>
     ('w, gateway_error, 's http_response) op" where
  "in_process_gateway codec annotate srv req =
     (case find_route req in_process_routes of
        None \<Rightarrow> ret NoRoute
      | Some (r, params) \<Rightarrow>
          (case annotate req (rt_name r) of
             Some e \<Rightarrow> ret (HTTPError (RpcError e))
           | None \<Rightarrow> handle (rt_handler r codec srv req params) (\<lambda>resp. ret (Forwarded resp)) (\<lambda>e. ret (HTTPError e))))"

section \<open>The same outcome and the same world\<close>

text \<open>An operation that also moves meters, and one that does the same without them.\<close>

named_theorems same_intros \<open>rules that prove that two operations differ in the meters only\<close>

definition same_op :: "('m \<times> 'w, 'e, 'a) op \<Rightarrow> ('w, 'e, 'a) op \<Rightarrow> bool" where
  "same_op p q \<longleftrightarrow> (\<forall>m w. fst (p (m, w)) = fst (q w) \<and> snd (snd (p (m, w))) = snd (q w))"

lemma same_opD:
  assumes "same_op p q" and "q w = (r, w')"
  obtains m' where "p (m, w) = (r, (m', w'))"
proof -
  obtain r1 m1 w1 where "p (m, w) = (r1, (m1, w1))" by (cases "p (m, w)") auto
  moreover from this have "r1 = r" "w1 = w'"
    using assms(1) [unfolded same_op_def, rule_format, of m w] assms(2) by simp_all
  ultimately show thesis using that by simp
qed

lemma same_prims [same_intros]: "same_op (ret x) (ret x)" "same_op (fail e) (fail e)" "same_op (lift r) (lift r)"
  by (simp_all add: same_op_def ret_def fail_def lift_def)

lemma same_handle [same_intros]:
  assumes p: "same_op p q" and f: "\<And>x. same_op (f x) (f' x)" and g: "\<And>e. same_op (g e) (g' e)"
  shows "same_op (handle p f g) (handle q f' g')"
  unfolding same_op_def
proof (intro allI)
  fix m w
  obtain r w' where q: "q w = (r, w')" by fastforce
  from same_opD [OF p q] obtain m' where "p (m, w) = (r, (m', w'))" .
  with q f g show "fst (handle p f g (m, w)) = fst (handle q f' g' w) \<and>
      snd (snd (handle p f g (m, w))) = snd (handle q f' g' w)"
    by (cases r) (auto simp: handle_def same_op_def)
qed

lemma same_andThen [same_intros]:
  "same_op p q \<Longrightarrow> (\<And>x. same_op (f x) (f' x)) \<Longrightarrow> same_op (andThen p f) (andThen q f')"
  unfolding andThen_def by (intro same_intros)

lemma same_case_prod [same_intros]:
  "(\<And>a b. same_op (f a b) (g a b)) \<Longrightarrow> same_op (case x of (a, b) \<Rightarrow> f a b) (case x of (a, b) \<Rightarrow> g a b)"
  by (cases x) simp

text \<open>Two handlers that do the same, on a client and on a server.\<close>

definition same_handler ::
  "('m \<times> 'w, 's) client \<Rightarrow> ('w, 's) client \<Rightarrow> ('b, 's, 'm \<times> 'w) gateway_handler \<Rightarrow> ('b, 's, 'w) gateway_handler \<Rightarrow> bool" where
  "same_handler client srv h h' \<longleftrightarrow> (\<forall>codec req params. same_op (h codec client req params) (h' codec srv req params))"

definition same_route ::
  "('m \<times> 'w, 's) client \<Rightarrow> ('w, 's) client \<Rightarrow> ('b, 's, 'm \<times> 'w) route \<Rightarrow> ('b, 's, 'w) route \<Rightarrow> bool" where
  "same_route client srv r r' \<longleftrightarrow>
     rt_method r = rt_method r' \<and> rt_pattern r = rt_pattern r' \<and> rt_name r = rt_name r' \<and>
     same_handler client srv (rt_handler r) (rt_handler r')"

text \<open>A relayed connection: the client answers what the server answers.\<close>

locale relayed =
  fixes client :: "('m \<times> 'w, 's) client" and srv :: "('w, 's) client"
  assumes relay: "same_op (client call) (srv call)"
begin

lemma same_call: "same_op (call_client client call) (call_server srv call)"
  unfolding same_op_def
proof (intro allI)
  fix m w
  obtain r w' where q: "srv call w = (r, w')" by fastforce
  from same_opD [OF relay q] obtain m' where "client call (m, w) = (r, (m', w'))" .
  with q show "fst (call_client client call (m, w)) = fst (call_server srv call w) \<and>
      snd (snd (call_client client call (m, w))) = snd (call_server srv call w)"
    by (cases r) (simp_all add: call_client_def call_server_def)
qed

lemmas same_steps = same_intros same_call

lemma same_collection_handlers:
  "same_handler client srv request_CollectionService_CreateCollection_0 local_request_CollectionService_CreateCollection_0"
  "same_handler client srv request_CollectionService_ListCollection_0 local_request_CollectionService_ListCollection_0"
  "same_handler client srv request_CollectionService_ListCollections_0 local_request_CollectionService_ListCollections_0"
  "same_handler client srv request_CollectionService_DeleteCollection_0 local_request_CollectionService_DeleteCollection_0"
  unfolding same_handler_def request_CollectionService_CreateCollection_0_def local_request_CollectionService_CreateCollection_0_def
    request_CollectionService_ListCollection_0_def local_request_CollectionService_ListCollection_0_def
    request_CollectionService_ListCollections_0_def local_request_CollectionService_ListCollections_0_def
    request_CollectionService_DeleteCollection_0_def local_request_CollectionService_DeleteCollection_0_def
  by (intro allI same_steps)+

lemma same_document_handlers:
  "same_handler client srv request_DocumentService_CreateDocument_0 local_request_DocumentService_CreateDocument_0"
  "same_handler client srv request_DocumentService_IngestDocument_0 local_request_DocumentService_IngestDocument_0"
  "same_handler client srv request_DocumentService_UpsertDocument_0 local_request_DocumentService_UpsertDocument_0"
  "same_handler client srv request_DocumentService_ListDocument_0 local_request_DocumentService_ListDocument_0"
  "same_handler client srv request_DocumentService_ListDocuments_0 local_request_DocumentService_ListDocuments_0"
  "same_handler client srv request_DocumentService_DeleteDocument_0 local_request_DocumentService_DeleteDocument_0"
  "same_handler client srv request_DocumentService_SearchDocuments_0 local_request_DocumentService_SearchDocuments_0"
  "same_handler client srv request_DocumentService_FullTextSearch_0 local_request_DocumentService_FullTextSearch_0"
  "same_handler client srv request_DocumentService_BatchInsert_0 local_request_DocumentService_BatchInsert_0"
  "same_handler client srv request_DocumentService_BatchDelete_0 local_request_DocumentService_BatchDelete_0"
  "same_handler client srv request_DocumentService_HybridSearch_0 local_request_DocumentService_HybridSearch_0"
  unfolding same_handler_def request_DocumentService_CreateDocument_0_def local_request_DocumentService_CreateDocument_0_def
    request_DocumentService_IngestDocument_0_def local_request_DocumentService_IngestDocument_0_def
    request_DocumentService_UpsertDocument_0_def local_request_DocumentService_UpsertDocument_0_def
    request_DocumentService_ListDocument_0_def local_request_DocumentService_ListDocument_0_def
    request_DocumentService_ListDocuments_0_def local_request_DocumentService_ListDocuments_0_def
    request_DocumentService_DeleteDocument_0_def local_request_DocumentService_DeleteDocument_0_def
    request_DocumentService_SearchDocuments_0_def local_request_DocumentService_SearchDocuments_0_def
    request_DocumentService_FullTextSearch_0_def local_request_DocumentService_FullTextSearch_0_def
    request_DocumentService_BatchInsert_0_def local_request_DocumentService_BatchInsert_0_def
    request_DocumentService_BatchDelete_0_def local_request_DocumentService_BatchDelete_0_def
    request_DocumentService_HybridSearch_0_def local_request_DocumentService_HybridSearch_0_def
  by (intro allI same_steps)+

lemma same_health_handlers:
  "same_handler client srv request_HealthService_Check_0 local_request_HealthService_Check_0"
  "same_handler client srv request_HealthService_Check_1 local_request_HealthService_Check_1"
  unfolding same_handler_def request_HealthService_Check_0_def local_request_HealthService_Check_0_def
    request_HealthService_Check_1_def local_request_HealthService_Check_1_def
  by (intro allI same_steps)+

lemma same_routes: "list_all2 (same_route client srv) gateway_routes in_process_routes"
  by (simp add: gateway_routes_def RegisterCollectionServiceHandlerClient_def RegisterDocumentServiceHandlerClient_def
      RegisterHealthServiceHandlerClient_def in_process_routes_def RegisterCollectionServiceHandlerServer_def
      RegisterDocumentServiceHandlerServer_def RegisterHealthServiceHandlerServer_def same_route_def
      same_collection_handlers same_document_handlers same_health_handlers)

lemma same_found:
  assumes "list_all2 (same_route client srv) rs rs'"
  shows "rel_option (rel_prod (same_route client srv) (=)) (find_route req rs) (find_route req rs')"
  using assms
  by induction (auto simp: fits_def same_route_def split: option.splits)

lemma same_gateway:
  fixes req :: "'b http_request"
  shows "same_op (gateway codec annotate client req) (in_process_gateway codec annotate srv req)"
proof (cases "find_route req (in_process_routes :: ('b, 's, 'w) route list)")
  case None
  with same_found [OF same_routes, of req] show ?thesis
    by (auto simp: gateway_def in_process_gateway_def intro: same_intros)
next
  case (Some rp)
  obtain r' params where rp: "rp = (r', params)" by fastforce
  with same_found [OF same_routes, of req] Some obtain r where
    r: "find_route req (gateway_routes :: ('b, 's, 'm \<times> 'w) route list) = Some (r, params)" "same_route client srv r r'"
    by (auto simp: option_rel_Some2)
  then show ?thesis using Some rp
    by (auto simp: gateway_def in_process_gateway_def same_route_def same_handler_def intro!: same_intros split: option.splits)
qed

end

text \<open>The server of \<open>main\<close> behind its interceptor relays the handlers.\<close>

interpretation rpc: relayed "serve env codeOf" "dispatch env" for env codeOf
proof
  fix call
  show "same_op (serve env codeOf call) (dispatch env call)"
    by (auto simp: same_op_def serve_def UnaryServerInterceptor_def Let_def split: prod.splits outcome.splits)
qed


end
