(* ===== verification/Gateway_Main.thy ===== *)
theory Gateway_Main
  imports Gateway_Properties
begin

text \<open>
  How \<open>main\<close> assembles the gateway: the functions \<open>Register*HandlerFromEndpoint\<close> of
  \<open>*.pb.gw.go\<close> dial the gRPC server and register the routes of one service on the
  multiplexer; \<open>main\<close> runs the three of them and exits at the first error. Dialling is the
  gRPC library's, a parameter. It is proved that the assembled multiplexer has exactly the
  routes of \<open>Gateway\<close>, and that no HTTP request makes the server panic or hang.
\<close>

section \<open>Registration\<close>

text \<open>The multiplexer, the connections that wait to be closed when their context is done, and
  those that were closed at once.\<close>

record ('b, 's, 'w, 'c) gateway_state =
  mux_routes :: "('b, 's, 'w) route list"
  watched_conns :: "'c list"
  closed_conns :: "'c list"

definition add_routes :: "('b, 's, 'w) route list \<Rightarrow> (('b, 's, 'w, 'c) gateway_state, gerror, unit) op" where
  "add_routes rs = update (\<lambda>s. s\<lparr>mux_routes := mux_routes s @ rs\<rparr>)"

definition RegisterCollectionServiceHandler :: "'c \<Rightarrow> (('b, 's, 'w, 'c) gateway_state, gerror, unit) op" where
  "RegisterCollectionServiceHandler conn = add_routes RegisterCollectionServiceHandlerClient"

definition RegisterDocumentServiceHandler :: "'c \<Rightarrow> (('b, 's, 'w, 'c) gateway_state, gerror, unit) op" where
  "RegisterDocumentServiceHandler conn = add_routes RegisterDocumentServiceHandlerClient"

definition RegisterHealthServiceHandler :: "'c \<Rightarrow> (('b, 's, 'w, 'c) gateway_state, gerror, unit) op" where
  "RegisterHealthServiceHandler conn = add_routes RegisterHealthServiceHandlerClient"

text \<open>The deferred function: after an error the connection is closed, otherwise a goroutine
  waits for the context.\<close>

definition watch_conn :: "'c \<Rightarrow> (('b, 's, 'w, 'c) gateway_state, gerror, unit) op \<Rightarrow>
    (('b, 's, 'w, 'c) gateway_state, gerror, unit) op" where
  "watch_conn conn register =
     handle register
       (\<lambda>_. update (\<lambda>s. s\<lparr>watched_conns := watched_conns s @ [conn]\<rparr>))
       (\<lambda>e. andThen (update (\<lambda>s. s\<lparr>closed_conns := closed_conns s @ [conn]\<rparr>)) (\<lambda>_. fail e))"

definition RegisterCollectionServiceHandlerFromEndpoint ::
  "(string \<Rightarrow> 'c result) \<Rightarrow> string \<Rightarrow> (('b, 's, 'w, 'c) gateway_state, gerror, unit) op" where
  "RegisterCollectionServiceHandlerFromEndpoint newClient endpoint =
     andThen (lift (newClient endpoint)) (\<lambda>conn. watch_conn conn (RegisterCollectionServiceHandler conn))"

definition RegisterDocumentServiceHandlerFromEndpoint ::
  "(string \<Rightarrow> 'c result) \<Rightarrow> string \<Rightarrow> (('b, 's, 'w, 'c) gateway_state, gerror, unit) op" where
  "RegisterDocumentServiceHandlerFromEndpoint newClient endpoint =
     andThen (lift (newClient endpoint)) (\<lambda>conn. watch_conn conn (RegisterDocumentServiceHandler conn))"

definition RegisterHealthServiceHandlerFromEndpoint ::
  "(string \<Rightarrow> 'c result) \<Rightarrow> string \<Rightarrow> (('b, 's, 'w, 'c) gateway_state, gerror, unit) op" where
  "RegisterHealthServiceHandlerFromEndpoint newClient endpoint =
     andThen (lift (newClient endpoint)) (\<lambda>conn. watch_conn conn (RegisterHealthServiceHandler conn))"

text \<open>\<open>main\<close>: an error is the end of the process.\<close>

definition no_gateway :: "('b, 's, 'w, 'c) gateway_state" where
  "no_gateway = \<lparr>mux_routes = [], watched_conns = [], closed_conns = []\<rparr>"

definition main_gateway :: "(string \<Rightarrow> 'c result) \<Rightarrow> (('b, 's, 'w, 'c) gateway_state, gerror, unit) op" where
  "main_gateway newClient =
     andThen (wrap_error (ErrWrap ''Failed to register collection gateway: %v'' [])
                (RegisterCollectionServiceHandlerFromEndpoint newClient ''localhost:6309'')) (\<lambda>_.
     andThen (wrap_error (ErrWrap ''Failed to register document gateway: %v'' [])
                (RegisterDocumentServiceHandlerFromEndpoint newClient ''localhost:6309'')) (\<lambda>_.
       wrap_error (ErrWrap ''Failed to register health gateway: %v'' [])
         (RegisterHealthServiceHandlerFromEndpoint newClient ''localhost:6309'')))"

lemmas registration =
  add_routes_def RegisterCollectionServiceHandler_def RegisterDocumentServiceHandler_def RegisterHealthServiceHandler_def
  watch_conn_def RegisterCollectionServiceHandlerFromEndpoint_def RegisterDocumentServiceHandlerFromEndpoint_def
  RegisterHealthServiceHandlerFromEndpoint_def

text \<open>The routes that \<open>gateway\<close> searches are the ones that are registered; each service has its
  own connection.\<close>

lemma gateway_is_assembled:
  fixes newClient :: "string \<Rightarrow> 'c result"
  assumes "newClient ''localhost:6309'' = Ok conn"
  shows "main_gateway newClient (no_gateway :: ('b, 's, 'w, 'c) gateway_state) =
     (Ok (), \<lparr>mux_routes = gateway_routes, watched_conns = [conn, conn, conn], closed_conns = []\<rparr>)"
  by (simp add: main_gateway_def registration no_gateway_def gateway_routes_def assms andThen_def handle_def lift_def
      update_def wrap_error_def)

lemma gateway_needs_server:
  assumes "newClient ''localhost:6309'' = Err e"
  shows "main_gateway newClient s = (Err (ErrWrap ''Failed to register collection gateway: %v'' [] e), s)"
  by (simp add: main_gateway_def registration assms andThen_def handle_def lift_def fail_def wrap_error_def)

section \<open>Every request is answered\<close>

text \<open>What the gateway library decodes is a value or an error.\<close>

definition decodes :: "('b, 's) codec \<Rightarrow> 'b http_request \<Rightarrow> bool" where
  "decodes codec req \<longleftrightarrow> returns (hq_form req) \<and>
     (\<forall>f. returns (pop_ListCollections codec f) \<and> returns (pop_ListDocuments codec f) \<and> returns (pop_HealthCheck codec f))"

lemma returns_read_body: "returns (read_body r)"
  by (simp add: read_body_def split: prod.splits option.splits)

lemma returns_path_id: "returns (path_id params)"
  by (simp add: path_id_def split: option.splits)

lemma returns_invalid: "returns r \<Longrightarrow> returns (invalid r)"
  by (cases r) (simp_all add: invalid_def)

lemma returns_read_form:
  "returns (hq_form req) \<Longrightarrow> (\<And>f. returns (populate f)) \<Longrightarrow> returns (read_form populate req)"
  by (cases "hq_form req") (simp_all add: read_form_def invalid_def returns_invalid [unfolded invalid_def])

lemma safe_call:
  assumes "\<And>call. safe_op (client call)"
  shows "safe_op (call_client client call)"
proof
  fix w
  have "returns (fst (client call w))" using assms by (rule safe_opD)
  then show "returns (fst (call_client client call w))"
    by (cases "client call w"; cases "fst (client call w)") (auto simp: call_client_def)
qed

lemmas safe_gateway_steps = safe_andThen safe_call returns_read_body returns_path_id returns_read_form

lemma handlers_return:
  fixes client :: "('w, 's) client"
  assumes "\<And>call. safe_op (client call)" and "decodes codec req"
  shows "list_all (\<lambda>r. safe_op (rt_handler r codec client req params)) gateway_routes"
  using assms
  by (auto simp: gateway_routes_def RegisterCollectionServiceHandlerClient_def RegisterDocumentServiceHandlerClient_def
      RegisterHealthServiceHandlerClient_def request_CollectionService_CreateCollection_0_def
      request_CollectionService_ListCollection_0_def request_CollectionService_ListCollections_0_def
      request_CollectionService_DeleteCollection_0_def request_DocumentService_CreateDocument_0_def
      request_DocumentService_IngestDocument_0_def request_DocumentService_UpsertDocument_0_def
      request_DocumentService_ListDocument_0_def request_DocumentService_ListDocuments_0_def
      request_DocumentService_DeleteDocument_0_def request_DocumentService_SearchDocuments_0_def
      request_DocumentService_FullTextSearch_0_def request_DocumentService_BatchInsert_0_def
      request_DocumentService_BatchDelete_0_def request_DocumentService_HybridSearch_0_def
      request_HealthService_Check_0_def request_HealthService_Check_1_def decodes_def
      intro!: safe_gateway_steps split: prod.splits)

lemma safe_serve:
  fixes env :: "('s, 'd, 'h) environment"
  assumes drv: "safe_driver (driver_of env)"
  shows "safe_op (serve env codeOf call)"
proof
  fix s :: "request_meters \<times> ('d pool, 'h) world"
  obtain m w where s: "s = (m, w)" by (rule prod.exhaust)
  have "returns (fst (dispatch env call w))" by (rule safe_opD [OF safe_dispatch [OF drv]])
  then show "returns (fst (serve env codeOf call s))"
    by (cases "dispatch env call w"; cases "fst (dispatch env call w)") (auto simp: s serve_def UnaryServerInterceptor_def)
qed

lemma safe_gateway:
  assumes "\<And>call. safe_op (client call)" and "decodes codec req"
  shows "safe_op (gateway codec annotate client req)"
proof -
  have "safe_op (rt_handler r codec client req params)" if "find_route req gateway_routes = Some (r, params)" for r params
    using handlers_return [OF assms] find_route_Some [OF that] by (auto simp: list_all_iff)
  then show ?thesis
    unfolding gateway_def by (auto intro!: safe_handle split: option.splits)
qed

text \<open>C17 Every HTTP request is answered: whatever method, path, body and query a client sends,
  the server neither panics nor hangs, it serves the page of metrics, reports that there is
  no route, forwards a response or writes an error, as long as the database driver returns from its
  calls and the library's decoders return.\<close>

theorem http_requests_are_answered:
  assumes "safe_driver (driver_of env)" and "decodes codec req"
  shows "\<exists>resp. fst (serve_http env codeOf codec annotate written req s) = Ok resp"
proof (cases "hq_path req = [''metrics'']")
  case False
  have g: "returns (fst (gateway codec annotate (serve env codeOf) req s))"
    by (rule safe_opD [OF safe_gateway [OF safe_serve [OF assms(1)] assms(2)]])
  obtain o1 s1 where o: "gateway codec annotate (serve env codeOf) req s = (o1, s1)" by (rule prod.exhaust)
  have "\<not> (\<exists>e. o1 = Err e)"
    using o by (auto simp: gateway_def handle_def ret_def split: option.splits prod.splits outcome.splits)
  with g o False show ?thesis
    by (cases o1) (auto simp: serve_http_def op_simps)
qed (simp add: serve_http_def ret_run)

lemma http_requests_are_answered_witness:
  "\<exists>resp. fst (serve_http demo_env (\<lambda>_. ''Unknown'') empty_codec (\<lambda>_ _. None) (\<lambda>_. [])
      \<lparr>hq_method = ''POST'', hq_path = [''api'', ''v1'', ''documents'', ''ingest''], hq_body = (), hq_form = Ok []\<rparr>
      (request_meters_of no_calls, started (0, None) ())) = Ok resp"
  by (rule http_requests_are_answered) (simp_all add: demo_env_def snapshot_safe decodes_def empty_codec_def)

end
