(* ===== verification/Lifecycle.thy ===== *)
theory Lifecycle
  imports Server_Properties
begin

text \<open>
  The life of the process as \<open>main\<close> in \<open>cmd/vector-sync/main.go\<close> arranges it: the start, which
  can fail at the connection, the listener or the registration of the gateway, and the
  shutdown after a signal, in the order of the code: the HTTP server, then the gRPC server,
  then the database. What the library promises of each step is its guard: \<open>Shutdown\<close> returns
  when no HTTP request is open or its ten seconds are over, \<open>GracefulStop\<close> takes no new call
  and returns when none is open.
\<close>

section \<open>Start\<close>

datatype phase = Running | StoppingHTTP | StoppingRPC | ClosingDB | Exited

record life =
  life_phase :: phase
  open_http :: nat
  open_rpc :: nat
  open_tasks :: nat
  db_open :: bool

text \<open>The outcomes of connecting, of listening and of the three registrations.\<close>

definition main_start :: "unit result \<Rightarrow> unit result \<Rightarrow> unit result list \<Rightarrow> life" where
  "main_start conn listen regs =
     (case conn of
        Ok _ \<Rightarrow>
          (case listen of
             Ok _ \<Rightarrow>
               (if \<forall>r\<in>set regs. r = Ok ()
                then \<lparr>life_phase = Running, open_http = 0, open_rpc = 0, open_tasks = 0, db_open = True\<rparr>
                else \<lparr>life_phase = Exited, open_http = 0, open_rpc = 0, open_tasks = 0, db_open = True\<rparr>)
           | _ \<Rightarrow> \<lparr>life_phase = Exited, open_http = 0, open_rpc = 0, open_tasks = 0, db_open = True\<rparr>)
      | _ \<Rightarrow> \<lparr>life_phase = Exited, open_http = 0, open_rpc = 0, open_tasks = 0, db_open = False\<rparr>)"

section \<open>Steps\<close>

text \<open>Seconds after which the context of the shutdown is cancelled.\<close>

definition shutdown_timeout :: nat where "shutdown_timeout = 10"

inductive life_step :: "life \<Rightarrow> life \<Rightarrow> bool" where
  http_begin: "life_phase s = Running \<Longrightarrow> life_step s (s\<lparr>open_http := open_http s + 1\<rparr>)"
| http_end: "0 < open_http s \<Longrightarrow> life_step s (s\<lparr>open_http := open_http s - 1\<rparr>)"
| call_begin: "life_phase s = Running \<or> life_phase s = StoppingHTTP \<Longrightarrow> life_step s (s\<lparr>open_rpc := open_rpc s + 1\<rparr>)"
| call_end: "0 < open_rpc s \<Longrightarrow> life_step s (s\<lparr>open_rpc := open_rpc s - 1, open_tasks := open_tasks s + spawned\<rparr>)"
| task_end: "0 < open_tasks s \<Longrightarrow> life_step s (s\<lparr>open_tasks := open_tasks s - 1\<rparr>)"
| signalled: "life_phase s = Running \<Longrightarrow> life_step s (s\<lparr>life_phase := StoppingHTTP\<rparr>)"
| http_stopped: "life_phase s = StoppingHTTP \<Longrightarrow> open_http s = 0 \<or> shutdown_timeout \<le> waited \<Longrightarrow>
     life_step s (s\<lparr>life_phase := StoppingRPC\<rparr>)"
| rpc_stopped: "life_phase s = StoppingRPC \<Longrightarrow> open_rpc s = 0 \<Longrightarrow> life_step s (s\<lparr>life_phase := ClosingDB\<rparr>)"
| db_closed: "life_phase s = ClosingDB \<Longrightarrow> life_step s (s\<lparr>life_phase := Exited, db_open := False\<rparr>)"

inductive_cases life_stepE: "life_step s s'"

text \<open>Two facts hold throughout: behind the stop of the gRPC server no call is open, and the
  database is open until the process exits.\<close>

definition orderly :: "life \<Rightarrow> bool" where
  "orderly s \<longleftrightarrow>
     (life_phase s \<in> {ClosingDB, Exited} \<longrightarrow> open_rpc s = 0) \<and> (life_phase s \<noteq> Exited \<longrightarrow> db_open s)"

lemma life_step_orderly: "life_step s s' \<Longrightarrow> orderly s \<Longrightarrow> orderly s'"
  by (erule life_stepE) (auto simp: orderly_def)

lemma main_start_orderly: "orderly (main_start conn listen regs)"
  by (auto simp: main_start_def orderly_def split: outcome.splits)

lemma reachable_orderly: "life_step\<^sup>*\<^sup>* (main_start conn listen regs) s \<Longrightarrow> orderly s"
  by (induction rule: rtranclp_induct) (auto intro: main_start_orderly life_step_orderly)

text \<open>After a start that succeeded the process exits only through the shutdown.\<close>

lemma reachable_closed:
  assumes "life_step\<^sup>*\<^sup>* (main_start (Ok ()) (Ok ()) [Ok (), Ok (), Ok ()]) s"
  shows "life_phase s = Exited \<longrightarrow> \<not> db_open s"
  using assms
proof (induction rule: rtranclp_induct)
  case base
  show ?case by (simp add: main_start_def)
next
  case (step s s')
  from step.hyps(2) step.IH show ?case by (auto elim!: life_stepE)
qed

section \<open>Shutdown\<close>

text \<open>C20 The shutdown is orderly: however calls, requests, background tasks and the signal
  interleave, no call is open when the database is closed, and none can begin after it.\<close>

theorem database_outlives_calls:
  assumes "life_step\<^sup>*\<^sup>* (main_start conn listen regs) s" and "\<not> db_open s"
  shows "open_rpc s = 0 \<and> (\<forall>s'. life_step s s' \<longrightarrow> open_rpc s' = 0)"
proof -
  have "life_phase s = Exited" "open_rpc s = 0"
    using reachable_orderly [OF assms(1)] assms(2) by (auto simp: orderly_def)
  then show ?thesis by (auto elim!: life_stepE)
qed

text \<open>The steps of a shutdown one after the other, when the open calls end first.\<close>

lemma calls_end: "life_step\<^sup>*\<^sup>* s (s\<lparr>open_rpc := 0\<rparr>)"
proof (induction "open_rpc s" arbitrary: s)
  case 0
  then have "s\<lparr>open_rpc := 0\<rparr> = s" by (cases s) simp
  then show ?case by simp
next
  case (Suc n)
  have "life_step s (s\<lparr>open_rpc := open_rpc s - 1, open_tasks := open_tasks s + 0\<rparr>)"
    by (rule life_step.call_end) (use Suc.hyps(2) in simp)
  moreover have "s\<lparr>open_rpc := open_rpc s - 1, open_tasks := open_tasks s + 0\<rparr> = s\<lparr>open_rpc := n\<rparr>"
    using Suc.hyps(2) by (cases s) simp
  ultimately have "life_step s (s\<lparr>open_rpc := n\<rparr>)" by simp
  moreover have "life_step\<^sup>*\<^sup>* (s\<lparr>open_rpc := n\<rparr>) (s\<lparr>open_rpc := n\<rparr>\<lparr>open_rpc := 0\<rparr>)" by (rule Suc.hyps(1)) simp
  ultimately show ?case by (simp add: converse_rtranclp_into_rtranclp)
qed

lemma stopping_rpc_exits:
  assumes "life_phase s = StoppingRPC"
  shows "life_step\<^sup>*\<^sup>* s (s\<lparr>open_rpc := 0, life_phase := Exited, db_open := False\<rparr>)"
proof -
  let ?s1 = "s\<lparr>open_rpc := 0\<rparr>"
  let ?s2 = "?s1\<lparr>life_phase := ClosingDB\<rparr>"
  have "life_step ?s1 ?s2" by (rule life_step.rpc_stopped) (use assms in simp_all)
  moreover have "life_step ?s2 (?s2\<lparr>life_phase := Exited, db_open := False\<rparr>)" by (rule life_step.db_closed) simp
  ultimately have "life_step\<^sup>*\<^sup>* ?s1 (?s2\<lparr>life_phase := Exited, db_open := False\<rparr>)" by (blast intro: r_into_rtranclp rtranclp_trans)
  with calls_end [of s] show ?thesis by simp
qed


definition lately :: life where
  "lately = \<lparr>life_phase = StoppingHTTP, open_http = 0, open_rpc = 1, open_tasks = 0, db_open = True\<rparr>"

lemma lately_reachable: "life_step\<^sup>*\<^sup>* (main_start (Ok ()) (Ok ()) [Ok (), Ok (), Ok ()]) lately"
proof -
  let ?s = "main_start (Ok ()) (Ok ()) [Ok (), Ok (), Ok ()]"
  have "life_step ?s (?s\<lparr>open_rpc := open_rpc ?s + 1\<rparr>)"
    by (rule life_step.call_begin) (simp add: main_start_def)
  moreover have "life_step (?s\<lparr>open_rpc := open_rpc ?s + 1\<rparr>) (?s\<lparr>open_rpc := open_rpc ?s + 1\<rparr>\<lparr>life_phase := StoppingHTTP\<rparr>)"
    by (rule life_step.signalled) (simp add: main_start_def)
  moreover have "?s\<lparr>open_rpc := open_rpc ?s + 1\<rparr>\<lparr>life_phase := StoppingHTTP\<rparr> = lately"
    by (simp add: main_start_def lately_def)
  ultimately show ?thesis by (metis r_into_rtranclp rtranclp_trans)
qed


text \<open>What the shutdown does not wait for: the builds of indexes that calls have started.\<close>

lemma tasks_lost_at_shutdown:
  "\<exists>s. life_step\<^sup>*\<^sup>* (main_start (Ok ()) (Ok ()) [Ok (), Ok (), Ok ()]) s \<and> life_phase s = Exited \<and> \<not> db_open s \<and>
       0 < open_tasks s"
proof -
  let ?s1 = "lately\<lparr>open_rpc := 0, open_tasks := 1\<rparr>"
  let ?s2 = "?s1\<lparr>life_phase := StoppingRPC\<rparr>"
  have "life_step lately ?s1"
    using life_step.call_end [of lately 1] by (simp add: lately_def)
  moreover have "life_step ?s1 ?s2" by (rule life_step.http_stopped) (simp_all add: lately_def)
  moreover have "life_step\<^sup>*\<^sup>* ?s2 (?s2\<lparr>open_rpc := 0, life_phase := Exited, db_open := False\<rparr>)"
    by (rule stopping_rpc_exits) simp
  ultimately have "life_step\<^sup>*\<^sup>* lately (?s2\<lparr>open_rpc := 0, life_phase := Exited, db_open := False\<rparr>)"
    by (meson r_into_rtranclp rtranclp_trans)
  with lately_reachable show ?thesis
    by (intro exI [of _ "?s2\<lparr>open_rpc := 0, life_phase := Exited, db_open := False\<rparr>"])
       (auto simp: lately_def intro: rtranclp_trans)
qed

text \<open>The end of a process whose calls have ended.\<close>

lemma database_outlives_calls_witness:
  "\<exists>s. life_step\<^sup>*\<^sup>* (main_start (Ok ()) (Ok ()) [Ok (), Ok (), Ok ()]) s \<and> \<not> db_open s \<and> open_rpc s = 0 \<and>
     (\<forall>s'. life_step s s' \<longrightarrow> open_rpc s' = 0)"
proof -
  obtain s where s: "life_step\<^sup>*\<^sup>* (main_start (Ok ()) (Ok ()) [Ok (), Ok (), Ok ()]) s" "\<not> db_open s"
    using tasks_lost_at_shutdown by blast
  from database_outlives_calls [OF this] s show ?thesis by blast
qed

end
