(* ===== verification/Overlap.thy ===== *)
theory Overlap
  imports Cache_Refinement
begin

text \<open>
  Lookups that overlap. \<open>getCollectionInfo\<close> takes the lock of the cache twice, once to ask and
  once to insert, and queries the database between without it. Here these are three steps,
  and any number of lookups, the statements of other requests, background tasks and the
  loop that warms the cache interleave with them.
\<close>

section \<open>One lookup\<close>

text \<open>Where a lookup stands: before asking the cache, after a miss, with the collection it read,
  or done.\<close>

datatype lookup =
    Asking string
  | Missed string
  | Fetched string Collection
  | Done string "collectionInfo result"

fun lookup_step :: "'d CollectionRepository \<Rightarrow> lookup \<Rightarrow> ('d, 'h) world \<Rightarrow> lookup \<times> ('d, 'h) world" where
  "lookup_step cr (Asking cid) w =
     (case GetInfo cid w of
        (Ok (dimn, metric, provider, model, ok), w') \<Rightarrow>
          (if ok then Done cid (Ok \<lparr>ci_dimension = dimn, ci_distanceMetric = metric, ci_embeddingProvider = provider,
                                    ci_embeddingModel = model\<rparr>)
           else Missed cid, w')
      | (_, w') \<Rightarrow> (Asking cid, w'))"
| "lookup_step cr (Missed cid) w =
     (case on_store (cr_ListById cr cid) w of
        (Ok c, w') \<Rightarrow> (Fetched cid c, w')
      | (Err e, w') \<Rightarrow> (Done cid (Err (fetch_failed cid e)), w')
      | (Panic m, w') \<Rightarrow> (Done cid (Panic m), w')
      | (Diverge, w') \<Rightarrow> (Done cid Diverge, w'))"
| "lookup_step cr (Fetched cid c) w =
     (Done cid (Ok \<lparr>ci_dimension = c_VectorDimension c, ci_distanceMetric = c_DistanceMetric c,
                    ci_embeddingProvider = c_EmbeddingProvider c, ci_embeddingModel = c_EmbeddingModel c\<rparr>),
      w\<lparr>cache := cache_Insert cid (to_int32 (c_VectorDimension c)) (c_DistanceMetric c)
                   (c_EmbeddingProvider c) (c_EmbeddingModel c) (cache w)\<rparr>)"
| "lookup_step cr (Done cid r) w = (Done cid r, w)"

fun run_lookup :: "'d CollectionRepository \<Rightarrow> nat \<Rightarrow> lookup \<Rightarrow> ('d, 'h) world \<Rightarrow> lookup \<times> ('d, 'h) world" where
  "run_lookup cr 0 l w = (l, w)"
| "run_lookup cr (Suc n) l w = (case lookup_step cr l w of (l', w') \<Rightarrow> run_lookup cr n l' w')"

definition finished :: "lookup \<Rightarrow> collectionInfo result option" where
  "finished l = (case l of Done cid r \<Rightarrow> Some r | _ \<Rightarrow> None)"

text \<open>Three steps in a row are the functions of the service, each a projection of the answer.\<close>

lemma GetInfo_by_case:
  "GetInfo cid w =
     (case cache w cid of
        Some info \<Rightarrow> (Ok (ci_dimension info, ci_distanceMetric info, ci_embeddingProvider info, ci_embeddingModel info, True),
                      counted ''hit'' w)
      | None \<Rightarrow> (Ok (0, [], [], [], False), counted ''miss'' w))"
  by (simp add: GetInfo_def lookup_info_def zero_info_def counted_def split: option.splits)

lemma lookup_alone:
  "\<exists>r w'. run_lookup cr 3 (Asking cid) w = (Done cid r, w') \<and>
     getCollectionInfo cr cid w = (map_outcome id (\<lambda>info. (ci_dimension info, ci_distanceMetric info)) r, w') \<and>
     getCollectionEmbeddingInfo cr cid w =
       (map_outcome id (\<lambda>info. (ci_embeddingProvider info, ci_embeddingModel info)) r, w')"
proof (cases "cache w cid")
  case (Some info)
  then show ?thesis
    by (simp add: numeral_3_eq_3 GetInfo_by_case getCollectionInfo_def getCollectionEmbeddingInfo_def op_simps)
next
  case None
  obtain r w' where q: "on_store (cr_ListById cr cid) (counted ''miss'' w) = (r, w')" by fastforce
  from None q show ?thesis
    by (cases r)
       (simp_all add: numeral_3_eq_3 GetInfo_by_case getCollectionInfo_def getCollectionEmbeddingInfo_def andThen_def
         handle_def fetchCollection_def ret_def fail_def update_def fetch_failed_def)
qed

text \<open>A lookup finishes after three steps of its own, whatever happens between them.\<close>

fun lookup_rank :: "lookup \<Rightarrow> nat" where
  "lookup_rank (Asking cid) = 3"
| "lookup_rank (Missed cid) = 2"
| "lookup_rank (Fetched cid c) = 1"
| "lookup_rank (Done cid r) = 0"

lemma lookup_step_rank: "finished l = None \<Longrightarrow> lookup_rank (fst (lookup_step cr l w)) < lookup_rank l"
  by (cases l) (auto simp: finished_def GetInfo_by_case split: option.splits prod.splits outcome.splits)


section \<open>Many lookups\<close>

text \<open>The world that all share, the lookups that have come so far, and the rows that the warming
  of the cache has read and not yet inserted.\<close>

record ('d, 'h) overlap =
  shared :: "('d pool, 'h) world"
  lookups :: "lookup list"
  to_warm :: "sqlval list list"

text \<open>A statement of any other request on the database.\<close>

inductive statement :: "'d driver \<Rightarrow> 'd \<Rightarrow> 'd \<Rightarrow> bool" for drv where
  query: "\<not> deletes_collection q args \<Longrightarrow> statement drv d (snd (drv_Query drv q args d))"
| exec: "\<not> deletes_collection q args \<Longrightarrow> statement drv d (snd (drv_Exec drv q args d))"
| tx_begin: "statement drv d (snd (drv_Begin drv d))"
| tx_commit: "statement drv d (snd (drv_Commit drv d))"
| tx_rollback: "statement drv d (drv_Rollback drv d)"
| ping: "statement drv d (snd (drv_Ping drv d))"

inductive_cases statementE: "statement drv d d'"

inductive overlap_step :: "'d driver \<Rightarrow> ('d, 'h) overlap \<Rightarrow> ('d, 'h) overlap \<Rightarrow> bool" for drv where
  arrive: "overlap_step drv s (s\<lparr>lookups := lookups s @ [Asking cid]\<rparr>)"
| advance: "i < length (lookups s) \<Longrightarrow> lookup_step (NewCollectionRepo drv) (lookups s ! i) (shared s) = (l, w) \<Longrightarrow>
     overlap_step drv s (s\<lparr>shared := w, lookups := (lookups s)[i := l]\<rparr>)"
| other_statement: "statement drv (server (store (shared s))) d \<Longrightarrow>
     overlap_step drv s (s\<lparr>shared := (shared s)\<lparr>store := (store (shared s))\<lparr>server := d\<rparr>\<rparr>\<rparr>)"
| elsewhere: "overlap_step drv s (s\<lparr>shared := (shared s)\<lparr>remote := h, meters := mt\<rparr>\<rparr>)"
| task: "overlap_step drv s (s\<lparr>shared := (shared s)\<lparr>store := run_goroutine drv i (store (shared s))\<rparr>\<rparr>)"
| warm_read: "drv_Query drv warmQuery [] (server (store (shared s))) = (Ok rs, d) \<Longrightarrow>
     overlap_step drv s
       (s\<lparr>shared := (shared s)\<lparr>store := (store (shared s))\<lparr>server := d\<rparr>\<rparr>, to_warm := to_warm s @ row_list rs\<rparr>)"
| warm_insert: "to_warm s = row # rows \<Longrightarrow> scanWarm row = Ok (cid, dimn, metric, provider, model) \<Longrightarrow>
     overlap_step drv s
       (s\<lparr>shared := (shared s)\<lparr>cache := cache_Insert cid dimn metric provider model (cache (shared s))\<rparr>, to_warm := rows\<rparr>)"
| warm_stop: "overlap_step drv s (s\<lparr>to_warm := []\<rparr>)"

inductive_cases overlap_stepE: "overlap_step drv s s'"

definition idle :: "'d \<Rightarrow> 'h \<Rightarrow> ('d, 'h) overlap" where
  "idle d h = \<lparr>shared = started d h, lookups = [], to_warm = []\<rparr>"

section \<open>What a lookup knows stays true\<close>

definition in_table :: "(string \<rightharpoonup> collectionInfo) \<Rightarrow> lookup \<Rightarrow> bool" where
  "in_table tbl l =
     (case l of
        Fetched cid c \<Rightarrow> tbl cid = Some (infoOf c) \<and> is_int32 (c_VectorDimension c)
      | Done cid r \<Rightarrow> (case r of Ok info \<Rightarrow> tbl cid = Some info | Err e \<Rightarrow> (\<exists>e'. e = fetch_failed cid e') | _ \<Rightarrow> False)
      | _ \<Rightarrow> True)"

definition row_in_table :: "(string \<rightharpoonup> collectionInfo) \<Rightarrow> sqlval list \<Rightarrow> bool" where
  "row_in_table tbl row =
     (case scanWarm row of
        Ok (i, dimn, metric, ep, em) \<Rightarrow>
          tbl i = Some \<lparr>ci_dimension = dimn, ci_distanceMetric = metric, ci_embeddingProvider = ep, ci_embeddingModel = em\<rparr>
      | _ \<Rightarrow> True)"

definition truthful :: "'d table \<Rightarrow> ('d, 'h) overlap \<Rightarrow> bool" where
  "truthful T s \<longleftrightarrow>
     cache (shared s) \<subseteq>\<^sub>m T (server (store (shared s))) \<and>
     list_all (in_table (T (server (store (shared s))))) (lookups s) \<and>
     list_all (row_in_table (T (server (store (shared s))))) (to_warm s)"

text \<open>Facts about a table are stable under growth of the table.\<close>

lemma in_table_grows: "in_table tbl l \<Longrightarrow> tbl \<subseteq>\<^sub>m tbl' \<Longrightarrow> in_table tbl' l"
  by (auto simp: in_table_def map_le_def dom_def split: lookup.splits outcome.splits)

lemma row_in_table_grows: "row_in_table tbl row \<Longrightarrow> tbl \<subseteq>\<^sub>m tbl' \<Longrightarrow> row_in_table tbl' row"
  by (auto simp: row_in_table_def map_le_def dom_def split: outcome.splits)

lemma truthful_grows:
  assumes "truthful T s" and "T (server (store (shared s))) \<subseteq>\<^sub>m T (server (store w))" and "cache w = cache (shared s)"
  shows "truthful T (s\<lparr>shared := w\<rparr>)"
  using assms
  by (auto simp: truthful_def list_all_iff intro: map_le_trans in_table_grows row_in_table_grows)

lemma statement_grows:
  assumes "collection_table drv T" and "statement drv d d'"
  shows "T d \<subseteq>\<^sub>m T d'"
proof -
  have keeps: "driver_keeps (\<lambda>d. T d cid = Some info) drv" for cid info
    using assms(1) by (simp add: collection_table_def)
  have "T d' cid = Some info" if "T d cid = Some info" for cid info
    using assms(2) keeps [of cid info] that by (cases rule: statement.cases) (auto simp: driver_spares_def preserves_def)
  then show ?thesis by (auto simp: map_le_def)
qed

lemma task_grows:
  assumes "collection_table drv T"
  shows "T (server p) \<subseteq>\<^sub>m T (server (run_goroutine drv i p))"
proof -
  have "T (server (run_goroutine drv i p)) cid = Some info" if "T (server p) cid = Some info" for cid info
    using assms that deletion.spared_goroutine [where P = "\<lambda>d. T d cid = Some info" and drv = drv and p = p]
    by (simp add: collection_table_def on_pool_def)
  then show ?thesis by (auto simp: map_le_def)
qed

text \<open>A step of a lookup leaves the database as it is and knows only what is in the table.\<close>

lemma lookup_step_truthful:
  fixes w :: "('d pool, 'h) world"
  assumes T: "collection_table drv T" and w: "coherent T w" and l: "in_table (T (server (store w))) l"
    and step: "lookup_step (NewCollectionRepo drv) l w = (l', w')"
  shows "store w' = store w \<and> coherent T w' \<and> in_table (T (server (store w))) l'"
proof (cases l)
  case (Asking cid)
  with w step show ?thesis
    by (auto simp: GetInfo_by_case in_table_def cached_in_table split: option.splits)
next
  case (Missed cid)
  have q: "on_store (cr_ListById (NewCollectionRepo drv) cid) w =
      (case CollectionRepo_ListById drv cid (store w) of (r, p) \<Rightarrow> (r, w\<lparr>store := p\<rparr>))"
    by (simp add: on_store_def NewCollectionRepo_def)
  from QueryRow_collection [OF T, where p = "store w" and cid = cid] Missed w step show ?thesis
    by (auto simp: q in_table_def split: option.splits)
next
  case (Fetched cid c)
  with l have t: "T (server (store w)) cid = Some (infoOf c)" "is_int32 (c_VectorDimension c)"
    by (simp_all add: in_table_def)
  from coherent_remember [OF w t(1)] t Fetched step show ?thesis
    by (auto simp: in_table_def cache_Insert_def to_int32_id infoOf_def)
next
  case (Done cid r)
  with w l step show ?thesis by simp
qed

lemma list_all_update: "list_all P xs \<Longrightarrow> P x \<Longrightarrow> list_all P (xs[i := x])"
  by (auto simp: list_all_iff dest!: set_update_subset_insert [THEN subsetD])

lemma overlap_step_truthful:
  assumes T: "collection_table drv T" and warm: "warms_from_table drv T"
    and step: "overlap_step drv s s'" and s: "truthful T s"
  shows "truthful T s'"
  using step
proof (cases rule: overlap_step.cases)
  case (arrive cid)
  with s show ?thesis by (simp add: truthful_def in_table_def)
next
  case (advance i l w)
  have "in_table (T (server (store (shared s)))) (lookups s ! i)"
    using s advance(2) by (auto simp: truthful_def list_all_length)
  moreover have "coherent T (shared s)" using s by (simp add: truthful_def coherent_def)
  ultimately have "store w = store (shared s)" "coherent T w" "in_table (T (server (store (shared s)))) l"
    using lookup_step_truthful [OF T _ _ advance(3)] by blast+
  with s advance(1) show ?thesis by (simp add: truthful_def coherent_def list_all_update)
next
  case (other_statement d)
  with s show ?thesis using statement_grows [OF T other_statement(2)] by (auto intro!: truthful_grows)
next
  case (elsewhere h mt)
  with s show ?thesis by (auto intro!: truthful_grows)
next
  case (task i)
  with s show ?thesis using task_grows [OF T] by (auto intro!: truthful_grows)
next
  case (warm_read rs d)
  have "statement drv (server (store (shared s))) (snd (drv_Query drv warmQuery [] (server (store (shared s)))))"
    by (rule statement.query) simp
  then have grows: "T (server (store (shared s))) \<subseteq>\<^sub>m T d"
    using statement_grows [OF T] warm_read(2) by simp
  have "truthful T (s\<lparr>shared := (shared s)\<lparr>store := (store (shared s))\<lparr>server := d\<rparr>\<rparr>\<rparr>)"
    by (rule truthful_grows [OF s]) (use grows in simp_all)
  moreover have "list_all (row_in_table (T d)) (row_list rs)"
    using warm warm_read(2) unfolding warms_from_table_def row_in_table_def [abs_def] by blast
  ultimately show ?thesis using warm_read(1) by (simp add: truthful_def)
next
  case (warm_insert row rows cid dimn metric provider model)
  then have "row_in_table (T (server (store (shared s)))) row" using s by (simp add: truthful_def)
  with warm_insert s show ?thesis
    by (auto simp: truthful_def row_in_table_def cache_Insert_def map_le_def)
next
  case warm_stop
  with s show ?thesis by (simp add: truthful_def)
qed

lemma reachable_truthful:
  assumes "collection_table drv T" and "warms_from_table drv T" and "(overlap_step drv)\<^sup>*\<^sup>* (idle d h) s"
  shows "truthful T s"
  using assms(3)
proof (induction rule: rtranclp_induct)
  case base
  show ?case by (simp add: truthful_def idle_def started_def NewCollectionCache_def)
next
  case (step s s')
  show ?case by (rule overlap_step_truthful [OF assms(1,2) step.hyps(2) step.IH])
qed

text \<open>C10 Lookups may overlap. However the steps of any number of lookups interleave with each
  other, with the statements of other requests, with background tasks and with the warming
  of the cache, as long as no collection is deleted: a lookup that is done has returned what
  the table holds now, or has reported that the collection is missing or that the database
  refused its id, and nothing else is in
  the cache than what the table holds.\<close>

theorem overlapping_lookups_tell_the_table:
  assumes "collection_table drv T" and "warms_from_table drv T" and "(overlap_step drv)\<^sup>*\<^sup>* (idle d h) s"
    and "Done cid r \<in> set (lookups s)"
  shows "(r = Err (ErrFmt ''collection_id %s not found'' [FStr cid]) \<or>
          (\<exists>e. r = Err (ErrWrap ''failed to fetch collection: %w'' [] e)) \<or>
          (\<exists>info. r = Ok info \<and> T (server (store (shared s))) cid = Some info)) \<and>
         cache (shared s) \<subseteq>\<^sub>m T (server (store (shared s)))"
proof -
  have "in_table (T (server (store (shared s)))) (Done cid r)" "cache (shared s) \<subseteq>\<^sub>m T (server (store (shared s)))"
    using reachable_truthful [OF assms(1-3)] assms(4) by (auto simp: truthful_def list_all_iff)
  then show ?thesis by (cases r) (auto simp: in_table_def fetch_failed_def split: if_splits)
qed

text \<open>Two lookups of the same collection that both miss.\<close>

lemma warms_table_driver: "warms_from_table table_driver demo_table"
proof -
  have "take 12 warmQuery \<noteq> take 12 collectionById" by code_simp
  then have "warmQuery \<noteq> collectionById" by auto
  then show ?thesis by (simp add: warms_from_table_def table_driver_def)
qed

lemma demo_lookup_steps:
  fixes w :: "(nat pool, unit) world"
  shows "cache w ''c'' = None \<Longrightarrow> lookup_step (NewCollectionRepo table_driver) (Asking ''c'') w = (Missed ''c'', counted ''miss'' w)"
    and "\<exists>c. infoOf c = infoOf demo_collection \<and>
           lookup_step (NewCollectionRepo table_driver) (Missed ''c'') w = (Fetched ''c'' c, w)"
    and "lookup_step (NewCollectionRepo table_driver) (Fetched ''c'' c) w = (Done ''c'' (Ok (infoOf c)), remember ''c'' c w)"
  using QueryRow_collection [OF table_driver_ok, where p = "store w" and cid = "''c''"]
  by (auto simp: GetInfo_by_case on_store_def NewCollectionRepo_def demo_table_def remember_def infoOf_def)

lemma overlapping_lookups_tell_the_table_witness:
  "\<exists>s c. (overlap_step table_driver)\<^sup>*\<^sup>* (idle 0 ()) s \<and> lookups s = [Done ''c'' (Ok (infoOf c)), Missed ''c''] \<and>
     demo_table (server (store (shared s))) ''c'' = Some (infoOf c)"
proof -
  note lookup_steps = demo_lookup_steps
  let ?w0 = "started 0 () :: (nat pool, unit) world"
  let ?w1 = "counted ''miss'' ?w0"
  let ?w2 = "counted ''miss'' ?w1"
  obtain c where c: "lookup_step (NewCollectionRepo table_driver) (Missed ''c'') ?w2 = (Fetched ''c'' c, ?w2)"
    using lookup_steps(2) by blast
  let ?s = "\<lambda>ls w. \<lparr>shared = w, lookups = ls, to_warm = []\<rparr>"
  have miss: "cache ?w0 ''c'' = None" "cache ?w1 ''c'' = None" by (simp_all add: started_def NewCollectionCache_def)
  have "overlap_step table_driver (idle 0 ()) (?s [Asking ''c''] ?w0)"
    using overlap_step.arrive [of table_driver "idle 0 ()" "''c''"] by (simp add: idle_def)
  moreover have "overlap_step table_driver (?s [Asking ''c''] ?w0) (?s [Asking ''c'', Asking ''c''] ?w0)"
    using overlap_step.arrive [of table_driver "?s [Asking ''c''] ?w0" "''c''"] by simp
  moreover have "overlap_step table_driver (?s [Asking ''c'', Asking ''c''] ?w0) (?s [Missed ''c'', Asking ''c''] ?w1)"
    using overlap_step.advance [of 0 "?s [Asking ''c'', Asking ''c''] ?w0" table_driver] lookup_steps(1) [OF miss(1)] by simp
  moreover have "overlap_step table_driver (?s [Missed ''c'', Asking ''c''] ?w1) (?s [Missed ''c'', Missed ''c''] ?w2)"
    using overlap_step.advance [of 1 "?s [Missed ''c'', Asking ''c''] ?w1" table_driver] lookup_steps(1) [OF miss(2)] by simp
  moreover have "overlap_step table_driver (?s [Missed ''c'', Missed ''c''] ?w2) (?s [Fetched ''c'' c, Missed ''c''] ?w2)"
    using overlap_step.advance [of 0 "?s [Missed ''c'', Missed ''c''] ?w2" table_driver] c by simp
  moreover have "overlap_step table_driver (?s [Fetched ''c'' c, Missed ''c''] ?w2)
      (?s [Done ''c'' (Ok (infoOf c)), Missed ''c''] (remember ''c'' c ?w2))"
    using overlap_step.advance [of 0 "?s [Fetched ''c'' c, Missed ''c''] ?w2" table_driver] lookup_steps(3) [of c ?w2] by simp
  ultimately have r: "(overlap_step table_driver)\<^sup>*\<^sup>* (idle 0 ()) (?s [Done ''c'' (Ok (infoOf c)), Missed ''c''] (remember ''c'' c ?w2))"
    by (meson converse_rtranclp_into_rtranclp rtranclp.rtrancl_refl)
  from overlapping_lookups_tell_the_table [OF table_driver_ok warms_table_driver r, of "''c''" "Ok (infoOf c)"]
  have "demo_table (server (store (shared (?s [Done ''c'' (Ok (infoOf c)), Missed ''c''] (remember ''c'' c ?w2))))) ''c'' = Some (infoOf c)"
    by simp
  with r show ?thesis by (intro exI [of _ "?s [Done ''c'' (Ok (infoOf c)), Missed ''c''] (remember ''c'' c ?w2)"] exI [of _ c]) simp
qed

end
