(* ===== verification/Document_Table.thy ===== *)
theory Document_Table
  imports Store_Properties
begin

text \<open>
  The abstract specification of the document repository: a table of documents by id, and what
  create, read, upsert and delete do to it. The driver is a parameter; the hypothesis on it,
  \<open>document_table\<close>, says of the four statements what PostgreSQL documents for them, with two
  functions of its own: \<open>key\<close> gives the id a text is read as, if it is a UUID at all (one has several
  spellings, and the database answers with one of them), and
  \<open>nf\<close> what JSONB makes of a JSON object (it may reorder its entries). The texts of vectors
  may change on the way, the numbers in them may not. A statement that reports an error has
  changed nothing.
\<close>

section \<open>What the statements do\<close>

type_synonym doc_table = "string \<rightharpoonup> Document"

text \<open>The answer to an insert: the new row under a fresh id, without its vector.\<close>

definition insert_answer ::
  "(string \<Rightarrow> string option) \<Rightarrow> metadata \<Rightarrow> string \<Rightarrow> fp list \<Rightarrow> string \<Rightarrow> doc_table \<Rightarrow> rows \<Rightarrow> doc_table \<Rightarrow> bool" where
  "insert_answer key m cid v content tbl rs tbl' \<longleftrightarrow>
     (\<exists>i c j t u. rs = \<lparr>row_list = [[VText i, VText c, VJson j, VText content, VTime t, VTime u]], rows_Err = None\<rparr> \<and>
        json_Unmarshal j = Ok m \<and> key i = Some i \<and> key cid = Some c \<and> tbl i = None \<and>
        tbl' = tbl(i \<mapsto> \<lparr>d_Id = i, d_CollectionId = c, d_Vector = v, d_Metadata = m, d_Content = content,
                         d_CreatedAt = t, d_UpdatedAt = u\<rparr>))"

text \<open>On a conflict the old row keeps its id, its collection and its time of creation.\<close>

definition upserted ::
  "doc_table \<Rightarrow> string \<Rightarrow> string \<Rightarrow> fp list \<Rightarrow> metadata \<Rightarrow> string \<Rightarrow> int \<Rightarrow> int \<Rightarrow> Document" where
  "upserted tbl i cid v m content t u =
     (case tbl i of
        None \<Rightarrow> \<lparr>d_Id = i, d_CollectionId = cid, d_Vector = v, d_Metadata = m, d_Content = content,
                 d_CreatedAt = t, d_UpdatedAt = u\<rparr>
      | Some old \<Rightarrow> old\<lparr>d_Vector := v, d_Metadata := m, d_Content := content, d_UpdatedAt := u\<rparr>)"

definition upsert_answer ::
  "string \<Rightarrow> metadata \<Rightarrow> string \<Rightarrow> fp list \<Rightarrow> string \<Rightarrow> doc_table \<Rightarrow> rows \<Rightarrow> doc_table \<Rightarrow> bool" where
  "upsert_answer i m cid v content tbl rs tbl' \<longleftrightarrow>
     (\<exists>j t u. let doc = upserted tbl i cid v m content t u in
        rs = \<lparr>row_list = [[VText (d_Id doc), VText (d_CollectionId doc), VJson j, VText (d_Content doc),
                           VTime (d_CreatedAt doc), VTime (d_UpdatedAt doc), VBool (tbl i = None)]],
              rows_Err = None\<rparr> \<and>
        json_Unmarshal j = Ok m \<and> tbl' = tbl(i \<mapsto> doc))"

definition read_answer :: "Document option \<Rightarrow> rows \<Rightarrow> bool" where
  "read_answer found rs \<longleftrightarrow>
     (case found of
        None \<Rightarrow> rs = \<lparr>row_list = [], rows_Err = None\<rparr>
      | Some doc \<Rightarrow> \<exists>vt j. stringToVector vt = Ok (d_Vector doc) \<and> json_Unmarshal j = Ok (d_Metadata doc) \<and>
          rs = \<lparr>row_list = [[VText (d_Id doc), VText (d_CollectionId doc), VText vt, VJson j, VText (d_Content doc),
                             VTime (d_CreatedAt doc), VTime (d_UpdatedAt doc)]], rows_Err = None\<rparr>)"

text \<open>An answer that is no error, or an error without a change.\<close>

definition answers_or_fails :: "('a \<Rightarrow> doc_table \<Rightarrow> bool) \<Rightarrow> doc_table \<Rightarrow> 'a result \<Rightarrow> doc_table \<Rightarrow> bool" where
  "answers_or_fails ok tbl r tbl' \<longleftrightarrow> (case r of Ok x \<Rightarrow> ok x tbl' | _ \<Rightarrow> tbl' = tbl)"

definition document_table ::
  "'d driver \<Rightarrow> (string \<Rightarrow> string option) \<Rightarrow> (metadata \<Rightarrow> metadata) \<Rightarrow> ('d \<Rightarrow> doc_table) \<Rightarrow> bool" where
  "document_table drv key nf T \<longleftrightarrow>
     (\<forall>cid vt v j m content d r d'. stringToVector vt = Ok v \<longrightarrow> json_Unmarshal j = Ok m \<longrightarrow>
        drv_Query drv insertDocument [AStr cid, AStr vt, AJson j, AStr content] d = (r, d') \<longrightarrow>
        answers_or_fails (insert_answer key (nf m) cid v content (T d)) (T d) r (T d')) \<and>
     (\<forall>i cid vt v j m content d r d'. stringToVector vt = Ok v \<longrightarrow> json_Unmarshal j = Ok m \<longrightarrow>
        drv_Query drv upsertDocument [AStr i, AStr cid, AStr vt, AJson j, AStr content] d = (r, d') \<longrightarrow>
        answers_or_fails (\<lambda>rs tbl'. \<exists>k c. key i = Some k \<and> key cid = Some c \<and> upsert_answer k (nf m) c v content (T d) rs tbl') (T d) r (T d')) \<and>
     (\<forall>i d. case key i of
        None \<Rightarrow> \<exists>e. drv_Query drv documentById [AStr i] d = (Err e, d)
      | Some k \<Rightarrow> \<exists>rs. drv_Query drv documentById [AStr i] d = (Ok rs, d) \<and> read_answer (T d k) rs) \<and>
     (\<forall>i d r d'. drv_Exec drv deleteDocument [AStr i] d = (r, d') \<longrightarrow>
        answers_or_fails (\<lambda>n tbl'. \<exists>k. key i = Some k \<and> n = Ok (if T d k = None then 0 else 1) \<and> tbl' = (T d)(k := None)) (T d) r (T d'))"

section \<open>The specification\<close>

datatype table_op =
    TCreate string string "fp list" metadata
  | TGet string
  | TDelete string
  | TUpsert string string string "fp list" metadata

datatype table_answer = Returned Document | Deleted | Stored Document bool

definition changes :: "table_op \<Rightarrow> bool" where
  "changes oper \<longleftrightarrow> (case oper of TGet i \<Rightarrow> False | _ \<Rightarrow> True)"

text \<open>The operations on the table. What a create or an upsert returns has no vector: the
  statements do not ask for it. An operation that writes may fail, and then it writes nothing;
  a read answers with the document or reports that there is none, unless its id is no UUID.\<close>

inductive table_step ::
  "(string \<Rightarrow> string option) \<Rightarrow> (metadata \<Rightarrow> metadata) \<Rightarrow> table_op \<Rightarrow> doc_table \<Rightarrow> table_answer result \<Rightarrow> doc_table \<Rightarrow> bool"
  for key nf where
  create: "tbl i = None \<Longrightarrow> key i = Some i \<Longrightarrow> key cid = Some c \<Longrightarrow>
     doc = \<lparr>d_Id = i, d_CollectionId = c, d_Vector = v, d_Metadata = nf m, d_Content = content,
            d_CreatedAt = t, d_UpdatedAt = u\<rparr> \<Longrightarrow>
     table_step key nf (TCreate cid content v m) tbl (Ok (Returned (doc\<lparr>d_Vector := []\<rparr>))) (tbl(i \<mapsto> doc))"
| upsert: "key i = Some k \<Longrightarrow> key cid = Some c \<Longrightarrow> doc = upserted tbl k c v (nf m) content t u \<Longrightarrow>
     table_step key nf (TUpsert i cid content v m) tbl (Ok (Stored (doc\<lparr>d_Vector := []\<rparr>) (tbl k = None))) (tbl(k \<mapsto> doc))"
| delete: "key i = Some k \<Longrightarrow> tbl k = Some doc \<Longrightarrow> table_step key nf (TDelete i) tbl (Ok Deleted) (tbl(k := None))"
| failed: "changes oper \<Longrightarrow> \<not> (\<exists>x. r = Ok x) \<Longrightarrow> table_step key nf oper tbl r tbl"
| found: "key i = Some k \<Longrightarrow> tbl k = Some doc \<Longrightarrow> table_step key nf (TGet i) tbl (Ok (Returned doc)) tbl"
| missing: "key i = Some k \<Longrightarrow> tbl k = None \<Longrightarrow> table_step key nf (TGet i) tbl (Err ErrNoRows) tbl"
| no_uuid: "key i = None \<Longrightarrow> table_step key nf (TGet i) tbl (Err e) tbl"

inductive_cases table_step_getE: "table_step key nf (TGet i) tbl r tbl'"
inductive_cases table_step_deleteE: "table_step key nf (TDelete i) tbl r tbl'"

inductive table_run ::
  "(string \<Rightarrow> string option) \<Rightarrow> (metadata \<Rightarrow> metadata) \<Rightarrow> table_op list \<Rightarrow> doc_table \<Rightarrow> table_answer result list \<Rightarrow> doc_table \<Rightarrow> bool"
  for key nf where
  no_op: "table_run key nf [] tbl [] tbl"
| one_op: "table_step key nf oper tbl r tbl1 \<Longrightarrow> table_run key nf rest tbl1 rs tbl2 \<Longrightarrow>
     table_run key nf (oper # rest) tbl (r # rs) tbl2"

section \<open>The repository\<close>

text \<open>The operations of the repository under the names of the specification, one and many.\<close>

fun repo_op :: "'d driver \<Rightarrow> table_op \<Rightarrow> ('d pool, gerror, table_answer) op" where
  "repo_op drv (TCreate cid content v m) = andThen (DocumentRepo_Create drv cid content v m) (\<lambda>d. ret (Returned d))"
| "repo_op drv (TGet i) = andThen (DocumentRepo_GetById drv i) (\<lambda>d. ret (Returned d))"
| "repo_op drv (TDelete i) = andThen (DocumentRepo_DeleteById drv i) (\<lambda>_. ret Deleted)"
| "repo_op drv (TUpsert i cid content v m) =
     andThen (DocumentRepo_Upsert drv i cid content v m) (\<lambda>r. ret (Stored (u_Document r) (u_IsNew r)))"

fun repo_ops :: "'d driver \<Rightarrow> table_op list \<Rightarrow> 'd pool \<Rightarrow> table_answer result list \<times> 'd pool" where
  "repo_ops drv [] p = ([], p)"
| "repo_ops drv (oper # rest) p =
     (case repo_op drv oper p of (r, p') \<Rightarrow> (case repo_ops drv rest p' of (rs, p'') \<Rightarrow> (r # rs, p'')))"

text \<open>Vectors are float32.\<close>

definition float32_op :: "table_op \<Rightarrow> bool" where
  "float32_op oper =
     (case oper of TCreate _ _ v _ \<Rightarrow> list_all is_f32 v | TUpsert _ _ _ v _ \<Rightarrow> list_all is_f32 v | _ \<Rightarrow> True)"

section \<open>Refinement\<close>

lemmas table_laws =
  document_table_def [THEN iffD1, THEN conjunct1, rule_format]
  document_table_def [THEN iffD1, THEN conjunct2, THEN conjunct1, rule_format]
  document_table_def [THEN iffD1, THEN conjunct2, THEN conjunct2, THEN conjunct1, rule_format]
  document_table_def [THEN iffD1, THEN conjunct2, THEN conjunct2, THEN conjunct2, rule_format]

text \<open>Both writes begin with the encoding of the metadata.\<close>

lemma marshal_cases:
  obtains (ok) j where "json_Unmarshal j = Ok m" and "marshalMetadata m p = (Ok j, p)"
        | (err) e where "marshalMetadata m p = (Err e, p)"
proof (cases "json_Marshal m")
  case (Ok j)
  then show ?thesis using ok json_roundtrip [OF Ok] by (simp add: marshalMetadata_def lift_def)
next
  case (Err e)
  then show ?thesis using err by (simp add: marshalMetadata_def lift_def)
qed (auto simp: json_Marshal_def split: option.splits if_splits)

lemma create_refines:
  assumes T: "document_table drv key nf T" and f32: "list_all is_f32 v"
    and run: "repo_op drv (TCreate cid content v m) p = (r, p')"
  shows "table_step key nf (TCreate cid content v m) (T (server p)) r (T (server p'))"
proof (cases rule: marshal_cases [of m p])
  case (err e)
  with run show ?thesis
    by (auto simp: DocumentRepo_Create_def Let_def andThen_run changes_def intro!: table_step.failed)
next
  case (ok j)
  obtain q d where q: "drv_Query drv insertDocument [AStr cid, AStr (vectorToString v), AJson j, AStr content] (server p) = (q, d)"
    by fastforce
  note law = table_laws(1) [OF T vector_roundtrip [OF f32] ok(1) q]
  show ?thesis
  proof (cases q)
    case (Ok rs)
    with law obtain i c j' t u where
      rs: "rs = \<lparr>row_list = [[VText i, VText c, VJson j', VText content, VTime t, VTime u]], rows_Err = None\<rparr>"
      and j': "json_Unmarshal j' = Ok (nf m)" and i: "key i = Some i" "key cid = Some c" "T (server p) i = None"
      and d: "T d = (T (server p))(i \<mapsto> \<lparr>d_Id = i, d_CollectionId = c, d_Vector = v, d_Metadata = nf m,
                             d_Content = content, d_CreatedAt = t, d_UpdatedAt = u\<rparr>)"
      by (auto simp: answers_or_fails_def insert_answer_def)
    let ?doc = "\<lparr>d_Id = i, d_CollectionId = c, d_Vector = v, d_Metadata = nf m, d_Content = content,
                 d_CreatedAt = t, d_UpdatedAt = u\<rparr>"
    have "r = Ok (Returned (?doc\<lparr>d_Vector := []\<rparr>))" "server p' = d"
      using run ok(2) q Ok rs j'
      by (auto simp: DocumentRepo_Create_def Let_def QueryRow_def returnedDocument_def decodeMetadata_def first_row_def
          op_simps)
    with table_step.create [where key = key and nf = nf and tbl = "T (server p)", OF i(3,1,2) refl] d show ?thesis by simp
  qed (use run ok(2) q law in \<open>auto simp: DocumentRepo_Create_def Let_def QueryRow_def op_simps changes_def
        answers_or_fails_def intro!: table_step.failed\<close>)
qed

lemma upsert_refines:
  assumes T: "document_table drv key nf T" and f32: "list_all is_f32 v"
    and run: "repo_op drv (TUpsert i cid content v m) p = (r, p')"
  shows "table_step key nf (TUpsert i cid content v m) (T (server p)) r (T (server p'))"
proof (cases rule: marshal_cases [of m p])
  case (err e)
  with run show ?thesis
    by (auto simp: DocumentRepo_Upsert_def Let_def andThen_run changes_def intro!: table_step.failed)
next
  case (ok j)
  obtain q d where
    q: "drv_Query drv upsertDocument [AStr i, AStr cid, AStr (vectorToString v), AJson j, AStr content] (server p) = (q, d)"
    by fastforce
  note law = table_laws(2) [OF T vector_roundtrip [OF f32] ok(1) q]
  show ?thesis
  proof (cases q)
    case (Ok rs)
    with law obtain k c j' t u where k: "key i = Some k" "key cid = Some c"
      and rs: "rs = (let doc = upserted (T (server p)) k c v (nf m) content t u in
        \<lparr>row_list = [[VText (d_Id doc), VText (d_CollectionId doc), VJson j', VText (d_Content doc),
                      VTime (d_CreatedAt doc), VTime (d_UpdatedAt doc), VBool (T (server p) k = None)]],
         rows_Err = None\<rparr>)"
      and j': "json_Unmarshal j' = Ok (nf m)"
      and d: "T d = (T (server p))(k \<mapsto> upserted (T (server p)) k c v (nf m) content t u)"
      by (auto simp: answers_or_fails_def upsert_answer_def Let_def)
    let ?doc = "upserted (T (server p)) k c v (nf m) content t u"
    have "d_Metadata ?doc = nf m" by (simp add: upserted_def split: option.splits)
    then have "r = Ok (Stored (?doc\<lparr>d_Vector := []\<rparr>) (T (server p) k = None))" "server p' = d"
      using run ok(2) q Ok rs j'
      by (auto simp: DocumentRepo_Upsert_def Let_def QueryRow_def returnedDocument_def decodeMetadata_def first_row_def
          op_simps)
    with table_step.upsert [where key = key and nf = nf and tbl = "T (server p)", OF k refl] d show ?thesis by metis
  qed (use run ok(2) q law in \<open>auto simp: DocumentRepo_Upsert_def Let_def QueryRow_def op_simps changes_def
        answers_or_fails_def intro!: table_step.failed\<close>)
qed

lemma GetById_reads:
  assumes T: "document_table drv key nf T"
  shows "DocumentRepo_GetById drv i p =
           (case Option.bind (key i) (T (server p)) of Some doc \<Rightarrow> Ok doc | None \<Rightarrow> fst (DocumentRepo_GetById drv i p), p)"
    and "key i = Some k \<Longrightarrow> T (server p) k = None \<Longrightarrow> fst (DocumentRepo_GetById drv i p) = Err ErrNoRows"
    and "key i = None \<Longrightarrow> \<exists>e. fst (DocumentRepo_GetById drv i p) = Err e"
  using table_laws(3) [OF T, of i "server p"]
  by (auto simp: DocumentRepo_GetById_def QueryRow_def op_simps read_answer_def first_row_def decodeVector_def
      decodeMetadata_def split: option.splits)

lemma read_refines:
  assumes T: "document_table drv key nf T" and run: "repo_op drv (TGet i) p = (r, p')"
  shows "table_step key nf (TGet i) (T (server p)) r (T (server p'))"
proof (cases "key i")
  case None
  with GetById_reads(1,3) [OF T, where i = i and p = p] run show ?thesis
    by (auto simp: andThen_def handle_def fail_def split: prod.splits intro: table_step.no_uuid)
next
  case (Some k)
  show ?thesis
  proof (cases "T (server p) k")
    case None
    with GetById_reads(1,2) [OF T, where i = i and p = p] run Some show ?thesis
      by (auto simp: andThen_def handle_def fail_def split: prod.splits intro: table_step.missing)
  next
    case (Some doc)
    with GetById_reads(1) [OF T, where i = i and p = p] run \<open>key i = Some k\<close> show ?thesis
      by (auto simp: andThen_run ret_run intro: table_step.found)
  qed
qed

lemma delete_refines:
  assumes T: "document_table drv key nf T" and run: "repo_op drv (TDelete i) p = (r, p')"
  shows "table_step key nf (TDelete i) (T (server p)) r (T (server p'))"
proof -
  obtain q d where q: "drv_Exec drv deleteDocument [AStr i] (server p) = (q, d)" by fastforce
  note law = table_laws(4) [OF T q]
  show ?thesis
  proof (cases q)
    case (Ok n)
    with law obtain k where k: "key i = Some k" "n = Ok (if T (server p) k = None then 0 else 1)"
      "T d = (T (server p))(k := None)" by (auto simp: answers_or_fails_def)
    show ?thesis
    proof (cases "T (server p) k")
      case None
      then have "(T (server p))(k := None) = T (server p)" by (simp add: fun_upd_idem)
      then show ?thesis using Ok run q k None
        by (auto simp: DocumentRepo_DeleteById_def op_simps changes_def intro!: table_step.failed)
    next
      case (Some doc)
      then show ?thesis using Ok run q k table_step.delete [where key = key and nf = nf and tbl = "T (server p)", OF k(1) Some]
        by (auto simp: DocumentRepo_DeleteById_def op_simps)
    qed
  qed (use run q law in \<open>auto simp: DocumentRepo_DeleteById_def op_simps changes_def answers_or_fails_def
        intro!: table_step.failed\<close>)
qed

lemma repo_op_refines:
  assumes "document_table drv key nf T" and "float32_op oper" and "repo_op drv oper p = (r, p')"
  shows "table_step key nf oper (T (server p)) r (T (server p'))"
  using assms by (cases oper) (auto simp only: float32_op_def table_op.case intro: create_refines upsert_refines read_refines delete_refines)

text \<open>The repository implements the table, one document at a time: every sequence of creates, reads, upserts
  and deletes answers as the abstract table does, and the database stands for the table after
  it. A read sees the last write, an upsert keeps the collection of the document that was
  there, and an operation that fails has no effect.\<close>

lemma document_repo_refines_table:
  assumes "document_table drv key nf T" and "list_all float32_op opers" and "repo_ops drv opers p = (rs, p')"
  shows "table_run key nf opers (T (server p)) rs (T (server p'))"
  using assms(2,3)
proof (induction opers arbitrary: p rs p')
  case Nil
  then show ?case by (simp add: table_run.no_op)
next
  case (Cons oper opers)
  obtain r p1 where r: "repo_op drv oper p = (r, p1)" by fastforce
  obtain rs1 p2 where rs: "repo_ops drv opers p1 = (rs1, p2)" by fastforce
  from Cons.prems r rs have e: "rs = r # rs1" "p' = p2" by simp_all
  have "table_step key nf oper (T (server p)) r (T (server p1))"
    using repo_op_refines [OF assms(1) _ r] Cons.prems(1) by simp
  moreover have "table_run key nf opers (T (server p1)) rs1 (T (server p2))"
    using Cons.IH [OF _ rs] Cons.prems(1) by simp
  ultimately show ?case unfolding e by (rule table_run.one_op)
qed

section \<open>A database with a table of documents\<close>

text \<open>A row keeps the texts it was given; ids are made of a counter.\<close>

type_synonym doc_row = "string \<times> string \<times> json \<times> string \<times> int \<times> int"
type_synonym doc_db = "nat \<times> (string \<Rightarrow> doc_row option)"

definition row_document :: "string \<Rightarrow> doc_row \<Rightarrow> Document option" where
  "row_document i row =
     (case row of (cid, vt, j, content, t, u) \<Rightarrow>
        (case (stringToVector vt, json_Unmarshal j) of
           (Ok v, Ok m) \<Rightarrow> Some \<lparr>d_Id = i, d_CollectionId = cid, d_Vector = v, d_Metadata = m, d_Content = content,
                                d_CreatedAt = t, d_UpdatedAt = u\<rparr>
         | _ \<Rightarrow> None))"

definition table_of :: "doc_db \<Rightarrow> doc_table" where
  "table_of d i = (case snd d i of None \<Rightarrow> None | Some row \<Rightarrow> row_document i row)"

fun doc_insert :: "sqlarg list \<Rightarrow> (doc_db, gerror, rows) op" where
  "doc_insert [AStr cid, AStr vt, AJson j, AStr content] d =
     (let i = replicate (fst d) (CHR ''i'') in
      if table_of d i \<noteq> None then (Err (ErrNew ''duplicate key''), d)
      else (Ok \<lparr>row_list = [[VText i, VText cid, VJson j, VText content, VTime 1, VTime 1]], rows_Err = None\<rparr>,
            (fst d + 1, (snd d)(i \<mapsto> (cid, vt, j, content, 1, 1)))))"
| "doc_insert _ d = (Err (ErrNew ''syntax error''), d)"

fun doc_upsert :: "sqlarg list \<Rightarrow> (doc_db, gerror, rows) op" where
  "doc_upsert [AStr i, AStr cid, AStr vt, AJson j, AStr content] d =
     (case table_of d i of
        None \<Rightarrow> (Ok \<lparr>row_list = [[VText i, VText cid, VJson j, VText content, VTime 1, VTime 1, VBool True]], rows_Err = None\<rparr>,
                 (fst d, (snd d)(i \<mapsto> (cid, vt, j, content, 1, 1))))
      | Some old \<Rightarrow>
          (Ok \<lparr>row_list = [[VText i, VText (d_CollectionId old), VJson j, VText content, VTime (d_CreatedAt old), VTime 2, VBool False]],
               rows_Err = None\<rparr>,
           (fst d, (snd d)(i \<mapsto> (d_CollectionId old, vt, j, content, d_CreatedAt old, 2)))))"
| "doc_upsert _ d = (Err (ErrNew ''syntax error''), d)"

fun doc_read :: "sqlarg list \<Rightarrow> (doc_db, gerror, rows) op" where
  "doc_read [AStr i] d =
     (case (table_of d i, snd d i) of
        (Some _, Some (cid, vt, j, content, t, u)) \<Rightarrow>
          (Ok \<lparr>row_list = [[VText i, VText cid, VText vt, VJson j, VText content, VTime t, VTime u]], rows_Err = None\<rparr>, d)
      | _ \<Rightarrow> (Ok \<lparr>row_list = [], rows_Err = None\<rparr>, d))"
| "doc_read _ d = (Err (ErrNew ''syntax error''), d)"

fun doc_delete :: "sqlarg list \<Rightarrow> (doc_db, gerror, int result) op" where
  "doc_delete [AStr i] d = (Ok (Ok (if table_of d i = None then 0 else 1)), (fst d, (snd d)(i := None)))"
| "doc_delete _ d = (Err (ErrNew ''syntax error''), d)"

definition doc_driver :: "doc_db driver" where
  "doc_driver =
     \<lparr>drv_Query = (\<lambda>q. if q = insertDocument then doc_insert else if q = upsertDocument then doc_upsert
                      else if q = documentById then doc_read else (\<lambda>_. ret \<lparr>row_list = [], rows_Err = None\<rparr>)),
      drv_Exec = (\<lambda>q. if q = deleteDocument then doc_delete else (\<lambda>_. ret (Ok 0))),
      drv_Begin = ret (), drv_Commit = ret (), drv_Rollback = (\<lambda>d. d), drv_Ping = ret ()\<rparr>"

lemma statement_texts:
  "insertDocument \<noteq> upsertDocument" "insertDocument \<noteq> documentById" "upsertDocument \<noteq> documentById"
  by code_simp+

lemma table_of_put: "table_of (n, (snd d)(i \<mapsto> row)) = (table_of d)(i := row_document i row)"
  by (auto simp: table_of_def)

lemma table_of_remove: "table_of (n, (snd d)(i := None)) = (table_of d)(i := None)"
  by (auto simp: table_of_def)

lemma doc_driver_table: "document_table doc_driver Some (\<lambda>m. m) table_of"
proof -
  have ins: "answers_or_fails (insert_answer Some m cid v content (table_of d)) (table_of d) r (table_of d')"
    if "stringToVector vt = Ok v" "json_Unmarshal j = Ok m" "doc_insert [AStr cid, AStr vt, AJson j, AStr content] d = (r, d')"
    for cid vt v j m content d r d'
    using that by (auto simp: answers_or_fails_def insert_answer_def Let_def table_of_put row_document_def split: if_splits)
  have ups: "answers_or_fails (upsert_answer i m cid v content (table_of d)) (table_of d) r (table_of d')"
    if "stringToVector vt = Ok v" "json_Unmarshal j = Ok m"
      "doc_upsert [AStr i, AStr cid, AStr vt, AJson j, AStr content] d = (r, d')"
    for i cid vt v j m content d r d'
  proof (cases "table_of d i")
    case None
    then show ?thesis using that
      by (auto simp: answers_or_fails_def upsert_answer_def upserted_def Let_def table_of_put row_document_def)
  next
    case (Some old)
    then have "d_Id old = i"
      by (auto simp: table_of_def row_document_def split: option.splits prod.splits outcome.splits)
    with Some that show ?thesis
      by (cases old)
         (auto simp: answers_or_fails_def upsert_answer_def upserted_def Let_def table_of_put row_document_def)
  qed
  have rd: "\<exists>rs. doc_read [AStr i] d = (Ok rs, d) \<and> read_answer (table_of d i) rs" for i d
    by (auto simp: read_answer_def table_of_def row_document_def split: option.splits prod.splits outcome.splits)
  show ?thesis
    unfolding document_table_def
    using ins ups rd statement_texts
    by (auto simp: doc_driver_def answers_or_fails_def table_of_remove)
qed

text \<open>A document is created, replaced under another collection and read: it is still in the first.\<close>

lemma document_repo_refines_table_witness:
  "let opers = [TCreate ''c1'' ''old'' [f_one] None, TUpsert [] ''c2'' ''new'' [f_zero] None, TGet []]
   in \<exists>p'. repo_ops doc_driver opers \<lparr>server = (0, \<lambda>_. None), goroutines = [], HNSWBuildDuration = 0, HNSWBuildErrors = 0\<rparr> =
         ([Ok (Returned \<lparr>d_Id = [], d_CollectionId = ''c1'', d_Vector = [], d_Metadata = None, d_Content = ''old'',
                        d_CreatedAt = 1, d_UpdatedAt = 1\<rparr>),
           Ok (Stored \<lparr>d_Id = [], d_CollectionId = ''c1'', d_Vector = [], d_Metadata = None, d_Content = ''new'',
                        d_CreatedAt = 1, d_UpdatedAt = 2\<rparr> False),
           Ok (Returned \<lparr>d_Id = [], d_CollectionId = ''c1'', d_Vector = [f_zero], d_Metadata = None, d_Content = ''new'',
                        d_CreatedAt = 1, d_UpdatedAt = 2\<rparr>)], p') \<and>
      (\<exists>rs. table_run Some (\<lambda>m. m) opers (\<lambda>_. None) rs (table_of (server p')))"
proof -
  let ?opers = "[TCreate ''c1'' ''old'' [f_one] None, TUpsert [] ''c2'' ''new'' [f_zero] None, TGet []]"
  let ?p = "\<lparr>server = (0, \<lambda>_. None), goroutines = [], HNSWBuildDuration = 0, HNSWBuildErrors = 0\<rparr> :: doc_db pool"
  have f32: "list_all is_f32 [f_one]" "list_all is_f32 [f_zero]" by (simp_all add: f_one_def f_zero_def)
  note vec = vector_roundtrip [OF f32(1)] vector_roundtrip [OF f32(2)]
  have t: "table_of (n, \<lambda>_. None) = (\<lambda>_. None)" for n by (auto simp: table_of_def)
  obtain rs p' where run: "repo_ops doc_driver ?opers ?p = (rs, p')" by fastforce
  have "table_run Some (\<lambda>m. m) ?opers (table_of (server ?p)) rs (table_of (server p'))"
    by (rule document_repo_refines_table [OF doc_driver_table _ run]) (simp add: float32_op_def f_one_def f_zero_def)
  moreover have "rs = [Ok (Returned \<lparr>d_Id = [], d_CollectionId = ''c1'', d_Vector = [], d_Metadata = None, d_Content = ''old'',
                        d_CreatedAt = 1, d_UpdatedAt = 1\<rparr>),
           Ok (Stored \<lparr>d_Id = [], d_CollectionId = ''c1'', d_Vector = [], d_Metadata = None, d_Content = ''new'',
                        d_CreatedAt = 1, d_UpdatedAt = 2\<rparr> False),
           Ok (Returned \<lparr>d_Id = [], d_CollectionId = ''c1'', d_Vector = [f_zero], d_Metadata = None, d_Content = ''new'',
                        d_CreatedAt = 1, d_UpdatedAt = 2\<rparr>)]"
    using run vec statement_texts
    by (auto simp: DocumentRepo_Create_def DocumentRepo_Upsert_def DocumentRepo_GetById_def Let_def QueryRow_def
        marshalMetadata_def json_Marshal_def returnedDocument_def decodeMetadata_def decodeVector_def first_row_def
        andThen_def handle_def lift_def wrap_error_def on_server_def doc_driver_def table_of_def row_document_def ret_def fail_def)
  ultimately show ?thesis using run t by (auto simp: Let_def)
qed

text \<open>The collection of a document survives an upsert that names another one, although the vector
  was checked against the dimension of the other.\<close>

lemma upsert_keeps_old_collection:
  assumes "document_table drv key nf T" and "list_all is_f32 v" and "key i = Some k" and "T (server p) k = Some old"
    and "DocumentRepo_Upsert drv i cid content v m p = (Ok r, p')"
  shows "d_CollectionId (u_Document r) = d_CollectionId old \<and>
         (\<exists>doc. T (server p') k = Some doc \<and> d_CollectionId doc = d_CollectionId old \<and> d_Vector doc = v)"
proof -
  have "repo_op drv (TUpsert i cid content v m) p = (Ok (Stored (u_Document r) (u_IsNew r)), p')"
    using assms(5) by (simp add: andThen_run ret_run)
  from upsert_refines [OF assms(1,2) this] assms(3,4) show ?thesis
    by (cases rule: table_step.cases) (auto simp: upserted_def)
qed

end
