(* ===== verification/Document_Session.thy ===== *)
theory Document_Session
  imports Document_Table Cache_Refinement
begin

text \<open>
  Documents through the server: what a client creates it reads again, whatever requests come
  in between, until the document is changed or deleted by its id or its collection is deleted.
  The database is the one of \<open>Document_Table\<close>, and a row is left alone by every statement that
  does not name it.
\<close>

section \<open>Statements and requests that can change a document\<close>

text \<open>\<open>i\<close> is the id of the document and \<open>c\<close> the one of its collection, as the database prints them.\<close>

definition touches :: "(string \<Rightarrow> string option) \<Rightarrow> string \<Rightarrow> string \<Rightarrow> string \<Rightarrow> sqlarg list \<Rightarrow> bool" where
  "touches key i c q args \<longleftrightarrow>
     (q = deleteDocument \<and> (\<exists>j. args = [AStr j] \<and> key j = Some i)) \<or>
     (q = upsertDocument \<and> (\<exists>j c' v m t. args = [AStr j, AStr c', AStr v, AJson m, AStr t] \<and> key j = Some i)) \<or>
     (q = batchDelete \<and> (\<exists>ids c'. args = [AIds ids, AStr c'] \<and> Some i \<in> key ` set ids)) \<or>
     (q = deleteCollection \<and> (\<exists>c'. args = [AStr c'] \<and> key c' = Some c))"

lemma touching_statements:
  "documentById \<noteq> deleteDocument" "documentById \<noteq> upsertDocument" "documentById \<noteq> batchDelete"
  "collectionById \<noteq> deleteDocument" "collectionById \<noteq> upsertDocument" "collectionById \<noteq> batchDelete"
  "insertDocument \<noteq> deleteDocument" "insertDocument \<noteq> upsertDocument" "insertDocument \<noteq> batchDelete"
  "insertCollection \<noteq> deleteDocument" "insertCollection \<noteq> upsertDocument" "insertCollection \<noteq> batchDelete"
  "deleteDocument \<noteq> upsertDocument" "deleteDocument \<noteq> batchDelete" "upsertDocument \<noteq> batchDelete"
  "upsertDocument \<noteq> deleteCollection" "batchDelete \<noteq> deleteCollection"
  by code_simp+

lemmas all_texts = touching_statements other_statements touching_statements [symmetric] other_statements [symmetric]

interpretation touching: spared "touches key i c" for key i c
proof
  show "\<not> touches key i c q args" if "4 dvd length args" for q and args :: "sqlarg list"
  proof -
    have "length args \<notin> {1, 2, 5}" using that by auto
    then show ?thesis by (auto simp: touches_def)
  qed
qed (auto simp: touches_def all_texts append_eq_Cons_conv)

fun touches_document :: "(string \<Rightarrow> string option) \<Rightarrow> string \<Rightarrow> string \<Rightarrow> 's request \<Rightarrow> bool" where
  "touches_document key i c (UpsertDocumentCall req) = (key (ud_Id req) = Some i)"
| "touches_document key i c (DeleteDocumentCall j) = (key j = Some i)"
| "touches_document key i c (BatchDeleteCall c' ids) = (Some i \<in> key ` set ids)"
| "touches_document key i c (DeleteCollectionCall c') = (key c' = Some c)"
| "touches_document key i c _ = False"

text \<open>A row that is left alone by every statement that does not name it.\<close>

definition keeps_rows :: "'d driver \<Rightarrow> (string \<Rightarrow> string option) \<Rightarrow> ('d \<Rightarrow> doc_table) \<Rightarrow> bool" where
  "keeps_rows drv key T \<longleftrightarrow>
     (\<forall>i doc. driver_spares (touches key i (d_CollectionId doc)) (\<lambda>d. T d i = Some doc) drv)"

section \<open>Requests that leave a document alone\<close>

lemma changing_operations:
  assumes "driver_spares (touches key i c) P drv"
  shows "key did \<noteq> Some i \<Longrightarrow> preserves (on_pool P) (DocumentRepo_Upsert drv did cid t v m)"
    and "key did \<noteq> Some i \<Longrightarrow> preserves (on_pool P) (DocumentRepo_DeleteById drv did)"
    and "Some i \<notin> key ` set ids \<Longrightarrow> preserves (on_pool P) (DocumentRepo_BatchDelete drv cid ids)"
    and "key cid \<noteq> Some c \<Longrightarrow> preserves (on_pool P) (CollectionRepo_DeleteById drv cid)"
  by (intro touching.spared_upsert [OF assms] touching.spared_delete [OF assms]; auto simp: touches_def all_texts)+

lemma untouched_dispatch:
  assumes drv: "driver_spares (touches key i c) P (driver_of env)" and req: "\<not> touches_document key i c req"
  shows "preserves (store_holds (on_pool P)) (dispatch env req)"
proof -
  let ?Q = "on_pool P" and ?dr = "NewDocumentRepo (driver_of env) (schedule_of env)" and ?cr = "NewCollectionRepo (driver_of env)"
  have kept: "kept_store ?Q ?dr ?cr" by (rule touching.kept [OF drv])
  note services = kept_store.holds_document_service [OF kept] kept_store.holds_search_service [OF kept]
    kept_store.holds_ingest [OF kept] kept_store.holds_collection_service [OF kept]
  have ping: "preserves ?Q (Health_Check (Some (driver_of env)) service)" for service
    by (auto simp: Health_Check_def CheckReadiness_def CheckLiveness_def intro!: preserves_intros pool_driver [OF drv])
  have upsert: "preserves (store_holds ?Q) (UpsertDocument ?dr ?cr did cid t v m)" if "key did \<noteq> Some i" for did cid t v m
    by (rule kept_store.holds_changing_service(1) [OF kept])
       (simp add: NewDocumentRepo_def changing_operations [OF drv] that)
  have delete: "preserves (store_holds ?Q) (DeleteDocument ?dr did)" if "key did \<noteq> Some i" for did
    by (rule kept_store.holds_changing_service(2) [OF kept])
       (simp add: NewDocumentRepo_def changing_operations [OF drv] that)
  have batch: "preserves (store_holds ?Q) (BatchDelete ?dr ?cr cid ids)" if "Some i \<notin> key ` set ids" for cid ids
    by (rule kept_store.holds_changing_service(3) [OF kept])
       (use changing_operations(3) [OF drv that] in \<open>simp add: NewDocumentRepo_def\<close>)
  have collection: "preserves ?Q (DeleteCollection ?cr cid)" if "key cid \<noteq> Some c" for cid
    by (rule kept_store.holds_collection_service(4) [OF kept])
       (simp add: NewCollectionRepo_def changing_operations [OF drv] that)
  show ?thesis
    using req
    by (cases req)
       (auto simp: responding_def Handler_CreateCollection_def Handler_ListCollections_def Handler_ListCollection_def
         Handler_DeleteCollection_def Handler_CreateDocument_def Handler_IngestDocument_def Handler_UpsertDocument_def
         Handler_ListDocuments_def Handler_ListDocument_def Handler_DeleteDocument_def Handler_SearchDocuments_def
         Handler_FullTextSearch_def Handler_BatchInsert_def Handler_BatchDelete_def Handler_HybridSearch_def Let_def
         intro!: preserves_intros holds_on_store services ping upsert delete batch collection split: prod.splits)
qed

text \<open>What may happen to the server meanwhile: such requests, background tasks, and the warming
  of the cache.\<close>

inductive undisturbed_step ::
  "'s structs \<Rightarrow> 'd driver \<Rightarrow> (string \<Rightarrow> string option) \<Rightarrow> string \<Rightarrow> string \<Rightarrow> ('d pool, 'h) world \<Rightarrow> ('d pool, 'h) world \<Rightarrow> bool"
  for st drv key i c where
  call: "structs_of env = st \<Longrightarrow> driver_of env = drv \<Longrightarrow> \<not> touches_document key i c req \<Longrightarrow>
     undisturbed_step st drv key i c w (snd (dispatch env req w))"
| goroutine: "undisturbed_step st drv key i c w (w\<lparr>store := run_goroutine drv n (store w)\<rparr>)"
| warm: "undisturbed_step st drv key i c w (snd (WarmFromDB drv w))"

inductive_cases undisturbed_stepE: "undisturbed_step st drv key i c w w'"

lemma untouched_warm:
  assumes "driver_spares (touches key i c) P drv"
  shows "preserves (store_holds (on_pool P)) (WarmFromDB drv)"
  unfolding WarmFromDB_def
  by (intro preserves_andThen holds_on_store pool_driver [OF assms] touching.no_args)
     (auto simp: preserves_def store_holds_def split: prod.splits)

lemma undisturbed_keeps:
  assumes drv: "driver_spares (touches key i c) P drv" and "(undisturbed_step st drv key i c)\<^sup>*\<^sup>* w w'"
    and "P (server (store w))"
  shows "P (server (store w'))"
  using assms(2,3)
proof (induction rule: rtranclp_induct)
  case (step w1 w2)
  have P: "on_pool P (store w1)" using step by (simp add: on_pool_def)
  from step.hyps(2) have "on_pool P (store w2)"
  proof (cases rule: undisturbed_step.cases)
    case (call env req)
    with preservesD [OF untouched_dispatch [of key i c P env req], of w1] drv P show ?thesis
      by (simp add: store_holds_def)
  next
    case (goroutine n)
    with touching.spared_goroutine [OF drv P] show ?thesis by simp
  next
    case warm
    with preservesD [OF untouched_warm [OF drv], of w1] P show ?thesis by (simp add: store_holds_def)
  qed
  then show ?case by (simp add: on_pool_def)
qed simp

section \<open>Create, then read\<close>

text \<open>What a create leaves in the table.\<close>

lemma created_row:
  assumes T: "document_table (driver_of env) key nf T" and f32: "list_all is_f32 (cd_Vector req)"
    and run: "dispatch env (CreateDocumentCall req) w = (Ok (CreateDocumentResponse (i, t, u)), w1)"
  shows "\<exists>c. key i = Some i \<and> key (cd_CollectionId req) = Some c \<and> T (server (store w1)) i =
     Some \<lparr>d_Id = i, d_CollectionId = c, d_Vector = cd_Vector req,
           d_Metadata = nf (orEmpty (toMetadata (structs_of env) (cd_Metadata req))), d_Content = cd_Content req,
           d_CreatedAt = t, d_UpdatedAt = u\<rparr>"
proof -
  let ?m = "orEmpty (toMetadata (structs_of env) (cd_Metadata req))"
  from run obtain doc where "d_Id doc = i" "d_CreatedAt doc = t" "d_UpdatedAt doc = u"
    "CreateDocument (NewDocumentRepo (driver_of env) (schedule_of env)) (NewCollectionRepo (driver_of env))
       (cd_CollectionId req) (cd_Content req) (cd_Vector req) (toMetadata (structs_of env) (cd_Metadata req)) w = (Ok doc, w1)"
    by (auto simp: responding_def Handler_CreateDocument_def andThen_Ok ret_def)
  then obtain w0 p where doc: "d_Id doc = i" "d_CreatedAt doc = t" "d_UpdatedAt doc = u"
    "DocumentRepo_Create (driver_of env) (cd_CollectionId req) (cd_Content req) (cd_Vector req) ?m (store w0) = (Ok doc, p)"
    "w1 = w0\<lparr>store := p\<rparr>"
    by (auto simp: CreateDocument_Ok NewDocumentRepo_def)
  then have "repo_op (driver_of env) (TCreate (cd_CollectionId req) (cd_Content req) (cd_Vector req) ?m) (store w0) =
      (Ok (Returned doc), p)"
    by (simp add: andThen_run ret_run)
  from create_refines [OF T f32 this] doc show ?thesis
    by (cases rule: table_step.cases) auto
qed

text \<open>What a read answers.\<close>

lemma read_row:
  assumes T: "document_table (driver_of env) key nf T" and i: "i \<noteq> []"
    and row: "key i = Some k" "T (server (store w)) k = Some doc"
  shows "dispatch env (ListDocumentCall i) w = (Ok (DocumentResponse (convertToProtoDocument (structs_of env) doc)), w)"
  using GetById_reads(1) [OF T, where i = i and p = "store w"] row i
  by (simp add: responding_def Handler_ListDocument_def GetDocument_def NewDocumentRepo_def op_simps)

text \<open>C1 What was created can be read: after a successful create, and after any requests that do
  not change or delete this document by its id or delete its collection, any background tasks
  and any warming of the cache, reading the id that
  the create returned gives the document of the request: its content and vector
  unchanged, its collection as the database spells it, its metadata as the database normalises it, and the times of the create.\<close>

theorem created_document_can_be_read:
  assumes "document_table drv key nf T" and "keeps_rows drv key T"
    and "driver_of env = drv" and "driver_of env' = drv" and "structs_of env' = structs_of env" and "list_all is_f32 (cd_Vector req)" and "i \<noteq> []"
    and "key (cd_CollectionId req) = Some c"
    and "dispatch env (CreateDocumentCall req) w = (Ok (CreateDocumentResponse (i, t, u)), w1)"
    and "(undisturbed_step (structs_of env) drv key i c)\<^sup>*\<^sup>* w1 w2"
  shows "fst (dispatch env' (ListDocumentCall i) w2) = Ok (DocumentResponse
     \<lparr>pd_Id = i, pd_CreatedAt = t, pd_UpdatedAt = u, pd_CollectionId = c,
      pd_Content = cd_Content req,
      pd_Vector = cd_Vector req,
      pd_Metadata = toProtoMetadata (structs_of env)
        (filter_entries (nf (orEmpty (toMetadata (structs_of env) (cd_Metadata req)))))\<rparr>)"
proof -
  let ?doc = "\<lparr>d_Id = i, d_CollectionId = c, d_Vector = cd_Vector req,
           d_Metadata = nf (orEmpty (toMetadata (structs_of env) (cd_Metadata req))), d_Content = cd_Content req,
           d_CreatedAt = t, d_UpdatedAt = u\<rparr>"
  have row: "key i = Some i" "T (server (store w1)) i = Some ?doc"
    using created_row [OF _ assms(6,9), of key nf T] assms(1,3,8) by auto
  have "driver_spares (touches key i c) (\<lambda>d. T d i = Some ?doc) drv"
    using assms(2) [unfolded keeps_rows_def, rule_format, of i ?doc] by simp
  from undisturbed_keeps [OF this assms(10)] row(2) have "T (server (store w2)) i = Some ?doc" by simp
  with read_row [of env' key nf T i i w2 ?doc] assms(1,4,5,7) row(1) show ?thesis
    by (simp add: convertToProtoDocument_def)
qed

lemma doc_driver_keeps_rows: "keeps_rows doc_driver Some table_of"
proof -
  have ins: "table_of d i = Some doc \<Longrightarrow> table_of (snd (doc_insert args d)) i = Some doc" for args d i doc
    by (cases "(args, d)" rule: doc_insert.cases) (auto simp: Let_def table_of_put)
  have ups: "table_of (snd (doc_upsert args d)) i = Some doc"
    if "table_of d i = Some doc" and "\<not> touches Some i c upsertDocument args" for args d i doc c
    using that by (cases "(args, d)" rule: doc_upsert.cases) (auto simp: touches_def table_of_put split: option.splits)
  have rd: "table_of (snd (doc_read args d)) i = table_of d i" for args d i
    by (cases "(args, d)" rule: doc_read.cases) (auto split: option.splits)
  have del: "table_of (snd (doc_delete args d)) i = Some doc"
    if "table_of d i = Some doc" and "\<not> touches Some i c deleteDocument args" for args d i doc c
    using that by (cases "(args, d)" rule: doc_delete.cases) (auto simp: touches_def table_of_remove)
  show ?thesis
    unfolding keeps_rows_def driver_spares_def preserves_def
    using ins ups rd del by (auto simp: doc_driver_def ret_def)
qed

definition doc_env :: "((string \<times> jval) list, doc_db, unit) environment" where
  "doc_env = \<lparr>structs_of = \<lparr>AsMap = (\<lambda>s. s), NewStruct = Some\<rparr>, driver_of = doc_driver,
     schedule_of = (\<lambda>n. [0 ..< n]), net_of = demo_net, now_of = 0\<rparr>"

definition doc_world :: "(doc_db pool, unit) world" where
  "doc_world = (started (1, \<lambda>_. None) ())\<lparr>cache := [''c'' \<mapsto> \<lparr>ci_dimension = 2, ci_distanceMetric = ''cosine'',
     ci_embeddingProvider = [], ci_embeddingModel = []\<rparr>]\<rparr>"

definition doc_request :: "(string \<times> jval) list CreateDocumentRequest" where
  "doc_request = \<lparr>cd_CollectionId = ''c'', cd_Content = ''text'', cd_Vector = [f_one, f_zero],
     cd_Metadata = Some [(''k'', [(''x'', JNull)])]\<rparr>"

text \<open>Between the create and the read another document is deleted, which is not there.\<close>

lemma created_document_can_be_read_witness:
  "\<exists>w1. dispatch doc_env (CreateDocumentCall doc_request) doc_world = (Ok (CreateDocumentResponse (''i'', 1, 1)), w1) \<and>
     fst (dispatch doc_env (ListDocumentCall ''i'') (snd (dispatch doc_env (DeleteDocumentCall ''j'') w1))) =
       Ok (DocumentResponse \<lparr>pd_Id = ''i'', pd_CreatedAt = 1, pd_UpdatedAt = 1, pd_CollectionId = ''c'',
         pd_Content = ''text'', pd_Vector = [f_one, f_zero], pd_Metadata = [(''k'', [(''x'', JNull)])]\<rparr>)"
proof -
  have fin: "list_all finite_fp [f_one, f_zero]" and f32: "list_all is_f32 [f_one, f_zero]"
    by (simp_all add: finite_fp_def f_one_def f_zero_def)
  have hit: "getCollectionInfo cr ''c'' doc_world = (Ok (2, ''cosine''), counted ''hit'' doc_world)"
    for cr :: "doc_db pool CollectionRepository"
    by (subst getCollectionInfo_hit) (auto simp: doc_world_def)
  have t: "table_of (1, \<lambda>_. None) [CHR ''i''] = None" by (simp add: table_of_def)
  have "\<exists>doc w1. CreateDocument (NewDocumentRepo doc_driver (schedule_of doc_env)) (NewCollectionRepo doc_driver) ''c'' ''text''
      [f_one, f_zero] (Some [(''k'', JObj [(''x'', JNull)])]) doc_world = (Ok doc, w1) \<and> d_Id doc = ''i'' \<and>
      d_CreatedAt doc = 1 \<and> d_UpdatedAt doc = 1"
    unfolding CreateDocument_Ok hit using fin t
    by (simp add: NewDocumentRepo_def DocumentRepo_Create_def Let_def andThen_Ok marshalMetadata_def wrap_error_Ok
        QueryRow_Ok returnedDocument_def orEmpty_def json_Marshal_def)
       (simp add: doc_driver_def first_row_def decodeMetadata_def doc_world_def started_def Let_def)
  then obtain w1 where w1: "dispatch doc_env (CreateDocumentCall doc_request) doc_world = (Ok (CreateDocumentResponse (''i'', 1, 1)), w1)"
    by (auto simp: doc_env_def doc_request_def responding_def Handler_CreateDocument_def toMetadata_def op_simps)
  have "(undisturbed_step (structs_of doc_env) doc_driver Some ''i'' (cd_CollectionId doc_request))\<^sup>*\<^sup>* w1
      (snd (dispatch doc_env (DeleteDocumentCall ''j'') w1))"
    by (intro r_into_rtranclp undisturbed_step.call) (simp_all add: doc_env_def)
  from created_document_can_be_read [OF doc_driver_table doc_driver_keeps_rows _ _ refl _ _ _ w1 this] f32
  have "fst (dispatch doc_env (ListDocumentCall ''i'') (snd (dispatch doc_env (DeleteDocumentCall ''j'') w1))) =
      Ok (DocumentResponse \<lparr>pd_Id = ''i'', pd_CreatedAt = 1, pd_UpdatedAt = 1, pd_CollectionId = cd_CollectionId doc_request,
        pd_Content = cd_Content doc_request, pd_Vector = cd_Vector doc_request,
        pd_Metadata = toProtoMetadata (structs_of doc_env)
          (filter_entries (orEmpty (toMetadata (structs_of doc_env) (cd_Metadata doc_request))))\<rparr>)"
    by (simp add: doc_env_def doc_request_def)
  with w1 show ?thesis
    by (simp add: doc_env_def doc_request_def toMetadata_def orEmpty_def filter_entries_def)
qed

end
