(* ===== verification/Document_Store.thy ===== *)
theory Document_Store
  imports Document_Table Server_Facts "HOL-Library.Multiset" "HOL-Library.AList"
begin

text \<open>
  The rest of the abstract specification of the document repository: on the table of
  \<open>Document_Table\<close> a page of a collection is listed, a batch is inserted in a transaction, and a
  batch is deleted. \<open>document_sets\<close> says what the database does for their statements, with the
  table \<open>saved\<close> to which a transaction goes back. The order in which rows come back from an insert
  or a deletion is open, and so is the order of documents of the same time in a page.
\<close>

section \<open>Rows of documents\<close>

definition row_shows :: "bool \<Rightarrow> Document \<Rightarrow> sqlval list \<Rightarrow> bool" where
  "row_shows includeVector doc row \<longleftrightarrow>
     (\<exists>vt j. stringToVector vt = Ok (d_Vector doc) \<and> json_Unmarshal j = Ok (d_Metadata doc) \<and>
        row = [VText (d_Id doc), VText (d_CollectionId doc)] @ (if includeVector then [VText vt] else []) @
              [VJson j, VText (d_Content doc), VTime (d_CreatedAt doc), VTime (d_UpdatedAt doc)])"

definition shown :: "bool \<Rightarrow> Document \<Rightarrow> Document" where
  "shown includeVector doc = (if includeVector then doc else doc\<lparr>d_Vector := []\<rparr>)"

lemma scan_shown: "row_shows iv doc row \<Longrightarrow> scanDocument iv row = Ok (shown iv doc)"
  by (cases doc) (auto simp: row_shows_def shown_def scanDocument_def decodeVector_def decodeMetadata_def)

lemma scan_all_shown: "list_all2 (row_shows iv) docs rows \<Longrightarrow> scan_rows (scanDocument iv) rows = Ok (map (shown iv) docs)"
  by (induction rule: list_all2_induct) (simp_all add: scan_shown)

lemma collect_shown:
  "rows_Err rs = None \<Longrightarrow> list_all2 (row_shows iv) docs (row_list rs) \<Longrightarrow>
     collect_rows (scanDocument iv) wrap rs = Ok (map (shown iv) docs)"
  by (simp add: collect_rows_def check_Err_def scan_all_shown)

lemma collect_failed: "rows_Err rs = Some e \<Longrightarrow> collect_rows scan wrap rs \<noteq> Ok x"
  by (auto simp: collect_rows_Ok)

section \<open>What the statements do\<close>

text \<open>A page: the documents of a collection, the newest first, from an offset on.\<close>

definition page_of :: "doc_table \<Rightarrow> string \<Rightarrow> int \<Rightarrow> int \<Rightarrow> Document list \<Rightarrow> bool" where
  "page_of tbl c limit offset docs \<longleftrightarrow>
     (\<exists>whole. distinct whole \<and> set whole = {doc \<in> ran tbl. d_CollectionId doc = c} \<and>
        sorted_wrt (\<lambda>a b. d_CreatedAt b \<le> d_CreatedAt a) whole \<and> docs = take (nat limit) (drop (nat offset) whole))"

text \<open>The documents that have one of the given ids and lie in the collection.\<close>

definition chosen :: "(string \<Rightarrow> string option) \<Rightarrow> string list \<Rightarrow> string \<Rightarrow> doc_table \<Rightarrow> string set" where
  "chosen key ids c tbl = {k. Some k \<in> key ` set ids \<and> (\<exists>doc. tbl k = Some doc \<and> d_CollectionId doc = c)}"

definition removes :: "(string \<Rightarrow> string option) \<Rightarrow> string list \<Rightarrow> string \<Rightarrow> doc_table \<Rightarrow> Document list \<Rightarrow> doc_table \<Rightarrow> bool" where
  "removes key ids c tbl docs tbl' \<longleftrightarrow>
     mset (map Some docs) = image_mset tbl (mset_set (chosen key ids c tbl)) \<and> tbl' = tbl |` (- chosen key ids c tbl)"

text \<open>New documents: each under a fresh id of its own.\<close>

definition added ::
  "(string \<Rightarrow> string option) \<Rightarrow> (metadata \<Rightarrow> metadata) \<Rightarrow> doc_table \<Rightarrow> Document \<Rightarrow> Document \<Rightarrow> bool" where
  "added key nf tbl item doc \<longleftrightarrow>
     key (d_CollectionId item) = Some (d_CollectionId doc) \<and> d_Vector doc = d_Vector item \<and>
     d_Metadata doc = nf (d_Metadata item) \<and> d_Content doc = d_Content item \<and>
     key (d_Id doc) = Some (d_Id doc) \<and> tbl (d_Id doc) = None"

definition adds ::
  "(string \<Rightarrow> string option) \<Rightarrow> (metadata \<Rightarrow> metadata) \<Rightarrow> Document list \<Rightarrow> doc_table \<Rightarrow> Document list \<Rightarrow> doc_table \<Rightarrow> bool" where
  "adds key nf items tbl docs tbl' \<longleftrightarrow>
     list_all2 (added key nf tbl) items docs \<and>
     distinct (map d_Id docs) \<and> tbl' = tbl ++ map_of (map (\<lambda>doc. (d_Id doc, doc)) docs)"

text \<open>The statement of a batch: four arguments for each document.\<close>

definition batchText :: "nat \<Rightarrow> string" where
  "batchText n = insertHead @ groupsText n 0 n @ returning"

fun batchArgs :: "(Document \<times> string \<times> json) list \<Rightarrow> sqlarg list" where
  "batchArgs [] = []"
| "batchArgs ((d, vt, j) # rest) =
     AStr (d_CollectionId d) # AStr vt # AJson j # AStr (d_Content d) # batchArgs rest"

definition texts_of :: "Document \<times> string \<times> json \<Rightarrow> bool" where
  "texts_of r = (case r of (d, vt, j) \<Rightarrow> stringToVector vt = Ok (d_Vector d) \<and> json_Unmarshal j = Ok (d_Metadata d))"

definition document_sets ::
  "'d driver \<Rightarrow> (string \<Rightarrow> string option) \<Rightarrow> (metadata \<Rightarrow> metadata) \<Rightarrow> ('d \<Rightarrow> doc_table) \<Rightarrow> ('d \<Rightarrow> doc_table) \<Rightarrow> bool" where
  "document_sets drv key nf T saved \<longleftrightarrow>
     (\<forall>cid limit offset iv d r d'. drv_Query drv (listDocuments iv) [AStr cid, AInt limit, AInt offset] d = (r, d') \<longrightarrow>
        T d' = T d \<and> (\<forall>rs. r = Ok rs \<longrightarrow> rows_Err rs = None \<longrightarrow>
          (\<exists>c docs. key cid = Some c \<and> page_of (T d) c limit offset docs \<and> list_all2 (row_shows iv) docs (row_list rs)))) \<and>
     (\<forall>ids cid d r d'. drv_Query drv batchDelete [AIds ids, AStr cid] d = (r, d') \<longrightarrow>
        (if \<exists>rs. r = Ok rs \<and> rows_Err rs = None
         then \<exists>c docs. key cid = Some c \<and> removes key ids c (T d) docs (T d') \<and>
                (\<forall>rs. r = Ok rs \<longrightarrow> list_all2 (row_shows False) docs (row_list rs))
         else T d' = T d)) \<and>
     (\<forall>d r d'. drv_Begin drv d = (r, d') \<longrightarrow> T d' = T d \<and> (r = Ok () \<longrightarrow> saved d' = T d)) \<and>
     (\<forall>d r d'. drv_Exec drv ''SET LOCAL synchronous_commit = OFF'' [] d = (r, d') \<longrightarrow>
        r \<noteq> Diverge \<and> T d' = T d \<and> saved d' = saved d) \<and>
     (\<forall>items d r d'. list_all texts_of items \<longrightarrow> drv_Query drv (batchText (length items)) (batchArgs items) d = (r, d') \<longrightarrow>
        r \<noteq> Diverge \<and> saved d' = saved d \<and> (\<forall>rs. r = Ok rs \<longrightarrow> rows_Err rs = None \<longrightarrow>
          (\<exists>docs listed. adds key nf (map fst items) (T d) docs (T d') \<and> mset listed = mset docs \<and>
             list_all2 (row_shows False) listed (row_list rs)))) \<and>
     (\<forall>d r d'. drv_Commit drv d = (r, d') \<longrightarrow> T d' = (if r = Ok () then T d else saved d)) \<and>
     (\<forall>d. T (drv_Rollback drv d) = saved d)"

lemmas set_laws =
  document_sets_def [THEN iffD1, THEN conjunct1, rule_format]
  document_sets_def [THEN iffD1, THEN conjunct2, THEN conjunct1, rule_format]
  document_sets_def [THEN iffD1, THEN conjunct2, THEN conjunct2, THEN conjunct1, rule_format]
  document_sets_def [THEN iffD1, THEN conjunct2, THEN conjunct2, THEN conjunct2, THEN conjunct1, rule_format]
  document_sets_def [THEN iffD1, THEN conjunct2, THEN conjunct2, THEN conjunct2, THEN conjunct2, THEN conjunct1, rule_format]
  document_sets_def [THEN iffD1, THEN conjunct2, THEN conjunct2, THEN conjunct2, THEN conjunct2, THEN conjunct2, THEN conjunct1,
    rule_format]
  document_sets_def [THEN iffD1, THEN conjunct2, THEN conjunct2, THEN conjunct2, THEN conjunct2, THEN conjunct2, THEN conjunct2,
    rule_format]

section \<open>The specification\<close>

datatype store_op =
    One table_op
  | Page string int int bool
  | RemoveAll string "string list"
  | InsertAll string "Document list"

datatype store_answer = Single table_answer | Documents "Document list" | Counted int "Document list"

definition one_row :: "store_op \<Rightarrow> bool" where
  "one_row oper = (case oper of One _ \<Rightarrow> True | _ \<Rightarrow> False)"

text \<open>A batch is inserted as a whole or not at all; the table may not know its collection, then it
  fails. The answer counts the documents and shows them in some order.\<close>

inductive store_step ::
  "(string \<Rightarrow> string option) \<Rightarrow> (metadata \<Rightarrow> metadata) \<Rightarrow> store_op \<Rightarrow> doc_table \<Rightarrow> store_answer result \<Rightarrow> doc_table \<Rightarrow> bool"
  for key nf where
  one: "table_step key nf oper tbl r tbl' \<Longrightarrow> store_step key nf (One oper) tbl (chain r (\<lambda>x. Ok (Single x))) tbl'"
| page: "key cid = Some c \<Longrightarrow> page_of tbl c limit offset docs \<Longrightarrow>
     store_step key nf (Page cid limit offset iv) tbl (Ok (Documents (map (shown iv) docs))) tbl"
| remove: "key cid = Some c \<Longrightarrow> removes key ids c tbl docs tbl' \<Longrightarrow>
     store_step key nf (RemoveAll cid ids) tbl (Ok (Counted (int (length docs)) (map (shown False) docs))) tbl'"
| insert: "adds key nf items tbl docs tbl' \<Longrightarrow> mset listed = mset docs \<Longrightarrow>
     store_step key nf (InsertAll cid items) tbl (Ok (Counted (int (length items)) (map (shown False) listed))) tbl'"
| failed: "\<not> one_row oper \<Longrightarrow> \<not> (\<exists>x. r = Ok x) \<Longrightarrow> store_step key nf oper tbl r tbl"

inductive_cases store_step_oneE: "store_step key nf (One oper) tbl r tbl'"
inductive_cases store_step_insertE: "store_step key nf (InsertAll cid items) tbl r tbl'"

inductive store_run ::
  "(string \<Rightarrow> string option) \<Rightarrow> (metadata \<Rightarrow> metadata) \<Rightarrow> store_op list \<Rightarrow> doc_table \<Rightarrow> store_answer result list \<Rightarrow> doc_table \<Rightarrow> bool"
  for key nf where
  store_none: "store_run key nf [] tbl [] tbl"
| store_more: "store_step key nf oper tbl r tbl1 \<Longrightarrow> store_run key nf rest tbl1 rs tbl2 \<Longrightarrow>
     store_run key nf (oper # rest) tbl (r # rs) tbl2"

section \<open>The repository\<close>

fun store_repo_op :: "'d driver \<Rightarrow> (nat \<Rightarrow> nat list) \<Rightarrow> store_op \<Rightarrow> ('d pool, gerror, store_answer) op" where
  "store_repo_op drv sched (One oper) = andThen (repo_op drv oper) (\<lambda>x. ret (Single x))"
| "store_repo_op drv sched (Page cid limit offset iv) =
     andThen (DocumentRepo_List drv cid limit offset iv) (\<lambda>docs. ret (Documents docs))"
| "store_repo_op drv sched (RemoveAll cid ids) =
     andThen (DocumentRepo_BatchDelete drv cid ids) (\<lambda>(n, docs). ret (Counted n docs))"
| "store_repo_op drv sched (InsertAll cid items) =
     andThen (DocumentRepo_BatchInsert drv sched cid items) (\<lambda>(n, docs). ret (Counted n docs))"

fun store_repo_ops :: "'d driver \<Rightarrow> (nat \<Rightarrow> nat list) \<Rightarrow> store_op list \<Rightarrow> 'd pool \<Rightarrow> store_answer result list \<times> 'd pool" where
  "store_repo_ops drv sched [] p = ([], p)"
| "store_repo_ops drv sched (oper # rest) p =
     (case store_repo_op drv sched oper p of (r, p') \<Rightarrow>
        (case store_repo_ops drv sched rest p' of (rs, p'') \<Rightarrow> (r # rs, p'')))"

text \<open>Vectors are float32, and the goroutines of a batch run in some order, each once.\<close>

definition float32_store_op :: "store_op \<Rightarrow> bool" where
  "float32_store_op oper =
     (case oper of One oper' \<Rightarrow> float32_op oper' | InsertAll _ items \<Rightarrow> list_all float32_document items | _ \<Rightarrow> True)"

definition each_once :: "(nat \<Rightarrow> nat list) \<Rightarrow> bool" where
  "each_once sched \<longleftrightarrow> (\<forall>n\<ge>32. distinct (sched n) \<and> set (sched n) = {..<n})"

section \<open>Refinement\<close>

lemma one_refines:
  assumes T: "document_table drv key nf T" and f32: "float32_op oper"
    and run: "store_repo_op drv sched (One oper) p = (r, p')"
  shows "store_step key nf (One oper) (T (server p)) r (T (server p'))"
proof -
  obtain q p1 where q: "repo_op drv oper p = (q, p1)" by fastforce
  then have "r = chain q (\<lambda>x. Ok (Single x))" "p' = p1"
    using run by (cases q; simp add: andThen_run ret_run)+
  with store_step.one [OF repo_op_refines [OF T f32 q]] show ?thesis by simp
qed

lemma page_refines:
  assumes S: "document_sets drv key nf T saved" and run: "store_repo_op drv sched (Page cid limit offset iv) p = (r, p')"
  shows "store_step key nf (Page cid limit offset iv) (T (server p)) r (T (server p'))"
proof -
  obtain q d where q: "drv_Query drv (listDocuments iv) [AStr cid, AInt limit, AInt offset] (server p) = (q, d)" by fastforce
  note law = set_laws(1) [OF S q]
  have p': "server p' = d"
    using run q by (cases q) (auto simp: DocumentRepo_List_def andThen_def handle_def on_server_def lift_def ret_def fail_def
        split: prod.splits outcome.splits)
  show ?thesis
  proof (cases "\<exists>rs. q = Ok rs \<and> rows_Err rs = None")
    case True
    then obtain rs c docs where rs: "q = Ok rs" "rows_Err rs = None" "key cid = Some c" "page_of (T (server p)) c limit offset docs"
      "list_all2 (row_shows iv) docs (row_list rs)" using law by blast
    then have "r = Ok (Documents (map (shown iv) docs))"
      using run q collect_shown [OF rs(2,5)] by (simp add: DocumentRepo_List_def op_simps)
    with store_step.page [where key = key and nf = nf and tbl = "T (server p)", OF rs(3,4)] law p' show ?thesis by simp
  next
    case False
    then have "\<not> (\<exists>x. r = Ok x)"
      using run q by (cases q) (auto simp: DocumentRepo_List_def op_simps andThen_Ok collect_rows_Ok)
    with store_step.failed [of "Page cid limit offset iv" r] law p' show ?thesis by (simp add: one_row_def)
  qed
qed

lemma remove_refines:
  assumes S: "document_sets drv key nf T saved" and run: "store_repo_op drv sched (RemoveAll cid ids) p = (r, p')"
  shows "store_step key nf (RemoveAll cid ids) (T (server p)) r (T (server p'))"
proof -
  obtain q d where q: "drv_Query drv batchDelete [AIds ids, AStr cid] (server p) = (q, d)" by fastforce
  note law = set_laws(2) [OF S q]
  have p': "server p' = d"
    using run q by (cases q) (auto simp: DocumentRepo_BatchDelete_def andThen_def handle_def on_server_def lift_def ret_def fail_def
        split: prod.splits outcome.splits)
  show ?thesis
  proof (cases "\<exists>rs. q = Ok rs \<and> rows_Err rs = None")
    case True
    with law obtain rs c docs where rs: "q = Ok rs" "rows_Err rs = None" "key cid = Some c"
      "removes key ids c (T (server p)) docs (T d)" "list_all2 (row_shows False) docs (row_list rs)" by auto
    then have "r = Ok (Counted (int (length docs)) (map (shown False) docs))"
      using run q collect_shown [OF rs(2,5)] by (simp add: DocumentRepo_BatchDelete_def op_simps)
    with store_step.remove [where key = key and nf = nf and tbl = "T (server p)", OF rs(3,4)] p' show ?thesis by simp
  next
    case False
    then have "\<not> (\<exists>x. r = Ok x)"
      using run q by (cases q) (auto simp: DocumentRepo_BatchDelete_def op_simps andThen_Ok collect_rows_Ok)
    with store_step.failed [of "RemoveAll cid ids" r] law False p' show ?thesis by (auto simp: one_row_def)
  qed
qed

text \<open>The statement that the repository builds for a batch.\<close>

lemma batchQuery_items:
  assumes "length prepped = length docs"
  shows "batchQuery docs prepped = (batchText (length docs), batchArgs (zip docs prepped))"
proof -
  have "concat (map docArgs rs) = batchArgs rs" for rs
    by (induction rs rule: batchArgs.induct) (simp_all add: docArgs_def)
  then show ?thesis using batchQuery_closed [OF assms] by (simp add: batchText_def)
qed

lemma prepared_texts:
  assumes "each_once sched" and "list_all float32_document docs" and "checkMarshal 0 (prepareBatch sched docs) = Ok prepped"
  shows "length prepped = length docs \<and> list_all texts_of (zip docs prepped)"
proof -
  have "prepareBatch sched docs = map serialized_of docs"
    by (rule prepareBatch_any_order) (use assms(1) in \<open>simp add: each_once_def\<close>)
  with checkMarshal_Ok [of 0 docs prepped] assms(3) have len: "length prepped = length docs"
    and all: "list_all2 (\<lambda>d (v, j). v = vectorToString (d_Vector d) \<and> json_Marshal (d_Metadata d) = Ok j) docs prepped"
    by simp_all
  have "texts_of (docs ! i, prepped ! i)" if "i < length docs" for i
    using list_all2_nthD [OF all that] assms(2) that
    by (auto simp: texts_of_def float32_document_def list_all_length split: prod.splits intro: vector_roundtrip json_roundtrip)
  with len show ?thesis by (simp add: list_all_length)
qed

lemma body_inserts:
  assumes S: "document_sets drv key nf T saved" and sched: "each_once sched" and f32: "list_all float32_document items"
    and run: "batchBody drv sched items p = (r, p')"
  shows "r \<noteq> Diverge \<and> saved (server p') = saved (server p) \<and>
     (\<forall>xs. r = Ok xs \<longrightarrow> (\<exists>docs listed. adds key nf items (T (server p)) docs (T (server p')) \<and> mset listed = mset docs \<and>
        xs = map (shown False) listed))"
proof -
  obtain q d where q: "drv_Exec drv ''SET LOCAL synchronous_commit = OFF'' [] (server p) = (q, d)" by fastforce
  note set = set_laws(4) [OF S q]
  have prep: "prepareBatch sched items = map serialized_of items"
    by (rule prepareBatch_any_order) (use sched in \<open>simp add: each_once_def\<close>)
  have marshal: "returns (checkMarshal 0 (prepareBatch sched items))"
    unfolding prep by (rule returns_checkMarshal) (simp add: list_all_iff serialized_of_def returns_json)
  show ?thesis
  proof (cases "\<exists>u. q = Ok u")
    case False
    then show ?thesis using run q set by (cases q) (auto simp: batchBody_def op_simps)
  next
    case True
    then obtain u where u: "q = Ok u" by blast
    show ?thesis
    proof (cases "checkMarshal 0 (prepareBatch sched items)")
      case (Ok prepped)
      note texts = prepared_texts [OF sched f32 Ok]
      obtain q2 d2 where q2: "drv_Query drv (batchText (length items)) (batchArgs (zip items prepped)) d = (q2, d2)" by fastforce
      with set_laws(5) [OF S, of "zip items prepped" d q2 d2] texts
      have law: "q2 \<noteq> Diverge" "saved d2 = saved d"
        "\<And>rs. q2 = Ok rs \<Longrightarrow> rows_Err rs = None \<Longrightarrow> \<exists>docs listed. adds key nf items (T d) docs (T d2) \<and> mset listed = mset docs \<and>
           list_all2 (row_shows False) listed (row_list rs)" by auto
      have r: "r = chain q2 (collect_rows (scanDocument False) (\<lambda>e. e))" "server p' = d2"
        using run q u Ok q2 batchQuery_items [of prepped items] texts
        by (cases q2; auto simp: batchBody_def op_simps)+
      show ?thesis
      proof (cases "\<exists>rs. q2 = Ok rs \<and> rows_Err rs = None")
        case True
        then obtain rs docs listed where rs: "q2 = Ok rs" "rows_Err rs = None" "adds key nf items (T d) docs (T d2)"
          "mset listed = mset docs" "list_all2 (row_shows False) listed (row_list rs)" using law(3) by blast
        with collect_shown [OF rs(2,5)] r law(2) set show ?thesis by auto
      next
        case False
        have c: "collect_rows (scanDocument False) (\<lambda>e. e) rs \<noteq> Diverge" for rs
          by (rule notI, drule arg_cong [where f = returns]) (simp add: returns_collect_rows returns_scanDocument)
        have "collect_rows (scanDocument False) (\<lambda>e. e) rs \<noteq> Ok xs" if "q2 = Ok rs" for rs xs
          using False that by (simp add: collect_rows_Ok)
        with c law(1) have "r \<noteq> Diverge \<and> (\<forall>xs. r \<noteq> Ok xs)"
          unfolding r(1) by (cases q2) simp_all
        with r(2) law(2) set show ?thesis by simp
      qed
    qed (use run q u set marshal in \<open>auto simp: batchBody_def op_simps\<close>)
  qed
qed

lemma insert_refines:
  assumes S: "document_sets drv key nf T saved" and sched: "each_once sched" and f32: "list_all float32_document items"
    and run: "store_repo_op drv sched (InsertAll cid items) p = (r, p')"
  shows "store_step key nf (InsertAll cid items) (T (server p)) r (T (server p'))"
proof -
  obtain b d where b: "drv_Begin drv (server p) = (b, d)" by fastforce
  note begun = set_laws(3) [OF S b]
  have fails: ?thesis if "\<not> (\<exists>x. r = Ok x)" and "T (server p') = T (server p)"
    using that by (simp add: store_step.failed one_row_def)
  show ?thesis
  proof (cases "b = Ok ()")
    case False
    then show ?thesis using run b begun
      by (intro fails; cases b) (auto simp: DocumentRepo_BatchInsert_def op_simps)
  next
    case True
    let ?p = "p\<lparr>server := d\<rparr>"
    obtain o' p1 where body: "batchBody drv sched items ?p = (o', p1)" by fastforce
    note inside = body_inserts [OF S sched f32 body]
    obtain c d2 where c: "drv_Commit drv (server p1) = (c, d2)" by fastforce
    note commit = set_laws(6) [OF S c] and rollback = set_laws(7) [OF S, of "server p1"]
    show ?thesis
    proof (cases "\<exists>xs. o' = Ok xs \<and> c = Ok ()")
      case True
      then obtain docs listed where ok: "adds key nf items (T d) docs (T (server p1))" "mset listed = mset docs"
        "o' = Ok (map (shown False) listed)" "c = Ok ()" using inside by auto
      then have "length listed = length items"
        using mset_eq_length [OF ok(2)] by (auto simp: adds_def dest!: list_all2_lengthD)
      then have "r = Ok (Counted (int (length items)) (map (shown False) listed))" "server p' = d2"
        using run b \<open>b = Ok ()\<close> body c ok(3,4)
        by (auto simp: DocumentRepo_BatchInsert_def op_simps)
      with store_step.insert [where key = key and nf = nf and tbl = "T d" and cid = cid, OF ok(1,2)] commit ok(4) begun
      show ?thesis by simp
    next
      case False
      then show ?thesis using run b \<open>b = Ok ()\<close> body c inside commit rollback begun
        by (intro fails; cases o'; cases c) (auto simp: DocumentRepo_BatchInsert_def op_simps)
    qed
  qed
qed

lemma store_op_refines:
  assumes "document_table drv key nf T" and "document_sets drv key nf T saved" and "each_once sched"
    and "float32_store_op oper" and "store_repo_op drv sched oper p = (r, p')"
  shows "store_step key nf oper (T (server p)) r (T (server p'))"
  using assms
  by (cases oper)
     (auto simp only: float32_store_op_def store_op.case intro: one_refines page_refines remove_refines insert_refines)


section \<open>A database of documents\<close>

text \<open>A counter for ids, the rows, the newest first, and the rows to which a transaction goes back. A
  row is shadowed by a newer one of the same id.\<close>

type_synonym store_db = "nat \<times> Document list \<times> Document list"

definition entries :: "Document list \<Rightarrow> (string \<times> Document) list" where
  "entries docs = map (\<lambda>d. (d_Id d, d)) (filter float32_document docs)"

definition table_now :: "store_db \<Rightarrow> doc_table" where
  "table_now s = map_of (entries (fst (snd s)))"

definition table_saved :: "store_db \<Rightarrow> doc_table" where
  "table_saved s = map_of (entries (snd (snd s)))"

definition live :: "store_db \<Rightarrow> Document list" where
  "live s = map snd (AList.clearjunk (entries (fst (snd s))))"

definition set_docs :: "Document list \<Rightarrow> store_db \<Rightarrow> store_db" where
  "set_docs docs s = (Suc (fst s), docs, snd (snd s))"

definition doc_json :: "metadata \<Rightarrow> json" where
  "doc_json m = Json (case m of None \<Rightarrow> JNull | Some kvs \<Rightarrow> JObj kvs)"

definition doc_row :: "bool \<Rightarrow> Document \<Rightarrow> sqlval list" where
  "doc_row iv d =
     [VText (d_Id d), VText (d_CollectionId d)] @ (if iv then [VText (vectorToString (d_Vector d))] else []) @
     [VJson (doc_json (d_Metadata d)), VText (d_Content d), VTime (d_CreatedAt d), VTime (d_UpdatedAt d)]"

definition no_match :: gerror where
  "no_match = ErrNew ''pq: syntax error''"

definition parsed :: "string \<Rightarrow> json \<Rightarrow> (fp list \<times> metadata) result" where
  "parsed vt j = chain (stringToVector vt) (\<lambda>v. chain (json_Unmarshal j) (\<lambda>m. Ok (v, m)))"

definition add_row :: "string \<Rightarrow> string \<Rightarrow> json \<Rightarrow> string \<Rightarrow> (store_db, gerror, Document) op" where
  "add_row cid vt j content s =
     (let i = replicate (fst s) (CHR ''i'') in
      case parsed vt j of
        Ok (v, m) \<Rightarrow>
          if table_now s i = None
          then (let d = \<lparr>d_Id = i, d_CollectionId = cid, d_Vector = v, d_Metadata = m, d_Content = content,
                         d_CreatedAt = int (fst s), d_UpdatedAt = int (fst s)\<rparr>
                in (Ok d, set_docs (d # fst (snd s)) s))
          else (Err no_match, s)
      | _ \<Rightarrow> (Err no_match, s))"

fun db_insert :: "sqlarg list \<Rightarrow> (store_db, gerror, rows) op" where
  "db_insert [AStr cid, AStr vt, AJson j, AStr content] =
     andThen (add_row cid vt j content) (\<lambda>d. ret \<lparr>row_list = [doc_row False d], rows_Err = None\<rparr>)"
| "db_insert _ = fail no_match"

fun db_batch :: "sqlarg list \<Rightarrow> (store_db, gerror, Document list) op" where
  "db_batch [] = ret []"
| "db_batch (AStr cid # AStr vt # AJson j # AStr content # rest) =
     andThen (add_row cid vt j content) (\<lambda>d. andThen (db_batch rest) (\<lambda>ds. ret (d # ds)))"
| "db_batch _ = fail no_match"

fun db_upsert :: "sqlarg list \<Rightarrow> (store_db, gerror, rows) op" where
  "db_upsert [AStr i, AStr cid, AStr vt, AJson j, AStr content] s =
     (case parsed vt j of
        Ok (v, m) \<Rightarrow>
          (let d = upserted (table_now s) i cid v m content (int (fst s)) (int (fst s))
           in (Ok \<lparr>row_list = [doc_row False d @ [VBool (table_now s i = None)]], rows_Err = None\<rparr>,
               set_docs (d # fst (snd s)) s))
      | _ \<Rightarrow> (Err no_match, s))"
| "db_upsert _ s = (Err no_match, s)"

fun db_read :: "sqlarg list \<Rightarrow> (store_db, gerror, rows) op" where
  "db_read [AStr i] s =
     (Ok \<lparr>row_list = (case table_now s i of Some d \<Rightarrow> [doc_row True d] | None \<Rightarrow> []), rows_Err = None\<rparr>, s)"
| "db_read _ s = (Err no_match, s)"

fun db_delete :: "sqlarg list \<Rightarrow> (store_db, gerror, int result) op" where
  "db_delete [AStr i] s =
     (Ok (Ok (if table_now s i = None then 0 else 1)), set_docs (filter (\<lambda>d. d_Id d \<noteq> i) (fst (snd s))) s)"
| "db_delete _ s = (Ok (Err no_match), s)"

fun db_list :: "bool \<Rightarrow> sqlarg list \<Rightarrow> (store_db, gerror, rows) op" where
  "db_list iv [AStr cid, AInt limit, AInt offset] s =
     (Ok \<lparr>row_list = map (doc_row iv) (take (nat limit) (drop (nat offset)
            (sort_key (\<lambda>d. - d_CreatedAt d) (filter (\<lambda>d. d_CollectionId d = cid) (live s))))), rows_Err = None\<rparr>, s)"
| "db_list iv _ s = (Err no_match, s)"

fun db_remove :: "sqlarg list \<Rightarrow> (store_db, gerror, rows) op" where
  "db_remove [AIds ids, AStr cid] s =
     (let gone = (\<lambda>d. d_Id d \<in> set ids \<and> d_CollectionId d = cid)
      in (Ok \<lparr>row_list = map (doc_row False) (filter gone (live s)), rows_Err = None\<rparr>,
          set_docs (filter (Not \<circ> gone) (live s)) s))"
| "db_remove _ s = (Err no_match, s)"

definition store_driver :: "store_db driver" where
  "store_driver =
     \<lparr>drv_Query = (\<lambda>q args.
        if hd q = CHR ''I'' then andThen (db_batch args) (\<lambda>ds. ret \<lparr>row_list = map (doc_row False) ds, rows_Err = None\<rparr>)
        else if q = insertDocument then db_insert args else if q = upsertDocument then db_upsert args
        else if q = documentById then db_read args else if q = batchDelete then db_remove args
        else if q = listDocuments True then db_list True args else if q = listDocuments False then db_list False args
        else ret \<lparr>row_list = [], rows_Err = None\<rparr>),
      drv_Exec = (\<lambda>q. if q = deleteDocument then db_delete else (\<lambda>_. ret (Ok 0))),
      drv_Begin = (\<lambda>s. (Ok (), (fst s, fst (snd s), fst (snd s)))), drv_Commit = ret (),
      drv_Rollback = (\<lambda>s. (fst s, snd (snd s), snd (snd s))), drv_Ping = ret ()\<rparr>"

subsection \<open>Its table\<close>

lemma table_now_entry: "table_now s i = Some d \<Longrightarrow> d_Id d = i \<and> float32_document d"
  by (auto simp: table_now_def entries_def dest!: map_of_SomeD)

lemma table_now_put:
  "float32_document d \<Longrightarrow> table_now (set_docs (d # fst (snd s)) s) = (table_now s)(d_Id d \<mapsto> d)"
  by (simp add: table_now_def set_docs_def entries_def)

lemma table_saved_docs [simp]: "table_saved (set_docs docs s) = table_saved s"
  by (simp add: table_saved_def set_docs_def)

lemma table_now_delete:
  "table_now (set_docs (filter (\<lambda>d. d_Id d \<noteq> i) (fst (snd s))) s) = (table_now s)(i := None)"
proof -
  have "map_of (entries (filter (\<lambda>d. d_Id d \<noteq> i) docs)) = (map_of (entries docs))(i := None)" for docs
    by (induction docs) (auto simp: entries_def)
  then show ?thesis by (simp add: table_now_def set_docs_def)
qed

lemma live_entries: "AList.clearjunk (entries (fst (snd s))) = map (\<lambda>d. (d_Id d, d)) (live s)"
proof -
  have "\<forall>e\<in>set (AList.clearjunk (entries docs)). fst e = d_Id (snd e)" for docs
    by (auto simp: entries_def simp flip: graph_map_of dest!: in_graphD map_of_SomeD)
  from this [of "fst (snd s)"] show ?thesis by (auto simp: live_def comp_def intro!: map_idI [symmetric])
qed

lemma live_facts:
  shows "distinct (map d_Id (live s))" and "set (live s) = ran (table_now s)" and "list_all float32_document (live s)"
    and "map_of (map (\<lambda>d. (d_Id d, d)) (live s)) = table_now s"
proof -
  have "distinct (map fst (AList.clearjunk (entries (fst (snd s)))))" by (rule distinct_clearjunk)
  then show "distinct (map d_Id (live s))" unfolding live_entries by (simp add: comp_def)
  show m: "map_of (map (\<lambda>d. (d_Id d, d)) (live s)) = table_now s"
    using map_of_clearjunk [of "entries (fst (snd s))"] unfolding live_entries by (simp add: table_now_def)
  show "set (live s) = ran (table_now s)"
    by (simp add: live_def table_now_def ran_map_of)
  then show "list_all float32_document (live s)"
    using table_now_entry by (fastforce simp: list_all_iff ran_def)
qed

lemma doc_row_shows: "float32_document d \<Longrightarrow> row_shows iv d (doc_row iv d)"
proof -
  have j: "json_Unmarshal (doc_json m) = Ok m" for m by (cases m) (simp_all add: doc_json_def)
  show "float32_document d \<Longrightarrow> ?thesis"
    unfolding row_shows_def doc_row_def
    by (intro exI [of _ "vectorToString (d_Vector d)"] exI [of _ "doc_json (d_Metadata d)"])
       (simp add: j float32_document_def vector_roundtrip)
qed

lemma doc_rows_show: "list_all float32_document ds \<Longrightarrow> list_all2 (row_shows iv) ds (map (doc_row iv) ds)"
  by (simp add: list_all2_map2 list_all2_same list_all_iff doc_row_shows)

lemma parsed_Ok: "parsed vt j = Ok (v, m) \<longleftrightarrow> stringToVector vt = Ok v \<and> json_Unmarshal j = Ok m"
  by (auto simp: parsed_def)

lemma table_now_remove:
  assumes "gone = (\<lambda>d. d_Id d \<in> set ids \<and> d_CollectionId d = cid)"
  shows "removes Some ids cid (table_now s) (filter gone (live s)) (table_now (set_docs (filter (Not \<circ> gone) (live s)) s))"
proof -
  let ?tbl = "table_now s" and ?out = "filter gone (live s)"
  have look: "?tbl (d_Id d) = Some d" if "d \<in> set (live s)" for d
    using that live_facts(2) [of s] table_now_entry [of s] by (auto simp: ran_def)
  have chosen: "chosen Some ids cid ?tbl = set (map d_Id ?out)"
    using look table_now_entry [of s] live_facts(2) [of s]
    by (auto simp: chosen_def assms ran_def image_iff)
  have "distinct (map d_Id ?out)" using live_facts(1) [of s] by (simp add: distinct_map_filter)
  then have "image_mset ?tbl (mset_set (chosen Some ids cid ?tbl)) = mset (map ?tbl (map d_Id ?out))"
    unfolding chosen by (simp only: mset_set_set mset_map)
  also have "map ?tbl (map d_Id ?out) = map Some ?out" using look by simp
  finally have m: "mset (map Some ?out) = image_mset ?tbl (mset_set (chosen Some ids cid ?tbl))" by simp
  have "map_of (map (\<lambda>d. (d_Id d, d)) (filter (Not \<circ> gone) ds)) = map_of (map (\<lambda>d. (d_Id d, d)) ds) |` (- set (map d_Id (filter gone ds)))"
    if "distinct (map d_Id ds)" for ds
    using that by (induction ds) (auto simp: restrict_map_def fun_eq_iff map_of_eq_None_iff image_iff)
  from this [OF live_facts(1)] have "map_of (map (\<lambda>d. (d_Id d, d)) (filter (Not \<circ> gone) (live s))) = ?tbl |` (- chosen Some ids cid ?tbl)"
    unfolding chosen live_facts(4) .
  moreover have "entries (filter (Not \<circ> gone) (live s)) = map (\<lambda>d. (d_Id d, d)) (filter (Not \<circ> gone) (live s))"
    unfolding entries_def using live_facts(3) [of s] by (simp add: list_all_iff comp_def cong: filter_cong)
  ultimately show ?thesis using m by (simp add: removes_def table_now_def set_docs_def)
qed

subsection \<open>Its laws\<close>

lemma add_row_adds:
  assumes "add_row (d_CollectionId item) vt j (d_Content item) s = (r, s')" and "texts_of (item, vt, j)"
  shows "table_saved s' = table_saved s \<and> r \<noteq> Diverge \<and>
     (\<forall>d. r = Ok d \<longrightarrow> float32_document d \<and> d_CollectionId d = d_CollectionId item \<and> d_Vector d = d_Vector item \<and>
        d_Metadata d = d_Metadata item \<and> d_Content d = d_Content item \<and>
        table_now s (d_Id d) = None \<and> table_now s' = (table_now s)(d_Id d \<mapsto> d)) \<and>
     (\<not> (\<exists>d. r = Ok d) \<longrightarrow> s' = s)"
proof -
  have p: "parsed vt j = Ok (d_Vector item, d_Metadata item)" and f32: "list_all is_f32 (d_Vector item)"
    using assms(2) stringToVector_is_f32 by (auto simp: texts_of_def parsed_Ok)
  show ?thesis
  proof (cases "table_now s (replicate (fst s) (CHR ''i''))")
    case None
    then show ?thesis using assms(1) p f32
      by (auto simp: add_row_def Let_def table_now_put float32_document_def)
  qed (use assms(1) p in \<open>auto simp: add_row_def Let_def\<close>)
qed

lemma adds_one_more:
  assumes d: "added key nf tbl item d" and ds: "adds key nf items (tbl(d_Id d \<mapsto> d)) ds tbl'"
  shows "adds key nf (item # items) tbl (d # ds) tbl'"
proof -
  let ?new = "map_of (map (\<lambda>d. (d_Id d, d)) ds)"
  have all: "list_all2 (added key nf (tbl(d_Id d \<mapsto> d))) items ds" using ds by (simp add: adds_def)
  then have "list_all2 (added key nf tbl) items ds"
    by (rule list_all2_mono) (auto simp: added_def split: if_splits)
  moreover have apart: "d_Id d \<notin> d_Id ` set ds"
  proof
    assume "d_Id d \<in> d_Id ` set ds"
    then obtain i where "i < length ds" "d_Id (ds ! i) = d_Id d" by (auto simp: in_set_conv_nth)
    with list_all2_nthD2 [OF all this(1)] show False by (simp add: added_def)
  qed
  moreover from apart have "tbl(d_Id d \<mapsto> d) ++ ?new = (tbl ++ ?new)(d_Id d \<mapsto> d)"
    by (intro map_add_upd_left) (simp add: dom_map_of_conv_image_fst image_image)
  ultimately show ?thesis using d ds by (simp add: adds_def)
qed

lemma db_batch_adds:
  assumes "list_all texts_of items" and "db_batch (batchArgs items) s = (r, s')"
  shows "table_saved s' = table_saved s \<and> r \<noteq> Diverge \<and>
     (\<forall>ds. r = Ok ds \<longrightarrow> list_all float32_document ds \<and>
        adds Some (\<lambda>m. m) (map fst items) (table_now s) ds (table_now s'))"
  using assms
proof (induction items arbitrary: s r s' rule: batchArgs.induct)
  case 1
  then show ?case by (auto simp: ret_def adds_def)
next
  case (2 item vt j rest)
  obtain q s1 where q: "add_row (d_CollectionId item) vt j (d_Content item) s = (q, s1)"
    by (rule prod.exhaust)
  obtain q2 s2 where q2: "db_batch (batchArgs rest) s1 = (q2, s2)" by (rule prod.exhaust)
  have texts: "texts_of (item, vt, j)" "list_all texts_of rest" using "2.prems"(1) by simp_all
  note first = add_row_adds [OF q texts(1)] and others = "2.IH" [OF texts(2) q2]
  show ?case
  proof (cases "\<exists>d ds. q = Ok d \<and> q2 = Ok ds")
    case True
    then obtain d ds where ok: "q = Ok d" "q2 = Ok ds" by blast
    then have r: "r = Ok (d # ds)" "s' = s2" using "2.prems"(2) q q2 by (simp_all add: op_simps)
    have now: "table_now s1 = (table_now s)(d_Id d \<mapsto> d)" "table_now s (d_Id d) = None" "float32_document d"
      using first ok(1) by simp_all
    have rest: "list_all float32_document ds" "adds Some (\<lambda>m. m) (map fst rest) (table_now s1) ds (table_now s2)"
      using others ok(2) by simp_all
    have "adds Some (\<lambda>m. m) (item # map fst rest) (table_now s) (d # ds) (table_now s2)"
      by (rule adds_one_more [OF _ rest(2) [unfolded now(1)]]) (use first ok(1) now(2) in \<open>simp add: added_def\<close>)
    then show ?thesis using r rest(1) now(3) first others by simp
  next
    case False
    have nd: "q \<noteq> Diverge" "q2 \<noteq> Diverge" using first others by blast+
    have "(r, s') = andThen (add_row (d_CollectionId item) vt j (d_Content item))
        (\<lambda>d. andThen (db_batch (batchArgs rest)) (\<lambda>ds. ret (d # ds))) s" using "2.prems"(2) by simp
    then have "r \<noteq> Diverge \<and> (\<forall>ds. r \<noteq> Ok ds) \<and> (s' = s1 \<or> s' = s2)"
      using False nd q q2 by (cases q; cases q2) (simp_all add: op_simps)
    with first others show ?thesis by metis
  qed
qed

lemma store_texts:
  "hd insertDocument = CHR 0x0A" "hd upsertDocument = CHR 0x0A" "hd documentById = CHR 0x0A" "hd batchDelete = CHR 0x0A"
  "hd (listDocuments iv) = CHR 0x0A" "hd (batchText n) = CHR ''I''"
  "listDocuments iv \<noteq> insertDocument" "listDocuments iv \<noteq> upsertDocument" "listDocuments iv \<noteq> documentById"
  "listDocuments iv \<noteq> batchDelete" "listDocuments True \<noteq> listDocuments False"
  "batchDelete \<noteq> insertDocument" "batchDelete \<noteq> upsertDocument" "batchDelete \<noteq> documentById"
proof -
  have "list_all (\<lambda>iv. hd (listDocuments iv) = CHR 0x0A \<and>
      list_all (\<lambda>q. listDocuments iv \<noteq> q) [insertDocument, upsertDocument, documentById, batchDelete]) [True, False]"
    by code_simp
  then show "hd (batchText n) = CHR ''I''" "hd (listDocuments iv) = CHR 0x0A" "listDocuments iv \<noteq> insertDocument" "listDocuments iv \<noteq> upsertDocument"
    "listDocuments iv \<noteq> documentById" "listDocuments iv \<noteq> batchDelete"
    by (cases iv; simp add: batchText_def insertHead_def)+
qed code_simp+

lemma store_driver_calls:
  "drv_Query store_driver insertDocument = db_insert" "drv_Query store_driver upsertDocument = db_upsert"
  "drv_Query store_driver documentById = db_read" "drv_Query store_driver batchDelete = db_remove"
  "drv_Query store_driver (listDocuments iv) = db_list iv"
  "drv_Query store_driver (batchText n) args =
     andThen (db_batch args) (\<lambda>ds. ret \<lparr>row_list = map (doc_row False) ds, rows_Err = None\<rparr>)"
  "drv_Exec store_driver deleteDocument = db_delete"
  using statement_texts store_texts by (cases iv; simp add: store_driver_def fun_eq_iff)+

lemma store_driver_table: "document_table store_driver Some (\<lambda>m. m) table_now"
proof -
  have j: "json_Unmarshal (doc_json m) = Ok m" for m by (cases m) (simp_all add: doc_json_def)
  have ins: "answers_or_fails (insert_answer Some m cid v content (table_now s)) (table_now s) r (table_now s')"
    if "stringToVector vt = Ok v" "json_Unmarshal j = Ok m" "db_insert [AStr cid, AStr vt, AJson j, AStr content] s = (r, s')"
    for cid vt v j m content s r s'
  proof -
    let ?item = "zero_Document\<lparr>d_CollectionId := cid, d_Vector := v, d_Metadata := m, d_Content := content\<rparr>"
    obtain q s1 where q: "add_row cid vt j content s = (q, s1)" by (rule prod.exhaust)
    have "texts_of (?item, vt, j)" using that(1,2) by (simp add: texts_of_def)
    with add_row_adds [of ?item vt j s q s1] q have added:
      "\<forall>d. q = Ok d \<longrightarrow> d_CollectionId d = cid \<and> d_Vector d = v \<and> d_Metadata d = m \<and> d_Content d = content \<and>
         table_now s (d_Id d) = None \<and> table_now s1 = (table_now s)(d_Id d \<mapsto> d)"
      "\<not> (\<exists>d. q = Ok d) \<longrightarrow> s1 = s" by simp_all
    show ?thesis
    proof (cases q)
      case (Ok d)
      have eta: "\<lparr>d_Id = d_Id d, d_CollectionId = d_CollectionId d, d_Vector = d_Vector d, d_Metadata = d_Metadata d,
          d_Content = d_Content d, d_CreatedAt = d_CreatedAt d, d_UpdatedAt = d_UpdatedAt d\<rparr> = d" by (cases d) simp
      from added(1) Ok that(3) q j [of m] show ?thesis
        by (auto simp: answers_or_fails_def insert_answer_def op_simps doc_row_def eta)
    qed (use added(2) that(3) q in \<open>auto simp: op_simps answers_or_fails_def\<close>)
  qed
  have ups: "answers_or_fails (\<lambda>rs tbl'. upsert_answer i m cid v content (table_now s) rs tbl') (table_now s) r (table_now s')"
    if "stringToVector vt = Ok v" "json_Unmarshal j = Ok m"
      "db_upsert [AStr i, AStr cid, AStr vt, AJson j, AStr content] s = (r, s')"
    for i cid vt v j m content s r s'
  proof -
    let ?d = "upserted (table_now s) i cid v m content (int (fst s)) (int (fst s))"
    have p: "parsed vt j = Ok (v, m)" using that by (simp add: parsed_Ok)
    have d: "float32_document ?d" "d_Id ?d = i" "d_Metadata ?d = m"
      using stringToVector_is_f32 [OF that(1)] table_now_entry [of s i]
      by (auto simp: upserted_def float32_document_def split: option.splits)
    have r: "r = Ok \<lparr>row_list = [doc_row False ?d @ [VBool (table_now s i = None)]], rows_Err = None\<rparr>"
      "s' = set_docs (?d # fst (snd s)) s" using that(3) p by (simp_all add: Let_def)
    have t: "table_now s' = (table_now s)(i \<mapsto> ?d)" using table_now_put [OF d(1), of s] d(2) unfolding r(2) by simp
    show ?thesis
      unfolding answers_or_fails_def upsert_answer_def r(1) t outcome.case Let_def
      by (intro exI [of _ "doc_json m"] exI [of _ "int (fst s)"]) (simp add: doc_row_def j d)
  qed
  have rd: "\<exists>rs. db_read [AStr i] s = (Ok rs, s) \<and> read_answer (table_now s i) rs" for i s
  proof (cases "table_now s i")
    case (Some d)
    have "row_shows True d (doc_row True d)" using table_now_entry [OF Some] by (simp add: doc_row_shows)
    with Some show ?thesis by (fastforce simp: read_answer_def row_shows_def)
  qed (simp add: read_answer_def)
  have del: "answers_or_fails (\<lambda>n tbl'. n = Ok (if table_now s i = None then 0 else 1) \<and> tbl' = (table_now s)(i := None))
      (table_now s) r (table_now s')" if "db_delete [AStr i] s = (r, s')" for i s r s'
    using that table_now_delete [of i s] by (auto simp: answers_or_fails_def)
  show ?thesis
    unfolding document_table_def store_driver_calls
    using ins ups rd del by (simp only: option.simps ex_simps simp_thms) blast
qed

lemma store_driver_set: "''SET LOCAL synchronous_commit = OFF'' \<noteq> deleteDocument"
  by code_simp

lemma store_driver_page:
  "page_of (table_now s) c limit offset (take (nat limit) (drop (nat offset)
     (sort_key (\<lambda>d. - d_CreatedAt d) (filter (\<lambda>d. d_CollectionId d = c) (live s)))))"
  unfolding page_of_def
proof (intro exI conjI)
  let ?whole = "sort_key (\<lambda>d. - d_CreatedAt d) (filter (\<lambda>d. d_CollectionId d = c) (live s))"
  show "distinct ?whole" using live_facts(1) [of s] by (simp add: distinct_map)
  show "set ?whole = {doc \<in> ran (table_now s). d_CollectionId doc = c}" using live_facts(2) [of s] by auto
  show "sorted_wrt (\<lambda>a b. d_CreatedAt b \<le> d_CreatedAt a) ?whole"
    using sorted_sort_key [of "\<lambda>d. - d_CreatedAt d" "filter (\<lambda>d. d_CollectionId d = c) (live s)"]
    by (simp add: sorted_map)
qed simp

lemma store_driver_sets: "document_sets store_driver Some (\<lambda>m. m) table_now table_saved"
proof -
  have sublists: "list_all float32_document (take m (drop n (sort_key f (filter P (live s)))))"
    "list_all float32_document (filter P (live s))" for m n P s and f :: "Document \<Rightarrow> int"
    using live_facts(3) [of s] by (auto simp: list_all_iff dest!: in_set_takeD in_set_dropD)
  have page: "T s' = T s \<and> (\<forall>rs. r = Ok rs \<longrightarrow> rows_Err rs = None \<longrightarrow>
      (\<exists>c docs. Some cid = Some c \<and> page_of (table_now s) c limit offset docs \<and> list_all2 (row_shows iv) docs (row_list rs)))"
    if "db_list iv [AStr cid, AInt limit, AInt offset] s = (r, s')" for iv cid limit offset s r s' and T :: "store_db \<Rightarrow> doc_table"
    using that store_driver_page [of s cid limit offset] by (auto intro!: doc_rows_show sublists)
  have remove: "if \<exists>rs. r = Ok rs \<and> rows_Err rs = None
         then \<exists>c docs. Some cid = Some c \<and> removes Some ids c (table_now s) docs (table_now s') \<and>
                (\<forall>rs. r = Ok rs \<longrightarrow> list_all2 (row_shows False) docs (row_list rs))
         else table_now s' = table_now s"
    if "db_remove [AIds ids, AStr cid] s = (r, s')" for ids cid s r s'
    using that table_now_remove [OF refl, where s = s and ids = ids and cid = cid] by (auto simp: Let_def intro!: doc_rows_show sublists)
  have batch: "r \<noteq> Diverge \<and> table_saved s' = table_saved s \<and> (\<forall>rs. r = Ok rs \<longrightarrow> rows_Err rs = None \<longrightarrow>
          (\<exists>docs listed. adds Some (\<lambda>m. m) (map fst items) (table_now s) docs (table_now s') \<and> mset listed = mset docs \<and>
             list_all2 (row_shows False) listed (row_list rs)))"
    if "list_all texts_of items"
      "andThen (db_batch (batchArgs items)) (\<lambda>ds. ret \<lparr>row_list = map (doc_row False) ds, rows_Err = None\<rparr>) s = (r, s')"
    for items s r s'
  proof -
    obtain q s1 where q: "db_batch (batchArgs items) s = (q, s1)" by (rule prod.exhaust)
    note law = db_batch_adds [OF that(1) q]
    have r: "r = chain q (\<lambda>ds. Ok \<lparr>row_list = map (doc_row False) ds, rows_Err = None\<rparr>)" "s' = s1"
      using that(2) q by (cases q; simp add: op_simps)+
    show ?thesis
    proof (cases q)
      case (Ok ds)
      with law have "adds Some (\<lambda>m. m) (map fst items) (table_now s) ds (table_now s1)" "list_all float32_document ds" by simp_all
      with doc_rows_show [of ds False] law Ok show ?thesis unfolding r by auto
    qed (use law in \<open>simp_all add: r\<close>)
  qed
  have begin_tx: "table_now s' = table_now s \<and> (r = Ok () \<longrightarrow> table_saved s' = table_now s)"
    if "drv_Begin store_driver s = (r, s')" for s r s'
    using that by (auto simp: store_driver_def table_now_def table_saved_def)
  have set_tx: "r \<noteq> Diverge \<and> table_now s' = table_now s \<and> table_saved s' = table_saved s"
    if "drv_Exec store_driver ''SET LOCAL synchronous_commit = OFF'' [] s = (r, s')" for s r s'
    using that store_driver_set by (auto simp: store_driver_def ret_def)
  have commit_tx: "table_now s' = (if r = Ok () then table_now s else table_saved s)"
    if "drv_Commit store_driver s = (r, s')" for s r s'
    using that by (simp add: store_driver_def ret_def)
  have rollback_tx: "table_now (drv_Rollback store_driver s) = table_saved s" for s
    by (simp add: store_driver_def table_now_def table_saved_def)
  show ?thesis
    unfolding document_sets_def store_driver_calls
    by (intro conjI; intro allI impI)
       (erule page | erule remove | erule begin_tx | erule set_tx | erule (1) batch | erule commit_tx | rule rollback_tx)+
qed

text \<open>Two documents are inserted as a batch; the newest is the first page, and it can be deleted.\<close>

definition sent :: "metadata \<Rightarrow> fp list \<times> string \<Rightarrow> Document" where
  "sent m d = zero_Document\<lparr>d_CollectionId := ''c'', d_Content := snd d, d_Vector := fst d, d_Metadata := m\<rparr>"

definition stored :: "metadata \<Rightarrow> nat \<Rightarrow> fp list \<times> string \<Rightarrow> Document" where
  "stored m n d =
     \<lparr>d_Id = replicate n (CHR ''i''), d_CollectionId = ''c'', d_Vector = fst d, d_Metadata = m, d_Content = snd d,
      d_CreatedAt = int n, d_UpdatedAt = int n\<rparr>"

definition empty_pool :: "store_db pool" where
  "empty_pool = \<lparr>server = (0, [], []), goroutines = [], HNSWBuildDuration = 0, HNSWBuildErrors = 0\<rparr>"

definition full_pool :: "metadata \<Rightarrow> fp list \<times> string \<Rightarrow> fp list \<times> string \<Rightarrow> store_db pool" where
  "full_pool m d e = empty_pool\<lparr>server := (2, [stored m 1 e, stored m 0 d], [])\<rparr>"

lemma stored_facts [simp]:
  "d_Id (stored m n d) = replicate n (CHR ''i'')" "float32_document (stored m n d) = list_all is_f32 (fst d)"
  by (simp_all add: stored_def float32_document_def)

lemma two_inserted:
  assumes f32: "list_all is_f32 (fst d)" "list_all is_f32 (fst e)" and m: "json_Marshal m = Ok j"
  shows "DocumentRepo_BatchInsert store_driver (\<lambda>n. [0 ..< n]) cid [sent m d, sent m e] empty_pool =
     (Ok (2, map (shown False) [stored m 0 d, stored m 1 e]), full_pool m d e)"
proof -
  note vec = vector_roundtrip [OF f32(1)] vector_roundtrip [OF f32(2)]
  have j: "json_Unmarshal j = Ok m" by (rule json_roundtrip [OF m])
  let ?docs = "[sent m d, sent m e]" and ?texts = "[(vectorToString (fst d), j), (vectorToString (fst e), j)]"
    and ?rows = "[stored m 0 d, stored m 1 e]" and ?after = "(2, [stored m 1 e, stored m 0 d], []) :: store_db"
  have prep: "checkMarshal 0 (prepareBatch (\<lambda>n. [0 ..< n]) ?docs) = Ok ?texts"
    by (subst prepareBatch_any_order) (simp_all add: atLeast0LessThan serialized_of_def sent_def m)
  have q: "batchQuery ?docs ?texts = (batchText 2, batchArgs (zip ?docs ?texts))"
    by (subst batchQuery_items) (simp_all add: numeral_2_eq_2)
  have add: "add_row ''c'' (vectorToString (fst x)) j (snd x) (n, ds, old) =
      (Ok (stored m n x), (Suc n, stored m n x # ds, old))"
    if "stringToVector (vectorToString (fst x)) = Ok (fst x)" "table_now (n, ds, old) (replicate n (CHR ''i'')) = None" for x n ds old
    using that j by (simp add: add_row_def parsed_def Let_def stored_def set_docs_def)
  have "db_batch (batchArgs (zip ?docs ?texts)) (0, [], []) = (Ok ?rows, ?after)"
    using add [OF vec(1), of 0 "[]" "[]"] add [OF vec(2), of 1 "[stored m 0 d]" "[]"] f32
    by (simp add: sent_def op_simps table_now_def entries_def numeral_2_eq_2)
  then have b: "drv_Query store_driver (batchText 2) (batchArgs (zip ?docs ?texts)) (0, [], []) =
      (Ok \<lparr>row_list = map (doc_row False) ?rows, rows_Err = None\<rparr>, ?after)"
    by (simp add: store_driver_calls op_simps del: list.map)
  have c: "collect_rows (scanDocument False) (\<lambda>e. e) \<lparr>row_list = map (doc_row False) ?rows, rows_Err = None\<rparr> =
      Ok (map (shown False) ?rows)"
    by (rule collect_shown) (simp, simp only: rows.select_convs, rule doc_rows_show, simp add: f32)
  have x: "drv_Exec store_driver ''SET LOCAL synchronous_commit = OFF'' [] (0, [], []) = (Ok (Ok 0), (0, [], []))"
    using store_driver_set by (simp add: store_driver_def ret_def)
  have t: "drv_Begin store_driver (0, [], []) = (Ok (), (0, [], []))" "drv_Commit store_driver s = (Ok (), s)" for s
    by (simp_all add: store_driver_def ret_def)
  have "batchBody store_driver (\<lambda>n. [0 ..< n]) ?docs empty_pool = (Ok (map (shown False) ?rows), full_pool m d e)"
    by (simp add: batchBody_def andThen_Ok wrap_error_Ok on_server_def empty_pool_def full_pool_def prep q x b c
        del: list.map One_nat_def batchArgs.simps zip_Cons_Cons)
  then show ?thesis
    by (simp add: DocumentRepo_BatchInsert_def op_simps t empty_pool_def full_pool_def)
qed

text \<open>Two vectors with one value each.\<close>

definition doc_one :: "fp list \<times> string" where "doc_one = ([f_one], ''one'')"
definition doc_two :: "fp list \<times> string" where "doc_two = ([f_zero], ''two'')"

lemma docs_f32: "list_all is_f32 (fst doc_one)" "list_all is_f32 (fst doc_two)"
  by (simp_all add: doc_one_def doc_two_def f_one_def f_zero_def)

lemma newest_page:
  "DocumentRepo_List store_driver ''c'' 1 0 True (full_pool None doc_one doc_two) =
     (Ok [stored None 1 doc_two], full_pool None doc_one doc_two)"
proof -
  let ?s = "(2, [stored None 1 doc_two, stored None 0 doc_one], []) :: store_db"
  have "live ?s = [stored None 1 doc_two, stored None 0 doc_one]" by (simp add: live_def entries_def docs_f32)
  then have "db_list True [AStr ''c'', AInt 1, AInt 0] ?s =
      (Ok \<lparr>row_list = [doc_row True (stored None 1 doc_two)], rows_Err = None\<rparr>, ?s)"
    by (simp add: stored_def)
  moreover have "collect_rows (scanDocument True) (\<lambda>e. e)
      \<lparr>row_list = [doc_row True (stored None 1 doc_two)], rows_Err = None\<rparr> = Ok [stored None 1 doc_two]"
    using collect_shown [of _ True "[stored None 1 doc_two]"] doc_rows_show [of "[stored None 1 doc_two]" True]
    by (simp add: docs_f32 shown_def)
  ultimately show ?thesis
    by (simp add: DocumentRepo_List_def andThen_Ok on_server_def store_driver_calls full_pool_def empty_pool_def)
qed


end
