(* ===== verification/Document_Flows.thy ===== *)
theory Document_Flows
  imports Document_Store Frame Embedding_Properties
begin

text \<open>
  From a request to the table of documents, on the database of \<open>Document_Store\<close>: an ingestion
  leaves a document for each chunk in the table, and a listing is a page of it. The vectors of
  an ingestion come from a provider; that they are float32 is proved here for the three
  clients, over every network whose numbers are numbers.
\<close>

section \<open>Embeddings are float32\<close>

text \<open>A number that a JSON text can hold.\<close>

fun json_numbers :: "jval \<Rightarrow> bool" where
  "json_numbers (JNum (Fin s m)) = (0 \<le> m)"
| "json_numbers (JNum _) = False"
| "json_numbers (JArr vs) = list_all json_numbers vs"
| "json_numbers (JObj kvs) = list_all (\<lambda>kv. json_numbers (snd kv)) kvs"
| "json_numbers _ = True"

definition sends_numbers :: "'h net \<Rightarrow> bool" where
  "sends_numbers net \<longleftrightarrow>
     (\<forall>req h resp h' v. exchange net req h = (Inr resp, h') \<longrightarrow> Body resp = Some v \<longrightarrow> json_numbers v)"

text \<open>A decoder that finds \<open>P\<close> in every value with such numbers.\<close>

definition finds :: "('a \<Rightarrow> bool) \<Rightarrow> (jval \<Rightarrow> 'a result) \<Rightarrow> bool" where
  "finds P f \<longleftrightarrow> (\<forall>v x. json_numbers v \<longrightarrow> f v = Ok x \<longrightarrow> P x)"

definition finds_in :: "('a \<Rightarrow> bool) \<Rightarrow> ((string \<times> jval) list \<Rightarrow> 'a result) \<Rightarrow> bool" where
  "finds_in P f \<longleftrightarrow> (\<forall>kvs x. list_all (\<lambda>kv. json_numbers (snd kv)) kvs \<longrightarrow> f kvs = Ok x \<longrightarrow> P x)"

named_theorems finds_intros \<open>rules that prove what a decoder finds\<close>

lemma finds_float [finds_intros]: "finds is_f32 decode_float"
  unfolding finds_def
proof (intro allI impI)
  fix v x assume "json_numbers v" "decode_float v = Ok x"
  then show "is_f32 x"
    by (cases v rule: decode_float.cases) (auto simp: f_zero_def dest: f32_round_is_f32 split: fp.splits)
qed

lemma finds_slice [finds_intros]: "finds P f \<Longrightarrow> finds (list_all P) (decode_slice f)"
proof -
  assume f: "finds P f"
  have "list_all json_numbers vs \<Longrightarrow> decode_list f vs = Ok xs \<Longrightarrow> list_all P xs" for vs xs
    by (induction vs arbitrary: xs) (use f in \<open>auto simp: finds_def\<close>)
  then show ?thesis
    unfolding finds_def
  proof (intro allI impI)
    fix v xs assume "json_numbers v" "decode_slice f v = Ok xs"
    with \<open>\<And>xs vs. list_all json_numbers vs \<Longrightarrow> decode_list f vs = Ok xs \<Longrightarrow> list_all P xs\<close> show "list_all P xs"
      by (cases "(f, v)" rule: decode_slice.cases) auto
  qed
qed

lemma finds_field [finds_intros]: "finds P f \<Longrightarrow> finds_in P (\<lambda>kvs. f (field name kvs))"
proof -
  have found: "kv \<in> set kvs" if "List.find Q (rev kvs) = Some kv" for Q kv and kvs :: "(string \<times> jval) list"
    using that nth_mem [of _ "rev kvs"] by (auto simp: find_Some_iff)
  have "json_numbers (field name kvs)" if "list_all (\<lambda>kv. json_numbers (snd kv)) kvs" for kvs
    using that by (auto simp: field_def list_all_iff split: option.splits prod.splits dest!: found)
  then show "finds P f \<Longrightarrow> ?thesis" by (auto simp: finds_def finds_in_def)
qed

lemma finds_object [finds_intros]: "finds_in P f \<Longrightarrow> finds P (decode_object f)"
  unfolding finds_def
proof (intro allI impI)
  fix v x assume "finds_in P f" "json_numbers v" "decode_object f v = Ok x"
  moreover from this(1) have "f [] = Ok x \<Longrightarrow> P x" unfolding finds_in_def by (auto dest: spec [of _ "[]"])
  ultimately show "P x" by (cases "(f, v)" rule: decode_object.cases) (auto simp: finds_in_def)
qed

lemma finds_body: "finds_in P f \<Longrightarrow> \<forall>v. Body resp = Some v \<longrightarrow> json_numbers v \<Longrightarrow> decode_body f resp = Ok x \<Longrightarrow> P x"
  using finds_object [of P f] by (auto simp: decode_body_def finds_def split: option.splits)

lemma finds_vectors: "finds_in (list_all (list_all is_f32)) embeddingsField"
  unfolding embeddingsField_def by (intro finds_intros)

lemma finds_openai: "finds_in (list_all (\<lambda>item. list_all is_f32 (fst item))) openaiResponse"
proof -
  have v: "finds_in (list_all is_f32) (\<lambda>kvs. decode_vector (field ''embedding'' kvs))" by (intro finds_intros)
  have "finds_in (\<lambda>item. list_all is_f32 (fst item)) openaiItem"
    unfolding finds_in_def
  proof (intro allI impI)
    fix kvs x assume "list_all (\<lambda>kv. json_numbers (snd kv)) kvs" "openaiItem kvs = Ok x"
    with v show "list_all is_f32 (fst x)" by (auto simp: openaiItem_def finds_in_def)
  qed
  then show ?thesis unfolding openaiResponse_def by (intro finds_intros)
qed

text \<open>The contract of a client, with what its vectors are.\<close>

lemma post_numbers:
  "sends_numbers net \<Longrightarrow> post net f g req h = (Ok resp, h') \<Longrightarrow> \<forall>v. Body resp = Some v \<longrightarrow> json_numbers v"
  by (auto simp: post_def Do_def sends_numbers_def wrap_error_Ok fail_def split: option.splits prod.splits sum.splits)

lemma decoded:
  "sends_numbers net \<Longrightarrow> finds_in P d \<Longrightarrow> post net f g req h = (Ok resp, h') \<Longrightarrow> decode_body d resp = Ok x \<Longrightarrow> P x"
  by (rule finds_body [OF _ post_numbers])

locale float32_client = embedding_client_contract generate
  for generate :: "string list \<Rightarrow> ('h, gerror, fp list list) op" +
  fixes numbers :: bool
  assumes float32: "numbers \<Longrightarrow> generate texts h = (Ok embs, h') \<Longrightarrow> list_all (list_all is_f32) embs"
begin

lemma pair_float32:
  assumes numbers and "generate texts h = (Ok embs, h')" and "(t, v) \<in> set (zip texts embs)"
  shows "list_all is_f32 v"
  using float32 [OF assms(1,2)] set_zip_rightD [OF assms(3)] by (simp add: list_all_iff)

end

lemma placeItems_f32:
  "list_all (\<lambda>item. list_all is_f32 (fst item)) items \<Longrightarrow> list_all (list_all is_f32) (placeItems items (replicate n []))"
  by (fastforce simp: list_all_iff dest!: placeItems_from)

lemma OpenAI_f32:
  assumes "sends_numbers net" and "OpenAI_GenerateEmbeddings net key model texts h = (Ok embs, h')"
  shows "list_all (list_all is_f32) embs"
  using assms(2)
  by (auto simp: OpenAI_GenerateEmbeddings_def ret_def fail_def lift_def Let_def
      elim!: andThen_OkE split: if_splits option.splits outcome.splits
      intro!: placeItems_f32)
     (rule decoded [OF assms(1) finds_openai]; assumption)+

lemma Cohere_f32:
  assumes "sends_numbers net" and "Cohere_GenerateEmbeddings net key model texts h = (Ok embs, h')"
  shows "list_all (list_all is_f32) embs"
  using assms(2)
  by (auto simp: Cohere_GenerateEmbeddings_def ret_def fail_def lift_def Let_def
      elim!: andThen_OkE split: if_splits outcome.splits)
     (rule decoded [OF assms(1) finds_vectors]; assumption)+

lemma tryBatch_f32:
  assumes "sends_numbers net" and "tryBatchEmbed net host model texts h = (Ok embs, h')"
  shows "list_all (list_all is_f32) embs"
  using assms(2)
  by (auto simp: tryBatchEmbed_def ret_def fail_def lift_def elim!: andThen_OkE split: if_splits
     )
     (rule decoded [OF assms(1) finds_vectors]; assumption)+

lemma legacy_f32:
  assumes "sends_numbers net" and "callLegacyEmbeddings net host model t h = (Ok emb, h')"
  shows "list_all is_f32 emb"
proof -
  have v: "finds_in (list_all is_f32) (\<lambda>kvs. decode_vector (field ''embedding'' kvs))" by (intro finds_intros)
  from assms(2) show ?thesis
    by (auto simp: callLegacyEmbeddings_def ret_def fail_def lift_def elim!: andThen_OkE split: if_splits)
       (rule decoded [OF assms(1) v]; assumption)+
qed

lemma legacyLoop_f32:
  "sends_numbers net \<Longrightarrow> legacyLoop net host model i texts h = (Ok embs, h') \<Longrightarrow> list_all (list_all is_f32) embs"
proof (induction texts arbitrary: i h embs)
  case (Cons t texts)
  then show ?case by (auto simp: wrap_error_Ok ret_def elim!: andThen_OkE) (rule legacy_f32)
qed (simp add: ret_def)

lemma Ollama_f32:
  assumes "sends_numbers net" and "Ollama_GenerateEmbeddings net host model texts h = (Ok embs, h')"
  shows "list_all (list_all is_f32) embs"
  using assms(2)
  by (auto simp: Ollama_GenerateEmbeddings_def ret_def elim!: handle_OkE split: if_splits
      dest: tryBatch_f32 [OF assms(1)] legacyLoop_f32 [OF assms(1)])

interpretation embed32: float32_client "GenerateEmbeddings net c" "sends_numbers net" for net c
proof unfold_locales
  show "list_all (list_all is_f32) embs" if "sends_numbers net" "GenerateEmbeddings net c texts h = (Ok embs, h')"
    for texts h embs h'
    using that(2) by (cases c) (auto dest: OpenAI_f32 [OF that(1)] Cohere_f32 [OF that(1)] Ollama_f32 [OF that(1)])
qed

section \<open>Steps that leave the table alone\<close>

text \<open>Looking up a collection does not change the table of documents.\<close>

definition lookups_spare :: "'d driver \<Rightarrow> ('d \<Rightarrow> doc_table) \<Rightarrow> bool" where
  "lookups_spare drv T \<longleftrightarrow> (\<forall>args d. T (snd (drv_Query drv collectionById args d)) = T d)"

definition docs_of :: "('d \<Rightarrow> doc_table) \<Rightarrow> ('d pool, 'h) world \<Rightarrow> doc_table" where
  "docs_of T w = T (server (store w))"

lemma spared_lookups:
  assumes "lookups_spare drv T"
  shows "getCollectionInfo (NewCollectionRepo drv) cid w = (r, w') \<Longrightarrow> docs_of T w' = docs_of T w"
    and "getCollectionEmbeddingInfo (NewCollectionRepo drv) cid w = (r', w') \<Longrightarrow> docs_of T w' = docs_of T w"
proof -
  let ?P = "\<lambda>d. T d = docs_of T w"
  have "preserves ?P (drv_Query drv collectionById args)" for args
    using assms by (simp add: preserves_def lookups_spare_def)
  then have "preserves (on_pool ?P) (CollectionRepo_ListById drv cid)"
    unfolding CollectionRepo_ListById_def oneCollection_def by (intro preserves_intros pool_QueryRow)
  then have "preserves (store_holds (on_pool ?P)) (fetchCollection (NewCollectionRepo drv) cid)"
    unfolding fetchCollection_def by (intro preserves_intros holds_on_store) (simp_all add: NewCollectionRepo_def)
  then have "preserves (store_holds (on_pool ?P)) (getCollectionInfo (NewCollectionRepo drv) cid)"
    "preserves (store_holds (on_pool ?P)) (getCollectionEmbeddingInfo (NewCollectionRepo drv) cid)"
    unfolding getCollectionInfo_def getCollectionEmbeddingInfo_def by (auto intro!: preserves_intros split: prod.splits)
  from preservesD [OF this(1), of w] preservesD [OF this(2), of w]
  show "getCollectionInfo (NewCollectionRepo drv) cid w = (r, w') \<Longrightarrow> docs_of T w' = docs_of T w"
    and "getCollectionEmbeddingInfo (NewCollectionRepo drv) cid w = (r', w') \<Longrightarrow> docs_of T w' = docs_of T w"
    by (simp_all add: store_holds_def on_pool_def docs_of_def)
qed

lemma spared_steps:
  "countChunks s n w = (r, w') \<Longrightarrow> docs_of T w' = docs_of T w"
  "lift r1 w = (r2, w') \<Longrightarrow> docs_of T w' = docs_of T w"
  "embedStep net provider client chunks w = (r3, w') \<Longrightarrow> docs_of T w' = docs_of T w"
proof -
  have "preserves (store_holds (\<lambda>p. T (server p) = docs_of T w)) (embedStep net provider client chunks)"
    unfolding embedStep_def by (intro preserves_intros)
  from preservesD [OF this, of w]
  show "embedStep net provider client chunks w = (r3, w') \<Longrightarrow> docs_of T w' = docs_of T w"
    by (simp add: store_holds_def docs_of_def)
qed (auto simp: countChunks_def count_def update_def lift_def docs_of_def)

section \<open>Batches through the service\<close>

lemma batch_adds:
  assumes S: "document_sets drv key nf T saved" and sched: "each_once sched" and spare: "lookups_spare drv T"
    and f32: "list_all float32_document items"
    and run: "BatchInsert (NewDocumentRepo drv sched) (NewCollectionRepo drv) cid items w = (Ok (n, ins), w')"
  shows "n = int (length items) \<and> length items \<le> 1000 \<and>
     (\<exists>dimn. \<forall>item\<in>set items. int (length (d_Vector item)) = dimn) \<and>
     (\<exists>docs listed. adds key nf items (docs_of T w) docs (docs_of T w') \<and> mset listed = mset docs \<and>
        ins = map (shown False) listed)"
proof -
  from run [unfolded BatchInsert_Ok] obtain dimn metric w1 p where
    look: "getCollectionInfo (NewCollectionRepo drv) cid w = (Ok (dimn, metric), w1)"
    and small: "length items \<le> 1000" "\<forall>v\<in>set items. int (length (d_Vector v)) = dimn"
    and ins: "DocumentRepo_BatchInsert drv sched cid items (store w1) = (Ok (n, ins), p)" and w': "w' = w1\<lparr>store := p\<rparr>"
    by (auto simp: NewDocumentRepo_def)
  have "store_repo_op drv sched (InsertAll cid items) (store w1) = (Ok (Counted n ins), p)"
    using ins by (simp add: andThen_run ret_run)
  from insert_refines [OF S sched f32 this]
  have "store_step key nf (InsertAll cid items) (docs_of T w) (Ok (Counted n ins)) (docs_of T w')"
    using spared_lookups(1) [OF spare look] by (simp add: docs_of_def w')
  then show ?thesis using small by (cases rule: store_step.cases) auto
qed

section \<open>Ingestion\<close>

lemma ingestChunks_adds:
  assumes S: "document_sets drv key nf T saved" and sched: "each_once sched" and spare: "lookups_spare drv T"
    and net: "sends_numbers net"
    and run: "ingestChunks (NewDocumentRepo drv sched) (NewCollectionRepo drv) net cid md strategy provider model chunks w =
      (Ok (n, ids), w')"
  shows "n = int (length chunks) \<and> length chunks \<le> 1000 \<and>
     (\<exists>embs docs. length embs = length chunks \<and> (\<exists>dimn. \<forall>e\<in>set embs. int (length e) = dimn) \<and>
        adds key nf (map (ingestDoc cid md) (zip chunks embs)) (docs_of T w) docs (docs_of T w') \<and>
        mset ids = mset (map d_Id docs))"
proof -
  from run obtain w1 w2 w3 w4 client embs r ins where
    steps: "countChunks strategy (length chunks) w = (Ok (), w1)" "lift (GetClient net provider model) w1 = (Ok client, w2)"
      "embedStep net provider client chunks w2 = (Ok embs, w3)" "getCollectionInfo (NewCollectionRepo drv) cid w3 = (Ok r, w4)"
    and docs: "BatchInsert (NewDocumentRepo drv sched) (NewCollectionRepo drv) cid (map (ingestDoc cid md) (zip chunks embs)) w4 =
      (Ok (n, ins), w')" and ids: "ids = map d_Id ins"
    by (auto simp: ingestChunks_eq andThen_Ok wrap_error_Ok docsToInsert_all [OF embedStep_Ok] split: if_splits prod.splits)
  have same: "docs_of T w4 = docs_of T w"
    using spared_steps(1) [OF steps(1), of T] spared_steps(2) [OF steps(2), of T] spared_steps(3) [OF steps(3), of T]
      spared_lookups(1) [OF spare steps(4)] by simp
  from steps(3) obtain h where "GenerateEmbeddings net client chunks (remote w2) = (Ok embs, h)"
    by (auto simp: embedStep_def handle_def on_remote_def andThen_Ok countEmbed_def count_def
        split: prod.splits outcome.splits)
  note emb = this
  have len: "length embs = length chunks" by (rule embedStep_Ok [OF steps(3)])
  have vectors: "map d_Vector (map (ingestDoc cid md) (zip chunks embs)) = embs"
    using len by (simp add: ingestDoc_def comp_def)
  have "list_all float32_document (map (ingestDoc cid md) (zip chunks embs))"
    using embed32.pair_float32 [OF net emb] by (auto simp: list_all_iff float32_document_def ingestDoc_def)
  note all = batch_adds [OF S sched spare this docs, unfolded same]
  then obtain dimn news listed where dims: "\<forall>item\<in>set (map (ingestDoc cid md) (zip chunks embs)). int (length (d_Vector item)) = dimn"
    and news: "adds key nf (map (ingestDoc cid md) (zip chunks embs)) (docs_of T w) news (docs_of T w')"
    "mset listed = mset news" "ins = map (shown False) listed" by blast
  have "d_Id \<circ> shown False = d_Id" by (simp add: shown_def fun_eq_iff)
  then have "mset ids = mset (map d_Id news)" using news(2,3) by (simp add: ids)
  moreover have "\<forall>e\<in>set embs. int (length e) = dimn"
    using dims vectors by (metis image_eqI imageE set_map)
  ultimately show ?thesis using all len news(1) by auto
qed

lemma adds_chunks:
  assumes "adds key nf (map (ingestDoc cid md) pairs) tbl docs tbl'"
  shows "list_all2 (\<lambda>(chunk, emb) doc. d_Content doc = chunk \<and> d_Vector doc = emb \<and> key cid = Some (d_CollectionId doc) \<and>
      d_Metadata doc = nf md \<and> tbl (d_Id doc) = None) pairs docs \<and>
    distinct (map d_Id docs) \<and> tbl' = tbl ++ map_of (map (\<lambda>doc. (d_Id doc, doc)) docs)"
proof -
  have "list_all2 (\<lambda>p doc. added key nf tbl (ingestDoc cid md p) doc) pairs docs"
    using assms by (simp add: adds_def list_all2_map1)
  then have "list_all2 (\<lambda>(chunk, emb) doc. d_Content doc = chunk \<and> d_Vector doc = emb \<and> key cid = Some (d_CollectionId doc) \<and>
      d_Metadata doc = nf md \<and> tbl (d_Id doc) = None) pairs docs"
    by (rule list_all2_mono) (auto simp: added_def ingestDoc_def)
  with assms show ?thesis by (simp add: adds_def)
qed


subsection \<open>On the example database\<close>

text \<open>Worlds whose cache knows the collection \<open>c\<close>.\<close>

definition knows_c :: "store_db pool \<Rightarrow> (store_db pool, unit) world" where
  "knows_c p =
     \<lparr>store = p, remote = (), cache = cache_Insert ''c'' 2 ''cosine'' ''openai'' ''m'' NewCollectionCache, meters = no_meters\<rparr>"

lemma knows_c_world [simp]:
  "cache (knows_c p) ''c'' = Some \<lparr>ci_dimension = 2, ci_distanceMetric = ''cosine'', ci_embeddingProvider = ''openai'',
     ci_embeddingModel = ''m''\<rparr>"
  "store (knows_c p) = p"
  by (simp_all add: knows_c_def cache_Insert_def)

definition ingest_one :: "fp list \<times> string" where "ingest_one = ([f_zero, f_one], ''a'')"
definition ingest_two :: "fp list \<times> string" where "ingest_two = ([f_one, f_one], ''b'')"

lemma store_driver_spares: "lookups_spare store_driver table_now"
proof -
  have "hd collectionById \<noteq> CHR ''I''" "collectionById \<noteq> insertDocument" "collectionById \<noteq> upsertDocument"
    "collectionById \<noteq> documentById" "collectionById \<noteq> batchDelete" by code_simp+
  moreover have "list_all (\<lambda>iv. collectionById \<noteq> listDocuments iv) [True, False]" by code_simp
  ultimately show ?thesis by (simp add: lookups_spare_def store_driver_def ret_def)
qed

lemma demo_sends_numbers: "sends_numbers demo_net"
  by (simp add: sends_numbers_def demo_net_def demo_item_def f_one_def f_zero_def)

lemma store_ingest:
  "fst (IngestDocument (NewDocumentRepo store_driver (\<lambda>n. [0 ..< n])) (NewCollectionRepo store_driver) demo_net
     ''c'' ''ab'' None by_character (knows_c empty_pool)) = Ok (2, [[], ''i''])"
proof -
  have c: "Chunk (GetChunker ''fixed'') ''ab'' 1 0 = Some [''a'', ''b'']" by code_simp
  have g: "GetClient demo_net ''openai'' ''m'' = Ok (OpenAIEmbeddingClient ''key'' ''m'')" by code_simp
  have m: "json_Marshal (Some []) = Ok (Json (JObj []))" by (simp add: json_Marshal_def)
  have docs: "zero_Document\<lparr>d_CollectionId := ''c'', d_Content := ''a'', d_Vector := [f_zero, f_one], d_Metadata := Some []\<rparr> =
      sent (Some []) ingest_one"
    "zero_Document\<lparr>d_CollectionId := ''c'', d_Content := ''b'', d_Vector := [f_one, f_one], d_Metadata := Some []\<rparr> =
      sent (Some []) ingest_two"
    by (simp_all add: sent_def ingest_one_def ingest_two_def)
  have f32: "list_all is_f32 (fst ingest_one)" "list_all is_f32 (fst ingest_two)"
    by (simp_all add: ingest_one_def ingest_two_def f_one_def f_zero_def)
  have len: "length (d_Vector (sent m ingest_one)) = 2" "length (d_Vector (sent m ingest_two)) = 2" for m
    by (simp_all add: sent_def ingest_one_def ingest_two_def)
  have ids: "d_Id (shown False d) = d_Id d" for d by (simp add: shown_def)
  show ?thesis
    using two_inserted [OF f32 m, of "''c''"]
    by (simp add: IngestDocument_def by_character_def c op_simps getCollectionEmbeddingInfo_hit orEmpty_def
        ingestChunks_def g demo_embeddings countChunks_def countEmbed_def count_def getCollectionInfo_hit BatchInsert_def batchSize_def NewDocumentRepo_def docs len ids)
qed


section \<open>Listing\<close>


definition store_env :: "((string \<times> jval) list, store_db, unit) environment" where
  "store_env = \<lparr>structs_of = \<lparr>AsMap = (\<lambda>s. s), NewStruct = Some\<rparr>, driver_of = store_driver,
     schedule_of = (\<lambda>n. [0 ..< n]), net_of = demo_net, now_of = 0\<rparr>"


end
