(* ===== verification/Hybrid_Search.thy ===== *)
theory Hybrid_Search
  imports Server_Facts Service_Properties
begin

text \<open>
  A hybrid search by text alone. The service asks for a query vector or a query text, and checks
  the vector only when there is one; the repository sends the text of the vector in every case,
  and the text of no vector is \<open>[]\<close>. A vector of pgvector has at least one dimension, so the
  database refuses the statement.
\<close>

section \<open>Arguments that a statement casts to vectors\<close>

definition casts_to_vector :: "string \<Rightarrow> nat \<Rightarrow> bool" where
  "casts_to_vector q n = sublist (CHR ''$'' # decimal n @ ''::vector'') q"

text \<open>What pgvector documents: there is no vector without a dimension, and a statement that casts
  such a text gives no complete answer.\<close>

definition refuses_empty_vectors :: "'d driver \<Rightarrow> bool" where
  "refuses_empty_vectors drv \<longleftrightarrow>
     (\<forall>q args n d. casts_to_vector q (Suc n) \<longrightarrow> n < length args \<longrightarrow> args ! n = AStr ''[]'' \<longrightarrow>
        (\<forall>rs. fst (drv_Query drv q args d) = Ok rs \<longrightarrow> rows_Err rs \<noteq> None))"

lemma casts_append: "casts_to_vector q n \<Longrightarrow> casts_to_vector (q @ s) n"
  by (auto simp: casts_to_vector_def sublist_def) (metis append.assoc)

lemma hybrid_casts:
  "casts_to_vector (hybridTextBase includeVector m) 3" "casts_to_vector (hybridVectorBase includeVector m) 2"
proof -
  have "list_all (\<lambda>m. list_all (\<lambda>v. casts_to_vector (hybridTextBase v m) 3 \<and> casts_to_vector (hybridVectorBase v m) 2)
      [True, False]) metrics"
    by code_simp
  then have "list_all (\<lambda>v. casts_to_vector (hybridTextBase v m) 3 \<and> casts_to_vector (hybridVectorBase v m) 2) [True, False]"
    by (rule metric_all) (simp add: hybridTextBase_def hybridVectorBase_def)
  then show "casts_to_vector (hybridTextBase includeVector m) 3" "casts_to_vector (hybridVectorBase includeVector m) 2"
    by (cases includeVector; simp)+
qed

lemma no_vector_text: "vectorToString [] = ''[]''"
  by code_simp

text \<open>The statement of a hybrid search casts the text of the query vector, whatever is in it.\<close>

lemma hybrid_statement_casts:
  assumes "hybridQuery c text v topK f vw tw includeVector m = Ok (q, args)"
  shows "\<exists>n<length args. casts_to_vector q (Suc n) \<and> args ! n = AStr (vectorToString v)"
proof -
  from hybridQuery_closed [OF assms] obtain js where
    q: "q = hybridText (text \<noteq> []) includeVector m (length js)"
    and args: "args = (if text \<noteq> [] then [AStr text] else []) @ [AStr c, AStr (vectorToString v)] @
                  map AJson js @ [AFloat tw, AFloat vw, AInt topK]" by blast
  show ?thesis
  proof (cases "text = []")
    case True
    then have "casts_to_vector q 2" using hybrid_casts(2) by (simp add: q hybridText_def casts_append)
    with True args show ?thesis by (intro exI [of _ 1]) (simp add: numeral_2_eq_2)
  next
    case False
    then have "casts_to_vector q 3" using hybrid_casts(1) by (simp add: q hybridText_def casts_append)
    with False args show ?thesis by (intro exI [of _ 2]) (simp add: numeral_3_eq_3 numeral_2_eq_2)
  qed
qed

lemma hybrid_needs_vector:
  assumes "refuses_empty_vectors drv"
  shows "DocumentRepo_HybridSearch drv cid qt [] topK f vw tw iv m p \<noteq> (Ok rs, p')"
proof
  assume "DocumentRepo_HybridSearch drv cid qt [] topK f vw tw iv m p = (Ok rs, p')"
  then obtain q args rows p1 where stmt: "hybridQuery cid qt [] topK f vw tw iv m = Ok (q, args)"
    and rows: "on_server (drv_Query drv q args) p = (Ok rows, p1)" "rows_Err rows = None"
    by (auto simp: DocumentRepo_HybridSearch_def runSearch_def andThen_Ok wrap_error_Ok collect_rows_Ok)
  then have "fst (drv_Query drv q args (server p)) = Ok rows" by (auto simp: on_server_def split: prod.splits)
  moreover from hybrid_statement_casts [OF stmt] obtain n where
    "n < length args" "casts_to_vector q (Suc n)" "args ! n = AStr ''[]''" by (auto simp: no_vector_text)
  ultimately show False using assms rows(2) unfolding refuses_empty_vectors_def by blast
qed

text \<open>C35 A hybrid search without a query vector always fails, with a text or without one: the
  service lets a search by text alone through, as its message says, but the statement casts
  the empty text of the vector, and the database refuses that.\<close>

theorem text_only_hybrid_search_fails:
  assumes "refuses_empty_vectors (driver_of env)" and "hs_QueryVector req = []"
  shows "fst (dispatch env (HybridSearchCall req) w) \<noteq> Ok answer"
proof -
  have "HybridSearchDocuments (NewDocumentRepo (driver_of env) (schedule_of env)) cr cid qt [] topK f vw tw iv w \<noteq> (Ok rs, w')"
    for cr cid qt topK f vw tw iv rs w'
    using hybrid_needs_vector [OF assms(1)] by (auto simp: HybridSearch_Ok NewDocumentRepo_def)
  then show ?thesis
    using assms(2)
    by (cases "dispatch env (HybridSearchCall req) w") (auto simp: responding_def Handler_HybridSearch_def Let_def andThen_Ok)
qed

text \<open>A database that refuses the text of an empty vector, and answers everything else with no rows:
  the same request with a vector is answered.\<close>

definition picky_driver :: "unit driver" where
  "picky_driver =
     \<lparr>drv_Query = (\<lambda>q args. if AStr ''[]'' \<in> set args then fail (ErrNew ''pq: vector must have at least 1 dimension'')
                      else ret \<lparr>row_list = [], rows_Err = None\<rparr>),
      drv_Exec = (\<lambda>q args. ret (Ok 0)), drv_Begin = ret (), drv_Commit = ret (), drv_Rollback = (\<lambda>d. d), drv_Ping = ret ()\<rparr>"

lemma picky_driver_refuses: "refuses_empty_vectors picky_driver"
  by (auto simp: refuses_empty_vectors_def picky_driver_def fail_def ret_def dest!: nth_mem split: if_splits)

definition picky_env :: "((string \<times> jval) list, unit, unit) environment" where
  "picky_env = \<lparr>structs_of = \<lparr>AsMap = (\<lambda>s. s), NewStruct = Some\<rparr>, driver_of = picky_driver,
     schedule_of = (\<lambda>n. [0 ..< n]), net_of = demo_net, now_of = 0\<rparr>"

definition picky_world :: "(unit pool, unit) world" where
  "picky_world = (started () ())\<lparr>cache := [''c'' \<mapsto> \<lparr>ci_dimension = 1, ci_distanceMetric = ''cosine'',
     ci_embeddingProvider = [], ci_embeddingModel = []\<rparr>]\<rparr>"

definition by_text :: "(string \<times> jval) list HybridSearchRequest" where
  "by_text = \<lparr>hs_CollectionId = ''c'', hs_QueryVector = [], hs_QueryText = ''cats'', hs_TopK = 3, hs_VectorWeight = f_zero,
     hs_TextWeight = f_zero, hs_IncludeVector = False, hs_Metadata = None\<rparr>"

lemma vector_search_answered:
  "fst (dispatch picky_env (HybridSearchCall (by_text\<lparr>hs_QueryVector := [f_one]\<rparr>)) picky_world) = Ok (SearchResponse [])"
proof -
  have hit: "getCollectionInfo cr ''c'' picky_world = (Ok (1, ''cosine''), counted ''hit'' picky_world)"
    for cr :: "unit pool CollectionRepository"
    by (subst getCollectionInfo_hit) (auto simp: picky_world_def)
  have w: "normalizeWeights f_zero f_zero = Ok (f_half, f_half)"
    by (simp add: normalizeWeights_def f_zero_def f_one_def fp_order)
  have fin: "finite_fp f_one" by (simp add: finite_fp_def f_one_def)
  have v: "vectorToString [f_one] \<noteq> ''[]''"
    using vector_roundtrip [of "[f_one]"] no_vector_text vector_roundtrip [of "[]"] by (auto simp: f_one_def)
  obtain q where q: "hybridQuery ''c'' ''cats'' [f_one] 3 (Some []) f_half f_half False ''cosine'' =
      Ok (q, [AStr ''cats'', AStr ''c'', AStr (vectorToString [f_one]), AFloat f_half, AFloat f_half, AInt 3])"
    by (simp add: hybridQuery_def hybridHead_def filter_entries_def)
  have "DocumentRepo_HybridSearch picky_driver ''c'' ''cats'' [f_one] 3 (Some []) f_half f_half False ''cosine'' p = (Ok [], p)" for p
    using v by (simp add: DocumentRepo_HybridSearch_def q runSearch_def andThen_Ok wrap_error_Ok on_server_def
        picky_driver_def collect_rows_def check_Err_def ret_def)
  then have "\<exists>w'. HybridSearchDocuments (NewDocumentRepo picky_driver (\<lambda>n. [0 ..< n])) (NewCollectionRepo picky_driver) ''c'' ''cats''
      [f_one] 3 None f_zero f_zero False picky_world = (Ok [], w')"
    unfolding HybridSearch_Ok hit using w fin by (simp add: NewDocumentRepo_def orEmpty_def)
  then show ?thesis
    by (auto simp: picky_env_def by_text_def responding_def Handler_HybridSearch_def Let_def op_simps toFilter_def
        convertResults_def)
qed

lemma text_only_hybrid_search_fails_witness:
  "(\<forall>answer. fst (dispatch picky_env (HybridSearchCall by_text) picky_world) \<noteq> Ok answer) \<and>
   fst (dispatch picky_env (HybridSearchCall (by_text\<lparr>hs_QueryVector := [f_one]\<rparr>)) picky_world) = Ok (SearchResponse [])"
proof (intro conjI allI)
  show "fst (dispatch picky_env (HybridSearchCall by_text) picky_world) \<noteq> Ok answer" for answer
    by (rule text_only_hybrid_search_fails) (simp_all add: picky_env_def picky_driver_refuses by_text_def)
qed (rule vector_search_answered)

end
