(* ===== verification/Logger.thy ===== *)
theory Logger
  imports Prelude
begin

text \<open>
  \<open>internal/logger/logger.go\<close>: how the logger is set up and what its methods forward. The logging
  library \<open>logrus\<close> is a parameter: its three operations take a level, as it documents for its
  methods \<open>Info\<close>, \<open>Infoln\<close>, \<open>Infof\<close> and their siblings. Arguments are a parameter type.
\<close>

section \<open>Setting up\<close>

datatype log_level = ErrorLevel | WarnLevel | InfoLevel | DebugLevel

record TextFormatter =
  FullTimestamp :: bool
  ForceColors :: bool
  DisableColors :: bool
  PadLevelText :: bool
  TimestampFormat :: string

datatype log_output = LogFile string | Stdout

record logger_config =
  lc_level :: log_level
  lc_formatter :: TextFormatter
  lc_output :: "log_output list"

definition logFilePath :: string where
  "logFilePath = ''logs/vector-sync.log''"

text \<open>The directory is made and the file opened; a failure of either is logged and ends the
  process, which is the error here. The parameters are \<open>os.MkdirAll\<close> and \<open>os.OpenFile\<close>.\<close>

definition NewLogger ::
  "(string \<Rightarrow> ('w, 'e, unit) op) \<Rightarrow> (string \<Rightarrow> ('w, 'e, unit) op) \<Rightarrow> ('w, string \<times> 'e, logger_config) op" where
  "NewLogger mkdirAll openFile w =
     (case mkdirAll ''logs'' w of
        (Ok _, w1) \<Rightarrow>
          (case openFile logFilePath w1 of
             (Ok _, w2) \<Rightarrow>
               (Ok \<lparr>lc_level = DebugLevel,
                    lc_formatter = \<lparr>FullTimestamp = True, ForceColors = True, DisableColors = False, PadLevelText = True,
                      TimestampFormat = ''2006-01-02 15:04:05''\<rparr>,
                    lc_output = [LogFile logFilePath, Stdout]\<rparr>, w2)
           | (Err e, w2) \<Rightarrow> (Err (''Failed to open log file: %v'', e), w2)
           | (Panic m, w2) \<Rightarrow> (Panic m, w2)
           | (Diverge, w2) \<Rightarrow> (Diverge, w2))
      | (Err e, w1) \<Rightarrow> (Err (''Failed to create log directory: %v'', e), w1)
      | (Panic m, w1) \<Rightarrow> (Panic m, w1)
      | (Diverge, w1) \<Rightarrow> (Diverge, w1))"

section \<open>Forwarding\<close>

record ('w, 'e, 'a) logrus =
  lr_Log :: "log_level \<Rightarrow> 'a list \<Rightarrow> ('w, 'e, unit) op"
  lr_Logln :: "log_level \<Rightarrow> 'a list \<Rightarrow> ('w, 'e, unit) op"
  lr_Logf :: "log_level \<Rightarrow> string \<Rightarrow> 'a list \<Rightarrow> ('w, 'e, unit) op"

definition Logger_Info :: "('w, 'e, 'a) logrus \<Rightarrow> 'a list \<Rightarrow> ('w, 'e, unit) op" where
  "Logger_Info l args = lr_Log l InfoLevel args"

definition Logger_Infoln :: "('w, 'e, 'a) logrus \<Rightarrow> 'a list \<Rightarrow> ('w, 'e, unit) op" where
  "Logger_Infoln l args = lr_Logln l InfoLevel args"

definition Logger_Infof :: "('w, 'e, 'a) logrus \<Rightarrow> string \<Rightarrow> 'a list \<Rightarrow> ('w, 'e, unit) op" where
  "Logger_Infof l format args = lr_Logf l InfoLevel format args"

definition Logger_Error :: "('w, 'e, 'a) logrus \<Rightarrow> 'a list \<Rightarrow> ('w, 'e, unit) op" where
  "Logger_Error l args = lr_Log l ErrorLevel args"

definition Logger_Errorln :: "('w, 'e, 'a) logrus \<Rightarrow> 'a list \<Rightarrow> ('w, 'e, unit) op" where
  "Logger_Errorln l args = lr_Logln l ErrorLevel args"

definition Logger_Errorf :: "('w, 'e, 'a) logrus \<Rightarrow> string \<Rightarrow> 'a list \<Rightarrow> ('w, 'e, unit) op" where
  "Logger_Errorf l format args = lr_Logf l ErrorLevel format args"

definition Logger_Debug :: "('w, 'e, 'a) logrus \<Rightarrow> 'a list \<Rightarrow> ('w, 'e, unit) op" where
  "Logger_Debug l args = lr_Log l DebugLevel args"

definition Logger_Debugln :: "('w, 'e, 'a) logrus \<Rightarrow> 'a list \<Rightarrow> ('w, 'e, unit) op" where
  "Logger_Debugln l args = lr_Logln l DebugLevel args"

definition Logger_Debugf :: "('w, 'e, 'a) logrus \<Rightarrow> string \<Rightarrow> 'a list \<Rightarrow> ('w, 'e, unit) op" where
  "Logger_Debugf l format args = lr_Logf l DebugLevel format args"

definition Logger_Warn :: "('w, 'e, 'a) logrus \<Rightarrow> 'a list \<Rightarrow> ('w, 'e, unit) op" where
  "Logger_Warn l args = lr_Log l WarnLevel args"

definition Logger_Warnln :: "('w, 'e, 'a) logrus \<Rightarrow> 'a list \<Rightarrow> ('w, 'e, unit) op" where
  "Logger_Warnln l args = lr_Logln l WarnLevel args"

definition Logger_Warnf :: "('w, 'e, 'a) logrus \<Rightarrow> string \<Rightarrow> 'a list \<Rightarrow> ('w, 'e, unit) op" where
  "Logger_Warnf l format args = lr_Logf l WarnLevel format args"

section \<open>Facts\<close>

text \<open>Every entry goes to the file and to the terminal, from the level of debugging on.\<close>

lemma logger_writes_everywhere:
  assumes "NewLogger mkdirAll openFile w = (Ok c, w')"
  shows "lc_level c = DebugLevel \<and> lc_output c = [LogFile logFilePath, Stdout]"
  using assms by (auto simp: NewLogger_def split: prod.splits outcome.splits)

text \<open>A logger exists only with its file: when the directory cannot be made the process ends
  before it has done anything else.\<close>

lemma no_logger_without_directory:
  assumes "mkdirAll ''logs'' w = (Err e, w')"
  shows "NewLogger mkdirAll openFile w = (Err (''Failed to create log directory: %v'', e), w')"
  using assms by (simp add: NewLogger_def)

end
