(* ===== verification/Spec2Isabelle.thy ===== *)
theory Spec2Isabelle
  imports Chunker Vector_Text Models Cache Database Collection_Repo Document_Repo Document_Statements Document_Batch
    Embedding Repositories Document_Service Service_Facts Collection_Service Handlers Store_Properties
    Service_Properties Embedding_Properties Server Server_Facts Server_Properties Cache_Refinement Gateway
    Gateway_Properties Gateway_Local Gateway_Main Lifecycle Overlap Frame
    Document_Table Document_Session Document_Store Document_Flows
    Hybrid_Search Logger
begin

text \<open>
  VectorSync is a server for vector search: gRPC handlers (\<open>internal/grpc\<close>) call services
  (\<open>internal/services\<close>) that validate a request and call repositories (\<open>internal/db\<close>) which
  send statements to PostgreSQL with pgvector. An ingestion cuts a text into chunks
  (\<open>internal/chunker\<close>), has a provider turn them into vectors (\<open>internal/embedding\<close>) and inserts
  them as one batch. This library models these parts and proves what makes them correct.

  Ground. \<open>Prelude\<close> has the outcome of a Go call (a value, an error, a panic, or no return at
  all) and state passing: an \<open>op\<close> takes the world and returns an outcome and the new world.
  \<open>Go_Float\<close> models float32 with NaN, infinities, both zeros and rounding; \<open>Go_Strings\<close> the
  string functions, \<open>fmt.Sprintf\<close> and errors with the texts the code gives them. A string is
  its bytes. \<open>Models\<close> has the structs of \<open>internal/models\<close> and JSON values.

  Chunker (\<open>chunker.go\<close>). \<open>Chunker_Fixed\<close>, \<open>Chunker_Sentence\<close> and \<open>Chunker_Recursive\<close> hold the three
  strategies, \<open>Chunker\<close> the factory and the locale \<open>chunking\<close>, the contract of the interface
  \<open>Chunker\<close>, interpreted for each of them. The loop of the fixed chunker is a
  \<open>partial_function\<close>: not returning is \<open>None\<close>, and it is proved that it returns, so no fuel is
  needed anywhere.

  Storage. \<open>Vector_Text\<close> is \<open>vectorToString\<close> and \<open>stringToVector\<close> with Go's shortest float
  formatting and its parser. \<open>Database\<close> models the use of \<open>database/sql\<close>: the record \<open>driver\<close> is
  the database, a parameter, and the pool holds its state and the goroutines that were
  started and not yet run. \<open>Collection_Repo\<close> and \<open>Document_Repo\<close> are the repositories with the
  texts of their statements, \<open>Document_Statements\<close> and \<open>Document_Batch\<close> the facts about dynamic
  statements and the batch transaction, \<open>Cache\<close> the collection cache with the locale
  \<open>info_cache\<close>, \<open>Repositories\<close> the interfaces of \<open>services/interfaces.go\<close>, their implementations
  and \<open>WarmFromDB\<close>. \<open>Store_Properties\<close> has the properties of this layer. \<open>Document_Table\<close> is the
  abstract specification of the document repository, a table of documents, for the operations
  on one document; \<open>Document_Store\<close> adds pages, batch insertions in a transaction and batch
  deletions, and proves that the repository refines the table over every database that does
  with its statements what PostgreSQL documents. \<open>Document_Flows\<close> takes this to the requests: an
  ingestion leaves a document for each chunk in the table, with the locale \<open>float32_client\<close> for
  the vectors of the providers, and a listing is a page of it. \<open>Hybrid_Search\<close> shows that a hybrid search
  by text alone, which the service lets through, is refused by the database.

  Services. \<open>Embedding\<close> is the three clients on a network that is a parameter, with the locale
  \<open>embedding_client_contract\<close>; \<open>Document_Service\<close> and \<open>Collection_Service\<close> are the services and the
  health check, \<open>Service_Facts\<close>, \<open>Service_Properties\<close> and \<open>Embedding_Properties\<close> what is proved of
  them. \<open>Handlers\<close> is \<open>internal/grpc\<close>. \<open>Server\<close> has the connection, the metrics around requests and
  the wiring of \<open>main\<close>: \<open>dispatch\<close> runs a request, \<open>server_step\<close> is a step of the running server,
  \<open>calls_step\<close> the overlapping of calls in the interceptor. \<open>Server_Facts\<close> and
  \<open>Server_Properties\<close> prove that every request returns, what every reachable state satisfies and
  that background work drains. \<open>Cache_Refinement\<close> shows that the server with its cache refines one
  that asks the database every time: over an abstract table of collections, every request
  but the deletion of a collection has the same outcome in worlds that differ in correct
  cache entries only, so sessions do, and the cache never lies in a reachable state. \<open>Overlap\<close>
  cuts a lookup into its steps (ask the cache, query, insert) and proves the same for any
  interleaving of lookups, statements of other requests, tasks and warming. \<open>Frame\<close> says, with
  the locales \<open>spared\<close> and \<open>kept_store\<close>, what stays in the database while requests run that do not
  send given statements; \<open>Document_Session\<close> uses it to prove that a created document can be read
  after any requests that leave it alone.

  The edges. \<open>Gateway\<close> is the HTTP gateway (\<open>*.pb.gw.go\<close>): one definition for each handler that
  \<open>main\<close> registers, the table of routes and the multiplexers; \<open>Gateway_Properties\<close> proves that
  routes do not overlap, that a request is at most one call of the method its route names,
  and what the readiness probe does. \<open>Gateway_Local\<close> has the handlers that call the server in
  process and proves, with the locale \<open>relayed\<close>, that they serve every request alike. \<open>Gateway_Main\<close>
  is the dialling and registration in \<open>main\<close>, with the proof that every HTTP request is answered,
  \<open>Logger\<close> the set-up of the logger. \<open>Lifecycle\<close> is the start and the shutdown of \<open>main\<close> as a
  step relation, with the order in which servers and database stop.

  Parameters. PostgreSQL (\<open>driver\<close>), the HTTP exchange with a provider and the environment
  (\<open>net\<close>), the protocol library's structs (\<open>structs\<close>), the order in which the goroutines of a
  batch run (\<open>sched\<close>), the clock, the gateway library's codec of messages, annotation of contexts
  and status codes. Hypotheses on them say what they document: a transaction
  that does not commit leaves the data alone (\<open>transactional\<close>), calls return (\<open>safe_driver\<close>), a
  row of the table of collections stays until it is deleted and is read by its id
  (\<open>collection_table\<close>), a row of the table of documents is inserted, read, replaced and deleted
  by its id (\<open>document_table\<close>) and stays otherwise (\<open>keeps_rows\<close>), pages and batches do to the
  table what their statements say and a rollback takes it back (\<open>document_sets\<close>), a lookup of
  a collection leaves the documents alone (\<open>lookups_spare\<close>), a provider's JSON holds numbers
  (\<open>sends_numbers\<close>), a text that is no UUID is refused, a vector has a dimension (\<open>refuses_empty_vectors\<close>), decoders of the gateway library
  return (\<open>decodes\<close>), a struct converts to a map and back.

  Not modelled. The log lines of the other parts, contexts and timeouts of calls, sockets, the
  limits of message sizes, the generated protocol code beyond the messages and method names,
  the SQL migrations, and \<open>convertToModelDocument\<close>, which nothing calls. Outside \<open>Overlap\<close> a request is one step on the world: interleavings are modelled
  for lookups of collections, for the goroutines of a batch, for background index tasks, for
  warming the cache and for the interceptor. Of the JSON text only the value it encodes is
  modelled, and of histograms the number of observations by label. A range over a map is a
  list in any order.
\<close>

section \<open>From the request to the table and back\<close>

lemma DocumentRepo_Create_sends:
  assumes "DocumentRepo_Create drv cid content vec md p = (Ok doc, p')"
  shows "\<exists>j rs d. json_Marshal md = Ok j \<and>
     drv_Query drv insertDocument [AStr cid, AStr (vectorToString vec), AJson j, AStr content] (server p) = (Ok rs, d) \<and>
     p' = p\<lparr>server := d\<rparr>"
  using assms
  by (auto simp: DocumentRepo_Create_def Let_def andThen_Ok marshalMetadata_def wrap_error_Ok QueryRow_Ok returnedDocument_def)

text \<open>C2 A document that was created is in the table as it was sent: the insert carries the
  collection, the vector, the metadata and the content, and a row of these reads back as
  exactly that vector and metadata.\<close>

theorem created_document_is_stored_faithfully:
  assumes "CreateDocument (NewDocumentRepo drv sched) (NewCollectionRepo drv) cid content vec md w = (Ok doc, w')"
    and "list_all is_f32 vec"
  shows "\<exists>d0 j rs d.
     drv_Query drv insertDocument [AStr cid, AStr (vectorToString vec), AJson j, AStr content] d0 = (Ok rs, d) \<and>
     server (store w') = d \<and>
     (\<forall>i t u. scanDocument True
        [VText i, VText cid, VText (vectorToString vec), VJson j, VText content, VTime t, VTime u] =
        Ok \<lparr>d_Id = i, d_CollectionId = cid, d_Vector = vec, d_Metadata = orEmpty md, d_Content = content,
            d_CreatedAt = t, d_UpdatedAt = u\<rparr>)"
proof -
  from assms(1) obtain w1 d where
    run: "DocumentRepo_Create drv cid content vec (orEmpty md) (store w1) = (Ok doc, d)" and w': "w' = w1\<lparr>store := d\<rparr>"
    by (auto simp: CreateDocument_Ok NewDocumentRepo_def)
  from DocumentRepo_Create_sends [OF run] obtain j rs d' where j: "json_Marshal (orEmpty md) = Ok j"
    and q: "drv_Query drv insertDocument [AStr cid, AStr (vectorToString vec), AJson j, AStr content]
      (server (store w1)) = (Ok rs, d')" and d: "d = store w1\<lparr>server := d'\<rparr>" by blast
  have "scanDocument True
        [VText i, VText cid, VText (vectorToString vec), VJson j, VText content, VTime t, VTime u] =
        Ok \<lparr>d_Id = i, d_CollectionId = cid, d_Vector = vec, d_Metadata = orEmpty md, d_Content = content,
            d_CreatedAt = t, d_UpdatedAt = u\<rparr>" for i t u
    by (rule scan_stored [OF assms(2) j])
  with q w' d show ?thesis by (intro exI [of _ "server (store w1)"] exI [of _ j] exI [of _ rs] exI [of _ d']) simp
qed

definition demo_driver :: "nat driver" where
  "demo_driver =
     \<lparr>drv_Query = (\<lambda>q as n. (Ok \<lparr>row_list = [[VText ''d'', VText ''c'', VNull, VText ''t'', VTime 1, VTime 1]], rows_Err = None\<rparr>, n + 1)),
      drv_Exec = (\<lambda>q as. ret (Ok 1)), drv_Begin = ret (), drv_Commit = ret (), drv_Rollback = (\<lambda>d. d), drv_Ping = ret ()\<rparr>"

definition demo_pool_world :: "(nat pool, unit) world" where
  "demo_pool_world = (started 0 ())\<lparr>cache := [''c'' \<mapsto> \<lparr>ci_dimension = 2, ci_distanceMetric = ''cosine'',
     ci_embeddingProvider = [], ci_embeddingModel = []\<rparr>]\<rparr>"

lemma created_document_is_stored_faithfully_witness:
  "\<exists>doc w' d0 j rs d. CreateDocument (NewDocumentRepo demo_driver (\<lambda>_. [])) (NewCollectionRepo demo_driver) ''c'' ''t''
       [f_one, f_zero] None demo_pool_world = (Ok doc, w') \<and>
     drv_Query demo_driver insertDocument [AStr ''c'', AStr (vectorToString [f_one, f_zero]), AJson j, AStr ''t''] d0 = (Ok rs, d) \<and>
     server (store w') = d"
proof -
  let ?run = "CreateDocument (NewDocumentRepo demo_driver (\<lambda>_. [])) (NewCollectionRepo demo_driver) ''c'' ''t''
       [f_one, f_zero] None demo_pool_world"
  have info: "getCollectionInfo cr ''c'' demo_pool_world = (Ok (2, ''cosine''), counted ''hit'' demo_pool_world)"
    for cr :: "nat pool CollectionRepository"
    by (subst getCollectionInfo_hit) (auto simp: demo_pool_world_def)
  have fin: "list_all finite_fp [f_one, f_zero]" by (simp add: finite_fp_def f_one_def f_zero_def)
  have "\<exists>doc w'. ?run = (Ok doc, w')"
    unfolding CreateDocument_Ok info using fin
    by (simp add: NewDocumentRepo_def DocumentRepo_Create_def Let_def andThen_Ok marshalMetadata_def wrap_error_Ok
        QueryRow_Ok returnedDocument_def orEmpty_def json_Marshal_def)
       (simp add: demo_driver_def first_row_def decodeMetadata_def)
  then obtain doc w' where run: "?run = (Ok doc, w')" by blast
  have "list_all is_f32 [f_one, f_zero]" by (simp add: f_one_def f_zero_def)
  from created_document_is_stored_faithfully [OF run this] run show ?thesis by blast
qed

end
